(* ===== verification/Bridge_Prelude.thy ===== *)
theory Bridge_Prelude
  imports Complex_Main "HOL-Library.AList"
begin

text \<open>
  Shared vocabulary of the development: Python's dynamic values as the code meets them (JSON
  data, ordered dictionaries, truthiness, membership, equality, conversion to text and to
  integers), exceptions as values, and computations over an explicit state that may raise.

  Conventions.  A Python \<open>str\<close> is a \<open>string\<close> whose characters are the code points 0 to 255;
  \<open>bytes\<close> use the same type.  A Python \<open>float\<close> that the program computes with (budgets, delays,
  clock readings) is a \<open>rat\<close>: rounding is not modelled.  A \<open>float\<close> inside JSON data is only
  stored, printed and compared by the program, and is represented by its \<open>repr\<close>.  A \<open>dict\<close>
  is the list of its items in insertion order; \<open>AList.update\<close> replaces in place or appends, as
  the assignment \<open>d[k] = v\<close> does.
\<close>

named_theorems py_simps \<open>evaluation rules for the Python primitives\<close>
named_theorems act_simps \<open>evaluation rules for stateful computations\<close>
named_theorems wp_simps \<open>weakest preconditions of stateful computations\<close>
named_theorems keeps_intros \<open>introduction rules for invariants of stateful computations\<close>

section \<open>Exceptions and results\<close>

datatype pyexn = AttributeError | TypeError | ValueError | KeyError | LookupError
  | InvalidToken | IntegrityError | OperationalError string | RuntimeError

type_synonym 'a res = "pyexn + 'a"

definition bindR :: "'e + 'a \<Rightarrow> ('a \<Rightarrow> 'e + 'b) \<Rightarrow> 'e + 'b" where
  "bindR m f = (case m of Inl e \<Rightarrow> Inl e | Inr a \<Rightarrow> f a)"

lemma bindR_Inl [simp, py_simps]: "bindR (Inl e) f = Inl e"
  by (simp add: bindR_def)

lemma bindR_Inr [simp, py_simps]: "bindR (Inr a) f = f a"
  by (simp add: bindR_def)

lemma bindR_eq_Inr: "bindR m f = Inr b \<longleftrightarrow> (\<exists>a. m = Inr a \<and> f a = Inr b)"
  by (cases m) auto

lemma bindR_eq_Inl: "bindR m f = Inl e \<longleftrightarrow> m = Inl e \<or> (\<exists>a. m = Inr a \<and> f a = Inl e)"
  by (cases m) auto

lemma bindR_InrE:
  assumes "bindR m f = Inr b"
  obtains a where "m = Inr a" and "f a = Inr b"
  using assms by (auto simp: bindR_eq_Inr)

section \<open>Computations over a state that may raise\<close>

text \<open>
  A statement sequence of the program is a function from the state before to the outcome (an
  exception or a value) and the state after.  The state is returned on both branches, since an
  exception does not undo what was done before it.
\<close>

type_synonym ('w, 'e, 'a) act = "'w \<Rightarrow> ('e + 'a) \<times> 'w"

definition returnA :: "'a \<Rightarrow> ('w, 'e, 'a) act" where
  "returnA a = (\<lambda>w. (Inr a, w))"

definition raiseA :: "'e \<Rightarrow> ('w, 'e, 'a) act" where
  "raiseA e = (\<lambda>w. (Inl e, w))"

definition liftA :: "'e + 'a \<Rightarrow> ('w, 'e, 'a) act" where
  "liftA r = (\<lambda>w. (r, w))"

definition modifyA :: "('w \<Rightarrow> 'w) \<Rightarrow> ('w, 'e, unit) act" where
  "modifyA f = (\<lambda>w. (Inr (), f w))"

definition getsA :: "('w \<Rightarrow> 'a) \<Rightarrow> ('w, 'e, 'a) act" where
  "getsA f = (\<lambda>w. (Inr (f w), w))"

definition seqA :: "('w, 'e, 'a) act \<Rightarrow> ('a \<Rightarrow> ('w, 'e, 'b) act) \<Rightarrow> ('w, 'e, 'b) act" where
  "seqA m f = (\<lambda>w. case m w of (Inl e, w') \<Rightarrow> (Inl e, w') | (Inr a, w') \<Rightarrow> f a w')"

definition catchA :: "('w, 'd, 'a) act \<Rightarrow> ('d \<Rightarrow> ('w, 'e, 'a) act) \<Rightarrow> ('w, 'e, 'a) act" where
  "catchA m h = (\<lambda>w. case m w of (Inl e, w') \<Rightarrow> h e w' | (Inr a, w') \<Rightarrow> (Inr a, w'))"

lemma act_run [act_simps]:
  "returnA a w = (Inr a, w)"
  "raiseA e w = (Inl e, w)"
  "liftA r w = (r, w)"
  "modifyA f w = (Inr (), f w)"
  "getsA g w = (Inr (g w), w)"
  by (simp_all add: returnA_def raiseA_def liftA_def modifyA_def getsA_def)

lemma seqA_run [act_simps]:
  "seqA m f w = (case m w of (Inl e, w') \<Rightarrow> (Inl e, w') | (Inr a, w') \<Rightarrow> f a w')"
  by (simp add: seqA_def)

lemma catchA_run [act_simps]:
  "catchA m h w = (case m w of (Inl e, w') \<Rightarrow> h e w' | (Inr a, w') \<Rightarrow> (Inr a, w'))"
  by (simp add: catchA_def)

lemma seqA_Inr: "m w = (Inr a, w') \<Longrightarrow> seqA m f w = f a w'"
  by (simp add: seqA_def)

lemma seqA_Inl: "m w = (Inl e, w') \<Longrightarrow> seqA m f w = (Inl e, w')"
  by (simp add: seqA_def)

lemma seqA_returnA [simp]: "seqA (returnA a) f = f a"
  by (simp add: seqA_def returnA_def)

lemma seqA_raiseA [simp]: "seqA (raiseA e) f = raiseA e"
  by (simp add: seqA_def raiseA_def fun_eq_iff)

text \<open>
  A relation between the states before and after that every run of a computation satisfies,
  whether it returns or raises.  With a reflexive and transitive relation it composes.
\<close>

definition effect_within :: "('w \<Rightarrow> 'w \<Rightarrow> bool) \<Rightarrow> ('w, 'e, 'a) act \<Rightarrow> bool" where
  "effect_within R m \<longleftrightarrow> (\<forall>w. R w (snd (m w)))"

lemma effect_withinI: "(\<And>w. R w (snd (m w))) \<Longrightarrow> effect_within R m"
  by (simp add: effect_within_def)

lemma effect_withinD: "effect_within R m \<Longrightarrow> m w = (r, w') \<Longrightarrow> R w w'"
  by (metis effect_within_def snd_conv)

lemma effect_returnA [keeps_intros]: "reflp R \<Longrightarrow> effect_within R (returnA a)"
  by (simp add: effect_within_def returnA_def reflp_def)

lemma effect_raiseA [keeps_intros]: "reflp R \<Longrightarrow> effect_within R (raiseA e)"
  by (simp add: effect_within_def raiseA_def reflp_def)

lemma effect_liftA [keeps_intros]: "reflp R \<Longrightarrow> effect_within R (liftA r)"
  by (simp add: effect_within_def liftA_def reflp_def)

lemma effect_getsA [keeps_intros]: "reflp R \<Longrightarrow> effect_within R (getsA g)"
  by (simp add: effect_within_def getsA_def reflp_def)

lemma effect_modifyA: "(\<And>w. R w (f w)) \<Longrightarrow> effect_within R (modifyA f)"
  by (simp add: effect_within_def modifyA_def)

lemma effect_seqA [keeps_intros]:
  assumes "transp R" and "effect_within R m" and "\<And>a. effect_within R (f a)"
  shows "effect_within R (seqA m f)"
proof (rule effect_withinI)
  fix w
  obtain r w' where m: "m w = (r, w')" by (cases "m w")
  from assms(2) m have R: "R w w'" by (rule effect_withinD)
  show "R w (snd (seqA m f w))"
  proof (cases r)
    case (Inl e)
    with m R show ?thesis by (simp add: seqA_Inl)
  next
    case (Inr a)
    have "R w' (snd (f a w'))" using assms(3) by (simp add: effect_within_def)
    with Inr m R assms(1) show ?thesis by (auto simp: seqA_Inr elim: transpE)
  qed
qed

lemma effect_catchA [keeps_intros]:
  assumes "transp R" and "effect_within R m" and "\<And>e. effect_within R (h e)"
  shows "effect_within R (catchA m h)"
proof (rule effect_withinI)
  fix w
  obtain r w' where m: "m w = (r, w')" by (cases "m w")
  from assms(2) m have R: "R w w'" by (rule effect_withinD)
  show "R w (snd (catchA m h w))"
  proof (cases r)
    case (Inl e)
    have "R w' (snd (h e w'))" using assms(3) by (simp add: effect_within_def)
    with Inl m R assms(1) show ?thesis by (auto simp: catchA_def elim: transpE)
  next
    case (Inr a)
    with m R show ?thesis by (simp add: catchA_def)
  qed
qed

lemma effect_if [keeps_intros]:
  "(b \<Longrightarrow> effect_within R m) \<Longrightarrow> (\<not> b \<Longrightarrow> effect_within R n)
   \<Longrightarrow> effect_within R (if b then m else n)"
  by simp

lemma effect_option [keeps_intros]:
  "(x = None \<Longrightarrow> effect_within R m) \<Longrightarrow> (\<And>a. x = Some a \<Longrightarrow> effect_within R (f a))
   \<Longrightarrow> effect_within R (case x of None \<Rightarrow> m | Some a \<Rightarrow> f a)"
  by (cases x) simp_all

lemma effect_sum [keeps_intros]:
  "(\<And>a. x = Inl a \<Longrightarrow> effect_within R (f a)) \<Longrightarrow> (\<And>b. x = Inr b \<Longrightarrow> effect_within R (g b))
   \<Longrightarrow> effect_within R (case x of Inl a \<Rightarrow> f a | Inr b \<Rightarrow> g b)"
  by (cases x) simp_all

text \<open>
  The weakest condition on the state before under which a computation ends with \<open>Q\<close> where it
  returns and with \<open>X\<close> where it raises.  It is computed from the structure of the computation by
  the rules of \<open>wp_simps\<close>.
\<close>

definition wp :: "('w, 'e, 'a) act \<Rightarrow> ('a \<Rightarrow> 'w \<Rightarrow> bool) \<Rightarrow> ('e \<Rightarrow> 'w \<Rightarrow> bool) \<Rightarrow> 'w \<Rightarrow> bool" where
  "wp m Q X w = (case m w of (Inl e, w') \<Rightarrow> X e w' | (Inr a, w') \<Rightarrow> Q a w')"

lemma wp_basic [wp_simps]:
  "wp (returnA a) Q X = Q a"
  "wp (raiseA e) Q X = X e"
  "wp (modifyA f) Qu X = (\<lambda>w. Qu () (f w))"
  "wp (getsA g) Qg X = (\<lambda>w. Qg (g w) w)"
  "wp (liftA r) Ql X = (\<lambda>w. case r of Inl e \<Rightarrow> X e w | Inr a \<Rightarrow> Ql a w)"
  by (simp_all add: wp_def act_simps fun_eq_iff split: sum.split)

lemma wp_seqA [wp_simps]: "wp (seqA m f) Q X = wp m (\<lambda>a. wp (f a) Q X) X"
  by (simp add: wp_def seqA_def fun_eq_iff split: prod.split sum.split)

lemma wp_catchA [wp_simps]: "wp (catchA m h) Q X = wp m Q (\<lambda>e. wp (h e) Q X)"
  by (simp add: wp_def catchA_def fun_eq_iff split: prod.split sum.split)

lemma wp_if [wp_simps]:
  "wp (if b then m else n) Q X = (\<lambda>w. if b then wp m Q X w else wp n Q X w)"
  by (simp add: fun_eq_iff)

lemma wp_option [wp_simps]:
  "wp (case x of None \<Rightarrow> m | Some a \<Rightarrow> f a) Q X =
     (\<lambda>w. case x of None \<Rightarrow> wp m Q X w | Some a \<Rightarrow> wp (f a) Q X w)"
  by (simp add: fun_eq_iff split: option.split)

lemma wp_prod [wp_simps]:
  "wp (case x of (a, b) \<Rightarrow> f a b) Q X = (\<lambda>w. case x of (a, b) \<Rightarrow> wp (f a b) Q X w)"
  by (simp add: fun_eq_iff split: prod.split)

lemma wp_mono:
  assumes "wp m Q X w" and "\<And>a w'. Q a w' \<Longrightarrow> Q' a w'" and "\<And>e w'. X e w' \<Longrightarrow> X' e w'"
  shows "wp m Q' X' w"
  using assms by (auto simp: wp_def split: prod.splits sum.splits)

lemma wp_conj: "wp m Q X w \<Longrightarrow> wp m Q' X' w \<Longrightarrow> wp m (\<lambda>a w'. Q a w' \<and> Q' a w') (\<lambda>e w'. X e w' \<and> X' e w') w"
  by (auto simp: wp_def split: prod.splits sum.splits)

lemma wp_Inr: "wp m Q X w \<Longrightarrow> m w = (Inr a, w') \<Longrightarrow> Q a w'"
  by (simp add: wp_def)

lemma wp_Inl: "wp m Q X w \<Longrightarrow> m w = (Inl e, w') \<Longrightarrow> X e w'"
  by (simp add: wp_def)

lemma wp_effect: "effect_within R m \<longleftrightarrow> (\<forall>w. wp m (\<lambda>_. R w) (\<lambda>_. R w) w)"
proof -
  have "wp m (\<lambda>_. R w) (\<lambda>_. R w) w = R w (snd (m w))" for w
    by (cases "m w"; cases "fst (m w)") (simp_all add: wp_def)
  then show ?thesis by (simp add: effect_within_def)
qed

section \<open>Python dictionaries\<close>

type_synonym 'v dict = "(string \<times> 'v) list"

definition dict_ok :: "'v dict \<Rightarrow> bool" where
  "dict_ok d \<longleftrightarrow> distinct (map fst d)"

definition dict_has :: "'v dict \<Rightarrow> string \<Rightarrow> bool" where
  "dict_has d k \<longleftrightarrow> map_of d k \<noteq> None"

definition dict_del :: "string \<Rightarrow> 'v dict \<Rightarrow> 'v dict" where
  "dict_del k d = filter (\<lambda>(k', _). k' \<noteq> k) d"

definition dict_keys :: "'v dict \<Rightarrow> string list" where
  "dict_keys d = map fst d"

lemma dict_has_iff: "dict_has d k \<longleftrightarrow> k \<in> fst ` set d"
  by (simp add: dict_has_def map_of_eq_None_iff)

lemma dict_has_update [simp]: "dict_has (AList.update k v d) k' \<longleftrightarrow> k' = k \<or> dict_has d k'"
  by (auto simp: dict_has_def update_conv)

lemma map_of_filter_keys:
  "map_of (filter (\<lambda>(k, _). P k) d) x = (if P x then map_of d x else None)"
  by (induction d) auto

lemma map_of_dict_del [simp]: "map_of (dict_del k d) x = (if x = k then None else map_of d x)"
  unfolding dict_del_def by (simp add: map_of_filter_keys)

lemma dict_ok_filter [simp]: "dict_ok d \<Longrightarrow> dict_ok (filter P d)"
  by (simp add: dict_ok_def distinct_map_filter)

lemma dict_ok_dict_del [simp]: "dict_ok d \<Longrightarrow> dict_ok (dict_del k d)"
  by (simp add: dict_del_def)

lemma dict_ok_update [simp]: "dict_ok d \<Longrightarrow> dict_ok (AList.update k v d)"
  by (simp add: dict_ok_def distinct_update)

section \<open>JSON values and the operations the code applies to them\<close>

datatype json = JNull | JBool bool | JInt int | JFloat string | JStr string
  | JArr "json list" | JObj "(string \<times> json) list"

fun is_obj :: "json \<Rightarrow> bool" where
  "is_obj (JObj _) = True"
| "is_obj _ = False"

lemma is_objE:
  assumes "is_obj v"
  obtains d where "v = JObj d"
  using assms by (cases v) auto

text \<open>The value of a float literal such as \<open>12.5\<close>, \<open>1e-07\<close> or \<open>-3.0e+20\<close>.\<close>

definition digit_val :: "char \<Rightarrow> nat" where
  "digit_val c = of_char c - 48"

definition is_digit :: "char \<Rightarrow> bool" where
  "is_digit c \<longleftrightarrow> 48 \<le> (of_char c :: nat) \<and> (of_char c :: nat) \<le> 57"

definition digits_val :: "string \<Rightarrow> int" where
  "digits_val s = foldl (\<lambda>a c. 10 * a + int (digit_val c)) 0 s"

definition pow10 :: "int \<Rightarrow> rat" where
  "pow10 e = (if 0 \<le> e then 10 ^ nat e else 1 / 10 ^ nat (- e))"

definition exp_val :: "string \<Rightarrow> int" where
  "exp_val s = (case s of
     [] \<Rightarrow> 0
   | c # cs \<Rightarrow> if c = CHR ''-'' then - digits_val cs
               else if c = CHR ''+'' then digits_val cs else digits_val s)"

definition float_val :: "string \<Rightarrow> rat" where
  "float_val s =
     (let neg = (case s of [] \<Rightarrow> False | c # _ \<Rightarrow> c = CHR ''-'');
          body = (if neg then tl s else s);
          mant = takeWhile (\<lambda>c. c \<noteq> CHR ''e'') body;
          ex = tl (dropWhile (\<lambda>c. c \<noteq> CHR ''e'') body);
          whole = takeWhile (\<lambda>c. c \<noteq> CHR ''.'') mant;
          frac = tl (dropWhile (\<lambda>c. c \<noteq> CHR ''.'') mant);
          m = of_int (digits_val (whole @ frac)) * pow10 (exp_val ex - int (length frac))
      in if neg then - m else m)"

text \<open>
  \<open>bool(v)\<close>: empty containers, zero, \<open>False\<close> and \<open>None\<close> are false.  \<open>float_val\<close> is zero
  exactly on the literals of zero.
\<close>

fun truthy :: "json \<Rightarrow> bool" where
  "truthy JNull = False"
| "truthy (JBool b) = b"
| "truthy (JInt i) = (i \<noteq> 0)"
| "truthy (JFloat s) = (float_val s \<noteq> 0)"
| "truthy (JStr s) = (s \<noteq> [])"
| "truthy (JArr xs) = (xs \<noteq> [])"
| "truthy (JObj d) = (d \<noteq> [])"

text \<open>\<open>a or b\<close> returns the first operand when it is true.\<close>

definition py_or :: "json \<Rightarrow> json \<Rightarrow> json" where
  "py_or a b = (if truthy a then a else b)"

text \<open>
  \<open>a == b\<close>.  Booleans, integers and floats compare by value; dictionaries compare as maps, so
  the order of their items does not matter.
\<close>

fun num_val :: "json \<Rightarrow> rat option" where
  "num_val (JBool b) = Some (if b then 1 else 0)"
| "num_val (JInt i) = Some (of_int i)"
| "num_val (JFloat s) = Some (float_val s)"
| "num_val _ = None"

fun py_eq :: "json \<Rightarrow> json \<Rightarrow> bool"
  and py_eq_list :: "json list \<Rightarrow> json list \<Rightarrow> bool"
  and py_eq_items :: "(string \<times> json) list \<Rightarrow> (string \<times> json) list \<Rightarrow> bool" where
  "py_eq (JArr xs) w = (case w of JArr ys \<Rightarrow> py_eq_list xs ys | _ \<Rightarrow> False)"
| "py_eq (JObj d) w = (case w of JObj e \<Rightarrow> length d = length e \<and> py_eq_items d e | _ \<Rightarrow> False)"
| "py_eq JNull w = (w = JNull)"
| "py_eq (JStr s) w = (w = JStr s)"
| "py_eq v w = (case num_val v of None \<Rightarrow> False
                | Some a \<Rightarrow> (case num_val w of None \<Rightarrow> False | Some b \<Rightarrow> a = b))"
| "py_eq_list [] ys = (ys = [])"
| "py_eq_list (x # xs) ys = (case ys of [] \<Rightarrow> False | z # zs \<Rightarrow> py_eq x z \<and> py_eq_list xs zs)"
| "py_eq_items [] e = True"
| "py_eq_items (kv # d) e =
     ((case map_of e (fst kv) of None \<Rightarrow> False | Some w \<Rightarrow> py_eq (snd kv) w) \<and> py_eq_items d e)"

text \<open>\<open>v.get(k)\<close>, \<open>v.get(k, default)\<close>, \<open>v[k]\<close> and \<open>k in v\<close> on a value of unknown shape.\<close>

definition py_get :: "json \<Rightarrow> string \<Rightarrow> json \<Rightarrow> json res" where
  "py_get v k dflt = (case v of
     JObj d \<Rightarrow> Inr (case map_of d k of None \<Rightarrow> dflt | Some x \<Rightarrow> x)
   | _ \<Rightarrow> Inl AttributeError)"

definition py_item :: "json \<Rightarrow> string \<Rightarrow> json res" where
  "py_item v k = (case v of
     JObj d \<Rightarrow> (case map_of d k of None \<Rightarrow> Inl KeyError | Some x \<Rightarrow> Inr x)
   | _ \<Rightarrow> Inl TypeError)"

fun is_infix :: "string \<Rightarrow> string \<Rightarrow> bool" where
  "is_infix p [] = (p = [])"
| "is_infix p (c # cs) = (take (length p) (c # cs) = p \<or> is_infix p cs)"

definition py_in :: "string \<Rightarrow> json \<Rightarrow> bool res" where
  "py_in k v = (case v of
     JObj d \<Rightarrow> Inr (dict_has d k)
   | JArr xs \<Rightarrow> Inr (JStr k \<in> set xs)
   | JStr s \<Rightarrow> Inr (is_infix k s)
   | _ \<Rightarrow> Inl TypeError)"

lemma py_obj [simp, py_simps]:
  "py_get (JObj d) k x = Inr (case map_of d k of None \<Rightarrow> x | Some y \<Rightarrow> y)"
  "py_item (JObj d) k = (case map_of d k of None \<Rightarrow> Inl KeyError | Some y \<Rightarrow> Inr y)"
  "py_in k (JObj d) = Inr (dict_has d k)"
  by (simp_all add: py_get_def py_item_def py_in_def)

lemma py_get_Inr_obj: "py_get v k x = Inr y \<Longrightarrow> is_obj v"
  by (cases v) (auto simp: py_get_def)

lemma py_get_not_obj: "\<not> is_obj v \<Longrightarrow> py_get v k x = Inl AttributeError"
  by (cases v) (auto simp: py_get_def)

lemma py_item_not_obj: "\<not> is_obj v \<Longrightarrow> py_item v k = Inl TypeError"
  by (cases v) (auto simp: py_item_def)

section \<open>Text of integers and values\<close>

fun nat_str :: "nat \<Rightarrow> string" where
  "nat_str n = (if n < 10 then [char_of (48 + n)] else nat_str (n div 10) @ [char_of (48 + n mod 10)])"

declare nat_str.simps [simp del]

definition int_str :: "int \<Rightarrow> string" where
  "int_str i = (if i < 0 then CHR ''-'' # nat_str (nat (- i)) else nat_str (nat i))"

lemma is_digit_char_of [simp]: "d < 10 \<Longrightarrow> is_digit (char_of (48 + d :: nat))"
  by (simp add: is_digit_def)

lemma digit_val_char_of [simp]: "d < 10 \<Longrightarrow> digit_val (char_of (48 + d :: nat)) = d"
  by (simp add: digit_val_def)

lemma nat_str_digits: "\<forall>c \<in> set (nat_str n). is_digit c"
proof (induction n rule: nat_str.induct)
  case (1 n)
  then show ?case by (subst nat_str.simps) auto
qed

lemma nat_str_nonempty [simp]: "nat_str n \<noteq> []"
  by (subst nat_str.simps) simp

lemma digits_val_snoc [simp]: "digits_val (s @ [c]) = 10 * digits_val s + int (digit_val c)"
  by (simp add: digits_val_def)

lemma digits_val_nat_str [simp]: "digits_val (nat_str n) = int n"
proof (induction n rule: nat_str.induct)
  case (1 n)
  show ?case
  proof (cases "n < 10")
    case True
    then show ?thesis by (subst nat_str.simps) (simp add: digits_val_def)
  next
    case False
    with 1 have "digits_val (nat_str (n div 10)) = int (n div 10)" by simp
    moreover have "10 * int (n div 10) + int (n mod 10) = int n" by presburger
    ultimately show ?thesis
      using False by (subst nat_str.simps) simp
  qed
qed

section \<open>White space and integers read from text\<close>

text \<open>\<open>str.isspace\<close> on the code points below 256, which \<open>\s\<close>, \<open>int\<close> and \<open>split\<close> all use.\<close>

definition is_space :: "char \<Rightarrow> bool" where
  "is_space c \<longleftrightarrow> (let n = (of_char c :: nat) in
     9 \<le> n \<and> n \<le> 13 \<or> 28 \<le> n \<and> n \<le> 32 \<or> n = 133 \<or> n = 160)"

definition strip :: "string \<Rightarrow> string" where
  "strip s = rev (dropWhile is_space (rev (dropWhile is_space s)))"

definition all_digits :: "string \<Rightarrow> bool" where
  "all_digits s \<longleftrightarrow> s \<noteq> [] \<and> (\<forall>c \<in> set s. is_digit c)"

text \<open>
  Python refuses to convert more than 4300 digits at once (\<open>sys.get_int_max_str_digits\<close>).
\<close>

definition int_of_digits :: "string \<Rightarrow> int res" where
  "int_of_digits s = (if length s \<le> 4300 then Inr (digits_val s) else Inl ValueError)"

text \<open>\<open>int(s)\<close>: white space around, one sign, digits with single underscores between them.\<close>

fun digit_groups :: "string \<Rightarrow> bool" where
  "digit_groups [] = False"
| "digit_groups [c] = is_digit c"
| "digit_groups (c # d # cs) =
     (is_digit c \<and> (if d = CHR ''_'' then digit_groups cs else digit_groups (d # cs)))"

definition int_of_str :: "string \<Rightarrow> int res" where
  "int_of_str t =
     (let s = strip t;
          neg = (case s of [] \<Rightarrow> False | c # _ \<Rightarrow> c = CHR ''-'');
          signed = (case s of [] \<Rightarrow> False | c # _ \<Rightarrow> c = CHR ''-'' \<or> c = CHR ''+'');
          body = (if signed then tl s else s)
      in if digit_groups body
         then bindR (int_of_digits (filter is_digit body)) (\<lambda>i. Inr (if neg then - i else i))
         else Inl ValueError)"

definition trunc_rat :: "rat \<Rightarrow> int" where
  "trunc_rat x = (if 0 \<le> x then \<lfloor>x\<rfloor> else \<lceil>x\<rceil>)"

text \<open>\<open>int(v)\<close> on a JSON value.\<close>

fun py_int :: "json \<Rightarrow> int res" where
  "py_int (JBool b) = Inr (if b then 1 else 0)"
| "py_int (JInt i) = Inr i"
| "py_int (JFloat s) = Inr (trunc_rat (float_val s))"
| "py_int (JStr s) = int_of_str s"
| "py_int _ = Inl TypeError"

section \<open>\<open>str\<close> of a JSON value\<close>

definition hex_digit :: "nat \<Rightarrow> char" where
  "hex_digit n = (if n < 10 then char_of (48 + n) else char_of (87 + n))"

definition hex2 :: "nat \<Rightarrow> string" where
  "hex2 n = [hex_digit (n div 16), hex_digit (n mod 16)]"

text \<open>\<open>repr\<close> of a string: single quotes unless the text has a single quote and no double one.\<close>

definition repr_char :: "char \<Rightarrow> char \<Rightarrow> string" where
  "repr_char q c = (let n = (of_char c :: nat) in
     if c = q \<or> c = CHR 0x5C then [CHR 0x5C, c]
     else if n = 9 then [CHR 0x5C, CHR ''t'']
     else if n = 10 then [CHR 0x5C, CHR ''n'']
     else if n = 13 then [CHR 0x5C, CHR ''r'']
     else if n < 32 \<or> 127 \<le> n \<and> n \<le> 160 \<or> n = 173 then CHR 0x5C # CHR ''x'' # hex2 n
     else [c])"

definition py_repr_str :: "string \<Rightarrow> string" where
  "py_repr_str s =
     (let q = (if CHR 0x27 \<in> set s \<and> CHR 0x22 \<notin> set s then CHR 0x22 else CHR 0x27)
      in q # concat (map (repr_char q) s) @ [q])"

fun comma_sep :: "string list \<Rightarrow> string" where
  "comma_sep [] = []"
| "comma_sep [s] = s"
| "comma_sep (s # t # ss) = s @ '', '' @ comma_sep (t # ss)"

fun py_repr :: "json \<Rightarrow> string" where
  "py_repr JNull = ''None''"
| "py_repr (JBool b) = (if b then ''True'' else ''False'')"
| "py_repr (JInt i) = int_str i"
| "py_repr (JFloat s) = s"
| "py_repr (JStr s) = py_repr_str s"
| "py_repr (JArr xs) = ''['' @ comma_sep (map py_repr xs) @ '']''"
| "py_repr (JObj d) =
     ''{'' @ comma_sep (map (\<lambda>kv. py_repr_str (fst kv) @ '': '' @ py_repr (snd kv)) d) @ ''}''"

definition py_str :: "json \<Rightarrow> string" where
  "py_str v = (case v of JStr s \<Rightarrow> s | _ \<Rightarrow> py_repr v)"

lemma py_str_JStr [simp, py_simps]: "py_str (JStr s) = s"
  by (simp add: py_str_def)

end
