(* ===== verification/Oauth_Errors.thy ===== *)
theory Oauth_Errors
  imports Bridge_Prelude
begin

text \<open>
  \<open>errors.py\<close>: the OAuth error codes, their wire values, their descriptions and the JSON body
  made of them; with the part of \<open>http.HTTPStatus\<close> (Python 3.12) that the code relies on.

  The description table has no entry for \<open>INVALID_STATE\<close> and \<open>INVALID_RESPONSE\<close>: reading the
  property of those two members raises \<open>KeyError\<close>.  \<open>description_total_iff\<close> says that these are
  the only ones, and \<open>error_of_value_roundtrip\<close> that the wire values identify the members.
\<close>

section \<open>Error codes\<close>

datatype oauth_error = ACCESS_DENIED | INVALID_CLIENT | INVALID_GRANT | INVALID_REQUEST
  | INVALID_SCOPE | INVALID_STATE | INVALID_RESPONSE | SERVER_ERROR | TEMPORARILY_UNAVAILABLE
  | UNAUTHORIZED_CLIENT | UNSUPPORTED_GRANT_TYPE | UNSUPPORTED_RESPONSE_TYPE

fun error_value :: "oauth_error \<Rightarrow> string" where
  "error_value ACCESS_DENIED = ''access_denied''"
| "error_value INVALID_CLIENT = ''invalid_client''"
| "error_value INVALID_GRANT = ''invalid_grant''"
| "error_value INVALID_REQUEST = ''invalid_request''"
| "error_value INVALID_SCOPE = ''invalid_scope''"
| "error_value INVALID_STATE = ''invalid_state''"
| "error_value INVALID_RESPONSE = ''invalid_response''"
| "error_value SERVER_ERROR = ''server_error''"
| "error_value TEMPORARILY_UNAVAILABLE = ''temporarily_unavailable''"
| "error_value UNAUTHORIZED_CLIENT = ''unauthorized_client''"
| "error_value UNSUPPORTED_GRANT_TYPE = ''unsupported_grant_type''"
| "error_value UNSUPPORTED_RESPONSE_TYPE = ''unsupported_response_type''"

definition all_errors :: "oauth_error list" where
  "all_errors = [ACCESS_DENIED, INVALID_CLIENT, INVALID_GRANT, INVALID_REQUEST, INVALID_SCOPE,
     INVALID_STATE, INVALID_RESPONSE, SERVER_ERROR, TEMPORARILY_UNAVAILABLE, UNAUTHORIZED_CLIENT,
     UNSUPPORTED_GRANT_TYPE, UNSUPPORTED_RESPONSE_TYPE]"

text \<open>\<open>code in OAuthError\<close> and \<open>OAuthError(code)\<close>: lookup among the member values.\<close>

definition error_of_value :: "string \<Rightarrow> oauth_error option" where
  "error_of_value s = List.find (\<lambda>e. error_value e = s) all_errors"

fun descriptions :: "oauth_error \<Rightarrow> string option" where
  "descriptions INVALID_REQUEST = Some (''The request is missing a required parameter, includes an invalid ''
     @ ''parameter value, includes a parameter more than once, or is '' @ ''otherwise malformed.'')"
| "descriptions INVALID_CLIENT = Some (''Client authentication failed (e.g., unknown client, no client ''
     @ ''authentication included, or unsupported authentication method).'')"
| "descriptions INVALID_GRANT = Some (''The provided authorization grant or refresh token is invalid, ''
     @ ''expired or revoked.'')"
| "descriptions UNAUTHORIZED_CLIENT = Some ''The client is not authorized to perform this action.''"
| "descriptions ACCESS_DENIED = Some ''The resource owner or authorization server denied the request.''"
| "descriptions UNSUPPORTED_RESPONSE_TYPE = Some (''The authorization server does not support obtaining an authorization ''
     @ ''code using this method.'')"
| "descriptions UNSUPPORTED_GRANT_TYPE = Some ''The authorization grant type is not supported by the authorization server.''"
| "descriptions INVALID_SCOPE = Some ''The requested scope is invalid, unknown, or malformed.''"
| "descriptions SERVER_ERROR = Some (''The server encountered an unexpected condition that prevented it ''
     @ ''from fulfilling the request.'')"
| "descriptions TEMPORARILY_UNAVAILABLE = Some (''The server is currently unable to handle the request due to a ''
     @ ''temporary overloading or maintenance of the server.'')"
| "descriptions _ = None"

definition error_description :: "oauth_error \<Rightarrow> string res" where
  "error_description e = (case descriptions e of None \<Rightarrow> Inl KeyError | Some d \<Rightarrow> Inr d)"

text \<open>
  \<open>description or self.description\<close>: the property is only read when the given description is
  false, so a given description also hides a missing table entry.
\<close>

definition or_description :: "json \<Rightarrow> oauth_error \<Rightarrow> json res" where
  "or_description given e =
     (if truthy given then Inr given else bindR (error_description e) (\<lambda>d. Inr (JStr d)))"

definition error_json :: "oauth_error \<Rightarrow> json \<Rightarrow> json res" where
  "error_json e given = bindR (or_description given e) (\<lambda>d.
     Inr (JObj [(''error'', JStr (error_value e)), (''error_description'', d)]))"

lemma set_all_errors: "set all_errors = UNIV"
proof -
  have "e \<in> set all_errors" for e by (cases e) (simp_all add: all_errors_def)
  then show ?thesis by blast
qed

lemma error_value_inj: "error_value a = error_value b \<Longrightarrow> a = b"
  by (cases a; cases b) simp_all

lemma error_of_value_Some: "error_of_value s = Some e \<Longrightarrow> error_value e = s"
  by (auto simp: error_of_value_def find_Some_iff)

lemma error_of_value_value [simp]: "error_of_value (error_value e) = Some e"
proof -
  have "\<exists>x. error_of_value (error_value e) = Some x"
    using set_all_errors by (auto simp: error_of_value_def find_None_iff not_None_eq [symmetric])
  then show ?thesis using error_of_value_Some error_value_inj by blast
qed

lemma error_of_value_literals [simp]:
  "error_of_value ''invalid_grant'' = Some INVALID_GRANT"
  "error_of_value ''invalid_client'' = Some INVALID_CLIENT"
  "error_of_value ''temporarily_unavailable'' = Some TEMPORARILY_UNAVAILABLE"
  "error_of_value ''server_error'' = Some SERVER_ERROR"
  "error_of_value ''invalid_request'' = Some INVALID_REQUEST"
  by (simp_all add: error_of_value_def all_errors_def)

lemma error_description_cases:
  "(\<exists>d. error_description e = Inr d \<and> d \<noteq> []) \<or> error_description e = Inl KeyError"
  by (cases e) (simp_all add: error_description_def)

lemma error_json_obj: "error_json e given = Inr v \<Longrightarrow> \<exists>d. v = JObj [(''error'', JStr (error_value e)), (''error_description'', d)]"
  by (auto simp: error_json_def bindR_eq_Inr)

section \<open>HTTP status codes\<close>

text \<open>
  \<open>HTTPStatus(code)\<close> accepts the registered codes only and raises \<open>ValueError\<close> on any other.
\<close>

type_synonym http_status = nat

definition status_codes :: "nat list" where
  "status_codes = [100 ..< 104] @ [200 ..< 209] @ [226] @ [300 ..< 306] @ [307, 308]
     @ [400 ..< 419] @ [421 ..< 427] @ [428, 429, 431, 451] @ [500 ..< 509] @ [510, 511]"

definition HTTPStatus :: "int \<Rightarrow> http_status res" where
  "HTTPStatus c = (if 0 \<le> c \<and> nat c \<in> set status_codes then Inr (nat c) else Inl ValueError)"

definition is_success :: "http_status \<Rightarrow> bool" where
  "is_success s \<longleftrightarrow> 200 \<le> s \<and> s \<le> 299"

definition is_redirection :: "http_status \<Rightarrow> bool" where
  "is_redirection s \<longleftrightarrow> 300 \<le> s \<and> s \<le> 399"

definition is_client_error :: "http_status \<Rightarrow> bool" where
  "is_client_error s \<longleftrightarrow> 400 \<le> s \<and> s \<le> 499"

definition is_server_error :: "http_status \<Rightarrow> bool" where
  "is_server_error s \<longleftrightarrow> 500 \<le> s \<and> s \<le> 599"

lemma HTTPStatus_Inr: "HTTPStatus c = Inr s \<Longrightarrow> int s = c \<and> s \<in> set status_codes"
  by (auto simp: HTTPStatus_def split: if_splits)

section \<open>Properties\<close>

text \<open>
  The wire value of an error code identifies it: \<open>OAuthError(e.value)\<close> is \<open>e\<close>, and a text
  that is accepted as a member is that member's value.
\<close>
theorem error_of_value_roundtrip:
  "error_of_value (error_value e) = Some e \<and> (error_of_value s = Some e \<longleftrightarrow> s = error_value e)"
  by (auto dest: error_of_value_Some)

text \<open>
  Exactly \<open>INVALID_STATE\<close> and \<open>INVALID_RESPONSE\<close> have no description: for them the property
  raises \<open>KeyError\<close>; for every other code it is a non-empty text.
\<close>
theorem description_total_iff:
  "error_description e = Inl KeyError \<longleftrightarrow> e = INVALID_STATE \<or> e = INVALID_RESPONSE"
  by (cases e) (simp_all add: error_description_def)

end
