(* ===== verification/Retry_Budget.thy ===== *)
theory Retry_Budget
  imports Oauth_Errors
begin

text \<open>
  \<open>utils/bucket.py\<close> and \<open>oauth/_retry.py\<close>: the bounded token bucket that limits retries, the
  process-wide cache that hands it out, and the vocabulary of retry decisions.

  Each bucket operation runs under the bucket's lock, so concurrent callers produce some sequence
  of whole operations; \<open>run_budget\<close> runs such a sequence.  The locale \<open>retry_limiter\<close> is the
  interface the fetch loop uses (the tests substitute another limiter for the bucket).
\<close>

section \<open>The bucket\<close>

record bucket =
  capacity :: int
  refill_amount :: rat
  tokens :: rat

definition new_bucket :: "int \<Rightarrow> rat \<Rightarrow> bucket" where
  "new_bucket c r = \<lparr> capacity = c, refill_amount = r, tokens = of_int c \<rparr>"

definition bucket_add :: "rat \<Rightarrow> bucket \<Rightarrow> bucket" where
  "bucket_add t b = b\<lparr>tokens := min (of_int (capacity b)) (tokens b + t)\<rparr>"

definition bucket_consume :: "rat \<Rightarrow> bucket \<Rightarrow> bool \<times> bucket" where
  "bucket_consume t b =
     (if tokens b < t then (False, b) else (True, b\<lparr>tokens := tokens b - t\<rparr>))"

definition bucket_ok :: "bucket \<Rightarrow> bool" where
  "bucket_ok b \<longleftrightarrow> 0 \<le> tokens b \<and> tokens b \<le> of_int (capacity b)"

lemma bucket_ok_new: "0 \<le> c \<Longrightarrow> bucket_ok (new_bucket c r)"
  by (simp add: bucket_ok_def new_bucket_def)

lemma bucket_ok_add: "bucket_ok b \<Longrightarrow> 0 \<le> t \<Longrightarrow> bucket_ok (bucket_add t b)"
  by (auto simp: bucket_ok_def bucket_add_def min_def)

lemma bucket_ok_consume: "bucket_ok b \<Longrightarrow> 0 \<le> t \<Longrightarrow> bucket_ok (snd (bucket_consume t b))"
  by (auto simp: bucket_ok_def bucket_consume_def)

lemma bucket_frame [simp]:
  "capacity (bucket_add t b) = capacity b"
  "capacity (snd (bucket_consume t b)) = capacity b"
  "refill_amount (bucket_add t b) = refill_amount b"
  "refill_amount (snd (bucket_consume t b)) = refill_amount b"
  by (simp_all add: bucket_add_def bucket_consume_def)

section \<open>Sequences of operations\<close>

datatype budget_op = BAdd rat | BConsume rat

text \<open>
  The tokens granted by a sequence of operations on any limiter given by its two operations.
\<close>

fun run_budget ::
    "(rat \<Rightarrow> 'b \<Rightarrow> 'b) \<Rightarrow> (rat \<Rightarrow> 'b \<Rightarrow> bool \<times> 'b) \<Rightarrow> budget_op list \<Rightarrow> 'b \<Rightarrow> rat \<times> 'b" where
  "run_budget addb consumeb [] b = (0, b)"
| "run_budget addb consumeb (BAdd t # ops) b = run_budget addb consumeb ops (addb t b)"
| "run_budget addb consumeb (BConsume t # ops) b =
     (case consumeb t b of (granted, b') \<Rightarrow>
        (case run_budget addb consumeb ops b' of (g, b'') \<Rightarrow>
           ((if granted then t else 0) + g, b'')))"

fun added :: "budget_op list \<Rightarrow> rat" where
  "added [] = 0"
| "added (BAdd t # ops) = t + added ops"
| "added (BConsume t # ops) = added ops"

fun op_nonneg :: "budget_op \<Rightarrow> bool" where
  "op_nonneg (BAdd t) = (0 \<le> t)"
| "op_nonneg (BConsume t) = (0 \<le> t)"

lemma run_budget_consume:
  "fst (run_budget addb consumeb (BConsume t # ops) b) =
     (if fst (consumeb t b) then t else 0) + fst (run_budget addb consumeb ops (snd (consumeb t b)))"
  "snd (run_budget addb consumeb (BConsume t # ops) b) =
     snd (run_budget addb consumeb ops (snd (consumeb t b)))"
  by (simp_all split: prod.splits)

declare run_budget.simps(3) [simp del]

locale retry_limiter =
  fixes addb :: "rat \<Rightarrow> 'b \<Rightarrow> 'b"
    and consumeb :: "rat \<Rightarrow> 'b \<Rightarrow> bool \<times> 'b"
    and level :: "'b \<Rightarrow> rat"
    and bound :: "'b \<Rightarrow> rat"
    and ok :: "'b \<Rightarrow> bool"
  assumes ok_add: "ok b \<Longrightarrow> 0 \<le> t \<Longrightarrow> ok (addb t b)"
    and ok_consume: "ok b \<Longrightarrow> 0 \<le> t \<Longrightarrow> ok (snd (consumeb t b))"
    and ok_level: "ok b \<Longrightarrow> 0 \<le> level b \<and> level b \<le> bound b"
    and bound_add: "bound (addb t b) = bound b"
    and bound_consume: "bound (snd (consumeb t b)) = bound b"
    and level_add: "level (addb t b) \<le> level b + t"
    and consume_granted: "consumeb t b = (True, b') \<Longrightarrow> level b' = level b - t"
    and consume_refused: "consumeb t b = (False, b') \<Longrightarrow> b' = b \<and> level b < t"
begin

lemma run_ok: "ok b \<Longrightarrow> list_all op_nonneg ops \<Longrightarrow> ok (snd (run_budget addb consumeb ops b))"
proof (induction ops arbitrary: b)
  case (Cons x xs)
  then show ?case by (cases x) (simp_all add: run_budget_consume ok_add ok_consume)
qed simp

end

text \<open>The two lemmas of the interface about whole sequences.\<close>

context retry_limiter
begin

lemma run_bound: "bound (snd (run_budget addb consumeb ops b)) = bound b"
proof (induction ops arbitrary: b)
  case (Cons x xs)
  then show ?case by (cases x) (simp_all add: run_budget_consume bound_add bound_consume)
qed simp

lemma level_consume:
  "(if fst (consumeb t b) then t else 0) + level (snd (consumeb t b)) = level b"
  using consume_granted [of t b] consume_refused [of t b]
  by (cases "consumeb t b"; cases "fst (consumeb t b)") auto

lemma run_conservation:
  "fst (run_budget addb consumeb ops b) + level (snd (run_budget addb consumeb ops b))
   \<le> level b + added ops"
proof (induction ops arbitrary: b)
  case (Cons x xs)
  show ?case
  proof (cases x)
    case (BAdd t)
    with Cons [of "addb t b"] level_add [of t b] show ?thesis by simp
  next
    case (BConsume t)
    with Cons [of "snd (consumeb t b)"] level_consume [of t b] show ?thesis
      unfolding BConsume run_budget_consume by simp
  qed
qed simp

lemma granted_bound:
  assumes "ok b" and "list_all op_nonneg ops"
  shows "fst (run_budget addb consumeb ops b) \<le> bound b + added ops"
  using run_conservation [of ops b] ok_level [OF run_ok [OF assms]] ok_level [OF assms(1)]
  by linarith

end

interpretation bucket_limiter:
  retry_limiter bucket_add bucket_consume tokens "\<lambda>b. of_int (capacity b)" bucket_ok
  by unfold_locales
    (auto simp: bucket_ok_add bucket_ok_consume bucket_ok_def bucket_consume_def bucket_add_def
      split: if_splits)

section \<open>Retry vocabulary\<close>

datatype retry_attempt_kind = AK_INITIAL | AK_RETRY

datatype retry_decision_action = DA_RETRY | DA_SKIP

datatype retry_reason = UNAVAILABLE | RESOURCE_EXHAUSTED | DEADLINE_EXCEEDED | UNKNOWN_REASON

fun attempt_kind_value :: "retry_attempt_kind \<Rightarrow> string" where
  "attempt_kind_value AK_INITIAL = ''initial''"
| "attempt_kind_value AK_RETRY = ''retry''"

fun retry_action_value :: "retry_decision_action \<Rightarrow> string" where
  "retry_action_value DA_RETRY = ''retry''"
| "retry_action_value DA_SKIP = ''skip''"

fun retry_reason_value :: "retry_reason \<Rightarrow> string" where
  "retry_reason_value UNAVAILABLE = ''unavailable''"
| "retry_reason_value RESOURCE_EXHAUSTED = ''resource_exhausted''"
| "retry_reason_value DEADLINE_EXCEEDED = ''deadline_exceeded''"
| "retry_reason_value UNKNOWN_REASON = ''unknown''"

record retry_decision =
  rd_action :: retry_decision_action
  rd_reason :: retry_reason

definition retry_reason_for_status :: "http_status \<Rightarrow> retry_reason" where
  "retry_reason_for_status s =
     (if s = 429 then RESOURCE_EXHAUSTED
      else if s \<in> {502, 503, 504} then UNAVAILABLE
      else UNKNOWN_REASON)"

section \<open>The process-wide limiter cache\<close>

text \<open>
  \<open>get_retry_limiter\<close> is wrapped in \<open>functools.lru_cache()\<close> with its default of 128 entries.  The
  buckets are mutable objects shared by their callers, so they live in a store addressed by
  position; the cache maps the arguments to an address, the most recently used entry first.
\<close>

record limiters =
  store :: "bucket list"
  lru :: "((int \<times> rat) \<times> nat) list"

definition no_limiters :: limiters where
  "no_limiters = \<lparr> store = [], lru = [] \<rparr>"

definition get_retry_limiter :: "int \<Rightarrow> rat \<Rightarrow> limiters \<Rightarrow> nat \<times> limiters" where
  "get_retry_limiter c r h = (case map_of (lru h) (c, r) of
     Some a \<Rightarrow> (a, h\<lparr>lru := ((c, r), a) # filter (\<lambda>(k, _). k \<noteq> (c, r)) (lru h)\<rparr>)
   | None \<Rightarrow> (length (store h),
       \<lparr> store = store h @ [new_bucket c r],
         lru = take 128 (((c, r), length (store h)) # lru h) \<rparr>))"

definition limiter_add :: "nat \<Rightarrow> rat \<Rightarrow> limiters \<Rightarrow> limiters" where
  "limiter_add a t h = h\<lparr>store := (store h)[a := bucket_add t (store h ! a)]\<rparr>"

definition limiter_consume :: "nat \<Rightarrow> rat \<Rightarrow> limiters \<Rightarrow> bool \<times> limiters" where
  "limiter_consume a t h =
     (case bucket_consume t (store h ! a) of (g, b) \<Rightarrow> (g, h\<lparr>store := (store h)[a := b]\<rparr>))"

text \<open>
  Every cached address is allocated, its bucket was made for the arguments it is cached under,
  and every bucket is within its bounds.
\<close>

definition limiters_ok :: "limiters \<Rightarrow> bool" where
  "limiters_ok h \<longleftrightarrow>
     (\<forall>((c, r), a) \<in> set (lru h). a < length (store h) \<and> capacity (store h ! a) = c
        \<and> refill_amount (store h ! a) = r)
     \<and> (\<forall>b \<in> set (store h). 0 \<le> capacity b \<longrightarrow> bucket_ok b)"

lemma limiters_okD:
  "limiters_ok h \<Longrightarrow> map_of (lru h) (c, r) = Some a
   \<Longrightarrow> a < length (store h) \<and> capacity (store h ! a) = c \<and> refill_amount (store h ! a) = r"
  by (auto simp: limiters_ok_def dest!: map_of_SomeD)

lemma limiters_ok_empty: "limiters_ok no_limiters"
  by (simp add: limiters_ok_def no_limiters_def)

lemma get_retry_limiter_ok:
  assumes "limiters_ok h" and "get_retry_limiter c r h = (a, h')"
  shows "limiters_ok h' \<and> a < length (store h') \<and> capacity (store h' ! a) = c"
proof (cases "map_of (lru h) (c, r)")
  case None
  then have h': "h' = \<lparr> store = store h @ [new_bucket c r],
      lru = take 128 (((c, r), length (store h)) # lru h) \<rparr>" and a: "a = length (store h)"
    using assms(2) by (auto simp: get_retry_limiter_def)
  have lru: "x \<in> set (lru h') \<Longrightarrow> x = ((c, r), length (store h)) \<or> x \<in> set (lru h)" for x
    using h' set_take_subset [of 128 "((c, r), length (store h)) # lru h"] by auto
  have "a' < length (store h') \<and> capacity (store h' ! a') = c' \<and> refill_amount (store h' ! a') = r'"
    if "((c', r'), a') \<in> set (lru h')" for c' r' a'
    using lru [OF that] assms(1) unfolding limiters_ok_def h'
    by (fastforce simp: nth_append new_bucket_def)
  moreover have "\<forall>b \<in> set (store h'). 0 \<le> capacity b \<longrightarrow> bucket_ok b"
    using assms(1) by (auto simp: h' limiters_ok_def new_bucket_def bucket_ok_def)
  ultimately show ?thesis
    by (auto simp: limiters_ok_def a h' new_bucket_def)
next
  case (Some a')
  with assms limiters_okD [OF assms(1) Some] show ?thesis
    by (auto simp: get_retry_limiter_def limiters_ok_def)
qed

lemma limiters_ok_store_update:
  assumes ok: "limiters_ok h" and a: "a < length (store h)"
    and frame: "capacity b = capacity (store h ! a)" "refill_amount b = refill_amount (store h ! a)"
    and keep: "bucket_ok (store h ! a) \<Longrightarrow> bucket_ok b"
  shows "limiters_ok (h\<lparr>store := (store h)[a := b]\<rparr>)"
proof -
  let ?s = "(store h)[a := b]"
  have cached: "a' < length ?s \<and> capacity (?s ! a') = c \<and> refill_amount (?s ! a') = r"
    if "((c, r), a') \<in> set (lru h)" for c r a'
  proof -
    have "a' < length (store h) \<and> capacity (store h ! a') = c \<and> refill_amount (store h ! a') = r"
      using ok that by (auto simp: limiters_ok_def)
    then show ?thesis using a frame by (cases "a' = a") simp_all
  qed
  have "bucket_ok x" if "x \<in> set ?s" "0 \<le> capacity x" for x
  proof (cases "x = b")
    case True
    have "store h ! a \<in> set (store h)" using a by simp
    with ok that frame True keep show ?thesis by (auto simp: limiters_ok_def)
  next
    case False
    with that set_update_subset_insert [of "store h" a b] have "x \<in> set (store h)" by blast
    with ok that show ?thesis by (auto simp: limiters_ok_def)
  qed
  with cached show ?thesis by (auto simp: limiters_ok_def)
qed

lemma limiter_add_ok:
  "limiters_ok h \<Longrightarrow> a < length (store h) \<Longrightarrow> 0 \<le> t \<Longrightarrow> limiters_ok (limiter_add a t h)"
  unfolding limiter_add_def
  by (rule limiters_ok_store_update) (auto simp: bucket_ok_add)

lemma limiter_consume_run:
  "limiter_consume a t h = (fst (bucket_consume t (store h ! a)),
     h\<lparr>store := (store h)[a := snd (bucket_consume t (store h ! a))]\<rparr>)"
  by (simp add: limiter_consume_def split: prod.splits)

lemma limiter_consume_ok:
  "limiters_ok h \<Longrightarrow> a < length (store h) \<Longrightarrow> 0 \<le> t
   \<Longrightarrow> limiters_ok (snd (limiter_consume a t h))"
  unfolding limiter_consume_run snd_conv
  by (rule limiters_ok_store_update) (simp_all add: bucket_ok_consume)

lemma limiter_length [simp]:
  "length (store (limiter_add a t h)) = length (store h)"
  "length (store (snd (limiter_consume a t h))) = length (store h)"
  by (simp_all add: limiter_add_def limiter_consume_def split: prod.splits)

section \<open>Properties\<close>

text \<open>
  C26. Retry amplification is bounded: whatever way any number of concurrent fetches interleave
  their operations on a bucket, the retries it admits do not exceed the tokens it can hold plus
  the tokens added, and it always holds between zero and its capacity.
\<close>
theorem budget_bounds_retries:
  assumes "bucket_ok b" and "list_all op_nonneg ops"
  shows "fst (run_budget bucket_add bucket_consume ops b) \<le> of_int (capacity b) + added ops
    \<and> bucket_ok (snd (run_budget bucket_add bucket_consume ops b))"
  using bucket_limiter.granted_bound [OF assms] bucket_limiter.run_ok [OF assms] by simp

theorem budget_bounds_retries_witness:
  "fst (run_budget bucket_add bucket_consume [BAdd (1/4), BConsume 1, BConsume 1] (new_bucket 1 (1/4)))
     \<le> 1 + (1/4 :: rat)
   \<and> run_budget bucket_add bucket_consume [BAdd (1/4), BConsume 1, BConsume 1] (new_bucket 1 (1/4))
     = (1, \<lparr> capacity = 1, refill_amount = 1/4, tokens = 0 \<rparr>)"
proof -
  have ok: "bucket_ok (new_bucket 1 (1/4))" by (simp add: bucket_ok_new)
  show ?thesis
    using budget_bounds_retries [OF ok, of "[BAdd (1/4), BConsume 1, BConsume 1]"]
    by (simp add: new_bucket_def bucket_add_def bucket_consume_def run_budget.simps(3))
qed

text \<open>
  The limiter is process-wide: asking again with the same settings yields the same bucket with
  whatever it holds by then, and asking with other settings yields another one.
\<close>
theorem retry_limiter_cached:
  assumes "get_retry_limiter c r h = (a, h1)" and "lru h2 = lru h1"
    and "length (store h1) \<le> length (store h2)" and "limiters_ok h2"
    and "get_retry_limiter c' r' h2 = (a', h3)"
  shows "(a' = a \<longleftrightarrow> (c', r') = (c, r)) \<and> ((c', r') = (c, r) \<longrightarrow> store h3 = store h2)"
proof -
  have hit: "map_of (lru h2) (c, r) = Some a"
    using assms(1,2) by (auto simp: get_retry_limiter_def split: option.splits)
  have a: "a < length (store h2)" "capacity (store h2 ! a) = c" "refill_amount (store h2 ! a) = r"
    using limiters_okD [OF assms(4) hit] by auto
  have "a' \<noteq> a" if "(c', r') \<noteq> (c, r)"
    using assms(5) a limiters_okD [OF assms(4), of c' r' a'] that
    by (auto simp: get_retry_limiter_def split: option.splits)
  moreover have "a' = a \<and> store h3 = store h2" if "(c', r') = (c, r)"
    using hit assms(5) that by (auto simp: get_retry_limiter_def)
  ultimately show ?thesis by blast
qed

theorem retry_limiter_cached_witness:
  "let (a, h1) = get_retry_limiter 8 (1/4) no_limiters;
       h2 = snd (limiter_consume a 1 h1);
       (a', h3) = get_retry_limiter 8 (1/4) h2
   in a' = a \<and> store h3 = store h2 \<and> tokens (store h3 ! a') = 7"
proof -
  let ?h1 = "\<lparr> store = [new_bucket 8 (1/4)], lru = [((8, 1/4), 0)] \<rparr>"
  let ?h2 = "snd (limiter_consume 0 1 ?h1)"
  have g1: "get_retry_limiter 8 (1/4) no_limiters = (0, ?h1)"
    by (simp add: get_retry_limiter_def no_limiters_def)
  have h2: "?h2 = \<lparr> store = [\<lparr> capacity = 8, refill_amount = 1/4, tokens = 7 \<rparr>], lru = lru ?h1 \<rparr>"
    by (simp add: limiter_consume_run bucket_consume_def new_bucket_def)
  have ok: "limiters_ok ?h2" by (simp add: h2 limiters_ok_def bucket_ok_def)
  have g2: "get_retry_limiter 8 (1/4) ?h2 = (0, ?h2)"
    by (simp add: h2 get_retry_limiter_def)
  have "store ?h2 = store ?h2 \<and> (0::nat) = 0"
    using retry_limiter_cached [OF g1 _ _ ok g2] by (simp add: h2)
  then show ?thesis by (simp add: g1 g2) (simp add: h2)
qed

end
