(* ===== verification/Token_Outcome.thy ===== *)
theory Token_Outcome
  imports Retry_Budget
begin

text \<open>
  \<open>oauth/_outcome.py\<close>: how a response of the provider's token endpoint is classified: retryable or
  not, which OAuth error it means, and whether it proves that the stored refresh token is dead.

  The response body is a JSON value of unknown shape, so every access may raise.
\<close>

section \<open>Error sets and outcomes\<close>

definition AUTHORIZATION_ERRORS :: "oauth_error list" where
  "AUTHORIZATION_ERRORS = [INVALID_REQUEST, UNAUTHORIZED_CLIENT, ACCESS_DENIED,
     UNSUPPORTED_RESPONSE_TYPE, INVALID_SCOPE, SERVER_ERROR, TEMPORARILY_UNAVAILABLE]"

definition TOKEN_ERRORS :: "oauth_error list" where
  "TOKEN_ERRORS = [INVALID_REQUEST, INVALID_CLIENT, INVALID_GRANT, UNAUTHORIZED_CLIENT,
     UNSUPPORTED_GRANT_TYPE, INVALID_SCOPE, SERVER_ERROR, TEMPORARILY_UNAVAILABLE]"

record token_endpoint_outcome =
  retryable :: bool
  normalized_error :: "oauth_error option"
  invalidate_refresh_token :: bool
  retry_reason_of :: "retry_reason option"

datatype upstream_result = UR_SUCCESS | UR_CLIENT_ERROR | UR_SERVER_ERROR | UR_RATE_LIMITED
  | UR_TIMEOUT | UR_UNKNOWN

fun upstream_result_value :: "upstream_result \<Rightarrow> string" where
  "upstream_result_value UR_SUCCESS = ''success''"
| "upstream_result_value UR_CLIENT_ERROR = ''client_error''"
| "upstream_result_value UR_SERVER_ERROR = ''server_error''"
| "upstream_result_value UR_RATE_LIMITED = ''rate_limited''"
| "upstream_result_value UR_TIMEOUT = ''timeout''"
| "upstream_result_value UR_UNKNOWN = ''unknown''"

definition upstream_result_for_status :: "http_status \<Rightarrow> upstream_result" where
  "upstream_result_for_status s =
     (if is_success s then UR_SUCCESS
      else if is_redirection s then UR_CLIENT_ERROR
      else if s = 429 then UR_RATE_LIMITED
      else if is_client_error s then UR_CLIENT_ERROR
      else if is_server_error s then UR_SERVER_ERROR
      else UR_UNKNOWN)"

section \<open>Error normalisation\<close>

text \<open>
  The code to normalise comes from the provider's JSON.  A list or an object cannot be looked up
  in a dictionary (\<open>TypeError\<close>); any other value that is not a text is not a key and not a member.
\<close>

definition normalize_error ::
    "json \<Rightarrow> oauth_error list \<Rightarrow> oauth_error \<Rightarrow> (string \<times> oauth_error) list \<Rightarrow> oauth_error res" where
  "normalize_error error_code allowed_types fallback_type error_types =
     (case error_code of
        JArr _ \<Rightarrow> Inl TypeError
      | JObj _ \<Rightarrow> Inl TypeError
      | JStr s \<Rightarrow>
          (let e = (case map_of error_types s of
                      Some x \<Rightarrow> x
                    | None \<Rightarrow> (case error_of_value s of Some x \<Rightarrow> x | None \<Rightarrow> fallback_type))
           in Inr (if e \<notin> set allowed_types then fallback_type else e))
      | _ \<Rightarrow> Inr fallback_type)"

definition validate_token :: "json \<Rightarrow> bool res" where
  "validate_token token = bindR (py_get token ''access_token'' JNull) (\<lambda>a.
     if truthy a then bindR (py_get token ''token_type'' JNull) (\<lambda>t. Inr (truthy t))
     else Inr False)"

lemma normalize_error_str:
  "normalize_error (JStr s) allowed fb types = Inr e \<Longrightarrow> e = fb \<or> e \<in> set allowed"
  by (auto simp: normalize_error_def Let_def split: if_splits)

lemma normalize_error_allowed:
  "normalize_error v allowed fb types = Inr e \<Longrightarrow> e = fb \<or> e \<in> set allowed"
  by (cases v) (auto simp: normalize_error_def Let_def split: if_splits)

lemma normalize_error_str_total: "\<exists>e. normalize_error (JStr s) allowed fb types = Inr e"
  by (simp add: normalize_error_def Let_def)

lemma validate_token_obj:
  "validate_token (JObj d) = Inr ((case map_of d ''access_token'' of None \<Rightarrow> False | Some a \<Rightarrow> truthy a)
     \<and> (case map_of d ''token_type'' of None \<Rightarrow> False | Some t \<Rightarrow> truthy t))"
  by (auto simp: validate_token_def split: option.splits)

lemma validate_token_not_obj: "\<not> is_obj v \<Longrightarrow> validate_token v = Inl AttributeError"
  by (simp add: validate_token_def py_get_not_obj)

section \<open>Classification\<close>

definition unexpected_token_endpoint_issue ::
    "http_status option \<Rightarrow> json \<Rightarrow> http_status list \<Rightarrow> string option res" where
  "unexpected_token_endpoint_issue status result retry_status_codes =
     (case status of
        None \<Rightarrow> Inr (Some ''transport_failure'')
      | Some s \<Rightarrow>
          if s \<in> set retry_status_codes then
            bindR (py_get result ''error'' JNull) (\<lambda>e.
              case e of
                JArr _ \<Rightarrow> Inl TypeError
              | JObj _ \<Rightarrow> Inl TypeError
              | _ \<Rightarrow>
                if e \<noteq> JNull \<and> e \<noteq> JStr (error_value TEMPORARILY_UNAVAILABLE)
                then Inr (Some ''retryable_status_with_contradictory_oauth_error'')
                else bindR (validate_token result) (\<lambda>ok.
                  Inr (if ok then Some ''retryable_status_with_success_payload'' else None)))
          else if is_success s then
            bindR (validate_token result) (\<lambda>ok.
              Inr (if \<not> ok then Some ''success_status_with_error_payload'' else None))
          else Inr None)"

text \<open>The classification proper; \<open>status\<close> is absent when no response was received.\<close>

definition classify ::
    "http_status option \<Rightarrow> json \<Rightarrow> http_status list \<Rightarrow> (string \<times> oauth_error) list
     \<Rightarrow> token_endpoint_outcome res" where
  "classify status result retry_status_codes error_types =
     (case status of
        None \<Rightarrow> Inr \<lparr> retryable = True, normalized_error = Some TEMPORARILY_UNAVAILABLE,
                    invalidate_refresh_token = False, retry_reason_of = Some UNAVAILABLE \<rparr>
      | Some s \<Rightarrow>
          if s \<in> set retry_status_codes then
            Inr \<lparr> retryable = True, normalized_error = Some TEMPORARILY_UNAVAILABLE,
                  invalidate_refresh_token = False,
                  retry_reason_of = Some (retry_reason_for_status s) \<rparr>
          else if is_success s then
            bindR (validate_token result) (\<lambda>valid.
              if valid then
                Inr \<lparr> retryable = False, normalized_error = None,
                      invalidate_refresh_token = False, retry_reason_of = None \<rparr>
              else
                bindR (py_get result ''error'' (JStr (error_value INVALID_REQUEST))) (\<lambda>e.
                bindR (normalize_error (JStr (py_str e)) TOKEN_ERRORS INVALID_REQUEST error_types) (\<lambda>n.
                  Inr \<lparr> retryable = False, normalized_error = Some n,
                        invalidate_refresh_token = False, retry_reason_of = None \<rparr>)))
          else
            bindR (py_in ''error'' result) (\<lambda>has_error.
            bindR (if has_error
                   then bindR (py_item result ''error'') (\<lambda>e.
                          bindR (normalize_error (JStr (py_str e)) TOKEN_ERRORS SERVER_ERROR error_types)
                            (\<lambda>n. Inr (Some n)))
                   else Inr None) (\<lambda>norm.
              Inr \<lparr> retryable = False, normalized_error = norm,
                    invalidate_refresh_token = (s = 400 \<and> norm = Some INVALID_GRANT),
                    retry_reason_of = None \<rparr>)))"

text \<open>
  \<open>token_endpoint_outcome\<close>: with a logger the unexpected cases are looked for first (and warned
  about by the caller's logger: the issue is returned beside the outcome).
\<close>

definition token_endpoint_outcome ::
    "bool \<Rightarrow> http_status option \<Rightarrow> json \<Rightarrow> http_status list \<Rightarrow> (string \<times> oauth_error) list
     \<Rightarrow> (string option \<times> token_endpoint_outcome) res" where
  "token_endpoint_outcome has_logger status result retry_status_codes error_types =
     bindR (if has_logger then unexpected_token_endpoint_issue status result retry_status_codes
            else Inr None) (\<lambda>issue.
     bindR (classify status result retry_status_codes error_types) (\<lambda>outcome.
       Inr (issue, outcome)))"

lemma classify_retryable_iff:
  "classify status result codes types = Inr oc
   \<Longrightarrow> retryable oc \<longleftrightarrow> (case status of None \<Rightarrow> True | Some s \<Rightarrow> s \<in> set codes)"
  by (auto simp: classify_def bindR_eq_Inr split: option.splits if_splits)

lemma classify_retryable:
  "classify status result codes types = Inr oc \<Longrightarrow> retryable oc
   \<Longrightarrow> normalized_error oc = Some TEMPORARILY_UNAVAILABLE \<and> \<not> invalidate_refresh_token oc
     \<and> (\<exists>r. retry_reason_of oc = Some r)"
  by (auto simp: classify_def bindR_eq_Inr split: option.splits if_splits)

lemma normalize_invalid_grant:
  "normalize_error (JStr s) TOKEN_ERRORS SERVER_ERROR types = Inr n
   \<Longrightarrow> n = INVALID_GRANT \<longleftrightarrow>
     map_of types s = Some INVALID_GRANT \<or> map_of types s = None \<and> s = error_value INVALID_GRANT"
  by (auto simp: normalize_error_def Let_def TOKEN_ERRORS_def split: option.splits if_splits
      dest: error_of_value_Some)

text \<open>
  The error texts that mean \<open>invalid_grant\<close>: those configured to, and the standard one unless it
  is configured to mean something else.
\<close>

definition means_invalid_grant :: "(string \<times> oauth_error) list \<Rightarrow> json \<Rightarrow> bool" where
  "means_invalid_grant types e \<longleftrightarrow>
     map_of types (py_str e) = Some INVALID_GRANT
     \<or> map_of types (py_str e) = None \<and> py_str e = error_value INVALID_GRANT"

lemma classify_invalidate:
  assumes "classify status result codes types = Inr oc"
  shows "invalidate_refresh_token oc \<longleftrightarrow> status = Some 400 \<and> 400 \<notin> set codes
    \<and> (\<exists>d e. result = JObj d \<and> map_of d ''error'' = Some e \<and> means_invalid_grant types e)"
proof (cases status)
  case None
  with assms show ?thesis by (auto simp: classify_def)
next
  case (Some s)
  show ?thesis
  proof (cases "s \<in> set codes \<or> is_success s")
    case True
    with assms Some show ?thesis
      by (auto simp: classify_def bindR_eq_Inr is_success_def split: if_splits)
  next
    case False
    with assms Some obtain b norm where b: "py_in ''error'' result = Inr b"
      and norm: "(if b then bindR (py_item result ''error'') (\<lambda>e.
            bindR (normalize_error (JStr (py_str e)) TOKEN_ERRORS SERVER_ERROR types) (\<lambda>n. Inr (Some n)))
          else Inr None) = Inr norm"
      and inv: "invalidate_refresh_token oc \<longleftrightarrow> s = 400 \<and> norm = Some INVALID_GRANT"
      by (auto simp: classify_def bindR_eq_Inr)
    have "norm = Some INVALID_GRANT \<longleftrightarrow>
        (\<exists>d e. result = JObj d \<and> map_of d ''error'' = Some e \<and> means_invalid_grant types e)"
      using b norm
      by (cases result) (auto simp: bindR_eq_Inr means_invalid_grant_def py_in_def
          py_item_def dict_has_def split: if_splits option.splits dest!: normalize_invalid_grant)
    with inv Some False show ?thesis by auto
  qed
qed

section \<open>Properties\<close>

text \<open>
  C25. A response invalidates the stored refresh token exactly when its status is 400, 400 is not
  configured as retryable, and its body is an object whose error means \<open>invalid_grant\<close>; so no
  transport failure, no retryable status and no other status does, whatever the body says.
\<close>
theorem invalidate_exactly_on_400_invalid_grant:
  assumes "token_endpoint_outcome lg status result codes types = Inr (issue, oc)"
  shows "invalidate_refresh_token oc \<longleftrightarrow> status = Some 400 \<and> 400 \<notin> set codes
    \<and> (\<exists>d e. result = JObj d \<and> map_of d ''error'' = Some e \<and> means_invalid_grant types e)"
  using assms classify_invalidate by (auto simp: token_endpoint_outcome_def bindR_eq_Inr)

theorem invalidate_exactly_on_400_invalid_grant_witness:
  "(case token_endpoint_outcome True (Some 400) (JObj [(''error'', JStr ''invalid_grant'')])
      [429, 502, 503, 504] [] of Inr (issue, oc) \<Rightarrow> invalidate_refresh_token oc | Inl _ \<Rightarrow> False)"
proof -
  let ?oc = "\<lparr> retryable = False, normalized_error = Some INVALID_GRANT,
    invalidate_refresh_token = True, retry_reason_of = None \<rparr>"
  have run: "token_endpoint_outcome True (Some 400) (JObj [(''error'', JStr ''invalid_grant'')])
      [429, 502, 503, 504] [] = Inr (None, ?oc)"
    by (simp add: token_endpoint_outcome_def unexpected_token_endpoint_issue_def classify_def
        is_success_def dict_has_def normalize_error_def TOKEN_ERRORS_def error_of_value_def
        all_errors_def)
  from invalidate_exactly_on_400_invalid_grant [OF run] run show ?thesis
    by (simp add: means_invalid_grant_def)
qed

text \<open>
  Retryability depends on the status alone: a missing response or a configured status is
  retried, as \<open>temporarily_unavailable\<close>, even when the body is a contradictory error or a
  success; nothing else is.
\<close>
theorem retryable_by_status_only:
  assumes "token_endpoint_outcome lg status result codes types = Inr (issue, oc)"
  shows "(retryable oc \<longleftrightarrow> (case status of None \<Rightarrow> True | Some s \<Rightarrow> s \<in> set codes))
    \<and> (retryable oc \<longrightarrow> normalized_error oc = Some TEMPORARILY_UNAVAILABLE
         \<and> \<not> invalidate_refresh_token oc)"
  using assms classify_retryable_iff classify_retryable
  by (auto simp: token_endpoint_outcome_def bindR_eq_Inr)

theorem retryable_by_status_only_witness:
  "(case token_endpoint_outcome True (Some 503) (JObj [(''error'', JStr ''invalid_grant'')])
      [429, 502, 503, 504] [] of
      Inr (issue, oc) \<Rightarrow> retryable oc \<and> issue = Some ''retryable_status_with_contradictory_oauth_error''
    | Inl _ \<Rightarrow> False)"
proof -
  let ?oc = "\<lparr> retryable = True, normalized_error = Some TEMPORARILY_UNAVAILABLE,
    invalidate_refresh_token = False, retry_reason_of = Some UNAVAILABLE \<rparr>"
  have run: "token_endpoint_outcome True (Some 503) (JObj [(''error'', JStr ''invalid_grant'')])
      [429, 502, 503, 504] [] = Inr (Some ''retryable_status_with_contradictory_oauth_error'', ?oc)"
    by (simp add: token_endpoint_outcome_def unexpected_token_endpoint_issue_def classify_def
        retry_reason_for_status_def)
  from retryable_by_status_only [OF run] run show ?thesis by simp
qed

end
