(* ===== verification/Token_Table.thy ===== *)
theory Token_Table
  imports Bridge_Prelude
begin

text \<open>
  \<open>schema.sql\<close> and the SQL statements of \<open>db.py\<close>: the \<open>tokens\<close> table of the SQLite database.

  A statement is a function from the database to its outcome and the database after it.  A column
  that the table does not have, or a missing table, is an \<open>OperationalError\<close>, of whose messages
  only the one for a missing table is ever looked at; a second row with the same primary key is an
  \<open>IntegrityError\<close>.  SQLite itself is not part of the program: what is
  modelled of it is the effect of these statements on this one table.
\<close>

section \<open>Table\<close>

record token_row =
  row_token :: "string option"
  row_created_at :: "int option"
  row_last_updated_at :: "int option"

record database =
  columns :: "string list option"
  rows :: "(string \<times> token_row) list"

definition empty_database :: database where
  "empty_database = \<lparr> columns = None, rows = [] \<rparr>"

type_synonym 'a stmt = "database \<Rightarrow> 'a res \<times> database"

definition token_columns :: "string list" where
  "token_columns = [''client_id'', ''token'', ''created_at'', ''last_updated_at'']"

definition has_columns :: "string list \<Rightarrow> database \<Rightarrow> bool" where
  "has_columns cs d = (case columns d of None \<Rightarrow> False | Some have \<Rightarrow> set cs \<subseteq> set have)"

definition NO_SUCH_TABLE :: string where
  "NO_SUCH_TABLE = ''no such table: tokens''"

definition missing :: "database \<Rightarrow> pyexn" where
  "missing d = OperationalError (case columns d of None \<Rightarrow> NO_SUCH_TABLE | Some _ \<Rightarrow> ''no such column'')"

text \<open>\<open>create table if not exists tokens(...)\<close>: an existing table is left as it is.\<close>

definition sql_create_table :: "unit stmt" where
  "sql_create_table d = (case columns d of
     None \<Rightarrow> (Inr (), \<lparr> columns = Some token_columns, rows = [] \<rparr>)
   | Some _ \<Rightarrow> (Inr (), d))"

text \<open>\<open>ALTER TABLE tokens ADD COLUMN c\<close>: existing rows get \<open>NULL\<close>.\<close>

definition sql_add_column :: "string \<Rightarrow> unit stmt" where
  "sql_add_column c d = (case columns d of
     None \<Rightarrow> (Inl (missing d), d)
   | Some have \<Rightarrow> if c \<in> set have then (Inl (OperationalError ''duplicate column name''), d)
                  else (Inr (), d\<lparr>columns := Some (have @ [c])\<rparr>))"

text \<open>\<open>PRAGMA table_info(tokens)\<close> has no rows when the table does not exist.\<close>

definition sql_table_info :: "string list stmt" where
  "sql_table_info d = (Inr (case columns d of None \<Rightarrow> [] | Some have \<Rightarrow> have), d)"

definition sql_has_table :: "bool stmt" where
  "sql_has_table d = (Inr (columns d \<noteq> None), d)"

definition sql_insert :: "string \<Rightarrow> token_row \<Rightarrow> unit stmt" where
  "sql_insert cid r d =
     (if \<not> has_columns token_columns d then (Inl (missing d), d)
      else if map_of (rows d) cid \<noteq> None then (Inl IntegrityError, d)
      else (Inr (), d\<lparr>rows := rows d @ [(cid, r)]\<rparr>))"

definition sql_select :: "string \<Rightarrow> token_row option stmt" where
  "sql_select cid d =
     (if \<not> has_columns token_columns d then (Inl (missing d), d)
      else (Inr (map_of (rows d) cid), d))"

text \<open>The statement's row count: 1 where the row exists and 0 otherwise.\<close>

definition sql_update :: "string \<Rightarrow> string option \<Rightarrow> int option \<Rightarrow> nat stmt" where
  "sql_update cid tok now d =
     (if \<not> has_columns [''client_id'', ''token'', ''last_updated_at''] d then (Inl (missing d), d)
      else (Inr (length (filter (\<lambda>(c, _). c = cid) (rows d))),
        d\<lparr>rows := map (\<lambda>(c, r). (c, if c = cid
            then r\<lparr>row_token := tok, row_last_updated_at := now\<rparr> else r)) (rows d)\<rparr>))"

text \<open>\<open>SUM\<close> over no rows is \<open>NULL\<close>.\<close>

definition sql_count_states :: "(nat option \<times> nat option) stmt" where
  "sql_count_states d =
     (if \<not> has_columns [''token''] d then (Inl (missing d), d)
      else if rows d = [] then (Inr (None, None), d)
      else (Inr (Some (length (filter (\<lambda>(_, r). row_token r \<noteq> None) (rows d))),
                 Some (length (filter (\<lambda>(_, r). row_token r = None) (rows d)))), d))"

section \<open>Invariant and abstraction\<close>

text \<open>The primary key is unique, and there are rows only where there is a table.\<close>

definition database_ok :: "database \<Rightarrow> bool" where
  "database_ok d \<longleftrightarrow> distinct (map fst (rows d)) \<and> (columns d = None \<longrightarrow> rows d = [])"

definition ready :: "database \<Rightarrow> bool" where
  "ready d \<longleftrightarrow> database_ok d \<and> has_columns token_columns d"

text \<open>What the table means: the stored token of each known client, \<open>None\<close> when revoked.\<close>

definition grants :: "database \<Rightarrow> string \<Rightarrow> string option option" where
  "grants d cid = map_option row_token (map_of (rows d) cid)"

lemma has_columns_mono: "set cs \<subseteq> set cs' \<Longrightarrow> has_columns cs' d \<Longrightarrow> has_columns cs d"
  by (auto simp: has_columns_def split: option.splits)

lemma has_columns_rows [simp]: "has_columns cs (d\<lparr>rows := rs\<rparr>) = has_columns cs d"
  by (simp add: has_columns_def)

lemma token_columns_update:
  "has_columns token_columns d \<Longrightarrow> has_columns [''client_id'', ''token'', ''last_updated_at''] d"
  by (rule has_columns_mono) (auto simp: token_columns_def)

lemma map_of_map_keyed:
  "map_of (map (\<lambda>(c, r). (c, if c = k then f r else r)) rs) x =
     (if x = k then map_option f (map_of rs x) else map_of rs x)"
  by (induction rs) auto

lemma fst_map_keyed [simp]: "fst \<circ> (\<lambda>(c, r). (c, g c r)) = fst"
  by auto

lemma count_key:
  "distinct (map fst rs) \<Longrightarrow>
   length (filter (\<lambda>(c, _). c = k) rs) = (if map_of rs k = None then 0 else 1)"
proof (induction rs)
  case (Cons x xs)
  then show ?case
    by (cases x) (auto simp: filter_empty_conv map_of_eq_None_iff)
qed simp

lemma database_ok_empty: "database_ok empty_database"
  by (simp add: database_ok_def empty_database_def)

lemma stmt_ok:
  "database_ok d \<Longrightarrow> database_ok (snd (sql_create_table d))"
  "database_ok d \<Longrightarrow> database_ok (snd (sql_add_column c d))"
  "database_ok d \<Longrightarrow> database_ok (snd (sql_insert cid r d))"
  "database_ok d \<Longrightarrow> database_ok (snd (sql_update cid tok now d))"
  by (auto simp: database_ok_def sql_create_table_def sql_add_column_def sql_insert_def
      sql_update_def has_columns_def map_of_eq_None_iff split: option.splits)

lemma read_only [simp]:
  "snd (sql_table_info d) = d" "snd (sql_has_table d) = d" "snd (sql_select cid d) = d"
  "snd (sql_count_states d) = d"
  by (simp_all add: sql_table_info_def sql_has_table_def sql_select_def sql_count_states_def)

section \<open>The store that the handlers rely on\<close>

text \<open>
  The laws of a store of grants: what a lookup returns after each operation, whom an operation
  affects, and that the operations keep the store usable.
\<close>

locale grant_store =
  fixes ins :: "string \<Rightarrow> 'r \<Rightarrow> 'd \<Rightarrow> unit res \<times> 'd"
    and upd :: "string \<Rightarrow> string option \<Rightarrow> 't \<Rightarrow> 'd \<Rightarrow> nat res \<times> 'd"
    and look :: "'d \<Rightarrow> string \<Rightarrow> string option option"
    and grant_of :: "'r \<Rightarrow> string option"
    and usable :: "'d \<Rightarrow> bool"
  assumes usable_ins: "usable d \<Longrightarrow> usable (snd (ins c r d))"
    and usable_upd: "usable d \<Longrightarrow> usable (snd (upd c t now d))"
    and ins_new: "usable d \<Longrightarrow> look d c = None
      \<Longrightarrow> fst (ins c r d) = Inr () \<and> look (snd (ins c r d)) = (look d)(c \<mapsto> grant_of r)"
    and ins_taken: "usable d \<Longrightarrow> look d c \<noteq> None \<Longrightarrow> ins c r d = (Inl IntegrityError, d)"
    and upd_known: "usable d \<Longrightarrow> look d c \<noteq> None
      \<Longrightarrow> fst (upd c t now d) = Inr 1 \<and> look (snd (upd c t now d)) = (look d)(c \<mapsto> t)"
    and upd_unknown: "usable d \<Longrightarrow> look d c = None
      \<Longrightarrow> fst (upd c t now d) = Inr 0 \<and> look (snd (upd c t now d)) = look d"
begin

lemma upd_look:
  "usable d \<Longrightarrow> look (snd (upd c t now d)) = (if look d c = None then look d else (look d)(c \<mapsto> t))"
  using upd_known upd_unknown by auto

text \<open>No operation affects another client, and none makes a known client unknown.\<close>

lemma others_untouched:
  assumes "usable d" and "c' \<noteq> c"
  shows "look (snd (ins c r d)) c' = look d c'" and "look (snd (upd c t now d)) c' = look d c'"
  using assms ins_new [of d c r] ins_taken [of d c r] upd_look [of d c t now]
  by (cases "look d c"; auto)+

lemma clients_monotone:
  assumes "usable d"
  shows "dom (look d) \<subseteq> dom (look (snd (ins c r d)))"
    and "dom (look (snd (upd c t now d))) = dom (look d)"
  using assms ins_new [of d c r] ins_taken [of d c r] upd_look [of d c t now]
  by (cases "look d c"; auto)+

text \<open>A revocation is final: only a new value written for the client ends it.\<close>

lemma revoke_then_lookup:
  "usable d \<Longrightarrow> look d c \<noteq> None \<Longrightarrow> look (snd (upd c None now d)) c = Some None"
  using upd_known [of d c None now] by simp

end

interpretation table_store:
  grant_store sql_insert sql_update grants row_token ready
proof unfold_locales
  fix d c r and t :: "string option" and now
  assume r: "ready d"
  then have cols: "has_columns token_columns d"
    and cols': "has_columns [''client_id'', ''token'', ''last_updated_at''] d"
    and ok: "database_ok d"
    by (auto simp: ready_def intro: token_columns_update)
  show "ready (snd (sql_insert c r d))"
    using r stmt_ok(3) [OF ok, of c r] by (auto simp: ready_def sql_insert_def)
  show "ready (snd (sql_update c t now d))"
    using r stmt_ok(4) [OF ok, of c t now] by (auto simp: ready_def sql_update_def)
  show "grants d c = None \<Longrightarrow> fst (sql_insert c r d) = Inr ()
      \<and> grants (snd (sql_insert c r d)) = (grants d)(c \<mapsto> row_token r)"
    using cols by (auto simp: sql_insert_def grants_def fun_eq_iff map_add_def split: option.splits)
  show "grants d c \<noteq> None \<Longrightarrow> sql_insert c r d = (Inl IntegrityError, d)"
    using cols by (auto simp: sql_insert_def grants_def)
  have count: "length (filter (\<lambda>(x, _). x = c) (rows d)) = (if map_of (rows d) c = None then 0 else 1)"
    using ok by (intro count_key) (simp add: database_ok_def)
  show "grants d c \<noteq> None \<Longrightarrow> fst (sql_update c t now d) = Inr 1
      \<and> grants (snd (sql_update c t now d)) = (grants d)(c \<mapsto> t)"
    using cols' count by (auto simp: sql_update_def grants_def map_of_map_keyed fun_eq_iff)
  show "grants d c = None \<Longrightarrow> fst (sql_update c t now d) = Inr 0
      \<and> grants (snd (sql_update c t now d)) = grants d"
    using cols' count by (auto simp: sql_update_def grants_def map_of_map_keyed fun_eq_iff)
qed

end
