(* ===== verification/Bridge_Settings.thy ===== *)
theory Bridge_Settings
  imports Oauth_Errors
begin

text \<open>
  \<open>settings.py\<close>: one record per settings class, its fields named by the environment variable that
  sets them, its default instance, and the model validators as functions that raise.

  Fields that the source declares as sets are lists here; the list is the order in which the set
  is iterated.  Reading the environment (pydantic) is not modelled; the package metadata and the
  template file are arguments of the validators that read them.
\<close>

section \<open>OAuth, fetch and database settings\<close>

record oauth_settings =
  oauth_client_id :: string
  oauth_client_secret :: string
  oauth_grant_type :: string
  oauth_scopes :: "string list"
  oauth_allowed_scopes :: "string list option"
  oauth_authorization_uri :: string
  oauth_token_uri :: string
  oauth_refresh_uri :: "string option"
  oauth_redirect_uri :: string

text \<open>The four required fields are arguments; the others have their defaults.\<close>

definition oauth_defaults :: "string \<Rightarrow> string \<Rightarrow> string \<Rightarrow> string \<Rightarrow> oauth_settings" where
  "oauth_defaults cid csecret auth_uri tok_uri =
     \<lparr> oauth_client_id = cid, oauth_client_secret = csecret, oauth_grant_type = ''refresh_token'',
       oauth_scopes = [], oauth_allowed_scopes = None, oauth_authorization_uri = auth_uri,
       oauth_token_uri = tok_uri, oauth_refresh_uri = None,
       oauth_redirect_uri = ''http://localhost:5000/callback'' \<rparr>"

record fetch_settings =
  fetch_total_timeout :: rat
  fetch_timeout :: rat
  fetch_total_retries :: int
  fetch_retry_budget_capacity :: int
  fetch_retry_budget_refill_per_initial :: rat
  fetch_retry_status_codes :: "http_status list"
  fetch_unavailable_status_codes :: "http_status list"
  fetch_error_types :: "(string \<times> oauth_error) list"
  fetch_backoff_factor :: rat
  fetch_backoff_jitter_min :: rat
  fetch_backoff_jitter_max :: rat

definition fetch_defaults :: fetch_settings where
  "fetch_defaults =
     \<lparr> fetch_total_timeout = 20, fetch_timeout = 5, fetch_total_retries = 3,
       fetch_retry_budget_capacity = 8, fetch_retry_budget_refill_per_initial = 1 / 4,
       fetch_retry_status_codes = [429, 502, 503, 504],
       fetch_unavailable_status_codes = [429, 502, 503, 504],
       fetch_error_types = [(''errorTransient'', TEMPORARILY_UNAVAILABLE)],
       fetch_backoff_factor = 1 / 10, fetch_backoff_jitter_min = 3 / 4,
       fetch_backoff_jitter_max = 5 / 4 \<rparr>"

record database_settings =
  db_database :: string
  db_timeout :: rat
  db_pragmas :: "string list"

definition database_defaults :: database_settings where
  "database_defaults =
     \<lparr> db_database = ''./sqlite.db'', db_timeout = 5, db_pragmas = [''PRAGMA journal_mode = WAL''] \<rparr>"

section \<open>Sentry, telemetry, Prometheus and log settings\<close>

record sentry_settings =
  sentry_enabled :: bool
  sentry_dsn :: "string option"
  sentry_release :: string
  sentry_sample_rate :: rat
  sentry_traces_sample_rate :: rat
  sentry_traces_sample_rate_overrides :: "(string \<times> rat) list"

definition sentry_defaults :: "string \<Rightarrow> sentry_settings" where
  "sentry_defaults package_version =
     \<lparr> sentry_enabled = False, sentry_dsn = None,
       sentry_release = ''oauthclientbridge@'' @ package_version, sentry_sample_rate = 1,
       sentry_traces_sample_rate = 1, sentry_traces_sample_rate_overrides = [] \<rparr>"

definition check_dsn_if_enabled :: "sentry_settings \<Rightarrow> sentry_settings res" where
  "check_dsn_if_enabled s =
     (if sentry_enabled s \<and> sentry_dsn s = None then Inl ValueError else Inr s)"

datatype telemetry_exporter = OTLP_HTTP | CONSOLE

datatype telemetry_component = TRACING | METRICS

record telemetry_settings =
  telemetry_components :: "telemetry_component list"
  telemetry_exporters :: "telemetry_exporter list"
  telemetry_endpoint :: "string option"
  telemetry_service_name :: string
  telemetry_service_namespace :: string
  telemetry_service_version :: string
  telemetry_deployment_environment :: string
  telemetry_oauth_provider :: "string option"
  telemetry_service_instance_id :: "string option"
  telemetry_vcs_revision :: "string option"
  telemetry_metric_export_interval_seconds :: rat

definition telemetry_defaults :: "string \<Rightarrow> telemetry_settings" where
  "telemetry_defaults package_version =
     \<lparr> telemetry_components = [TRACING], telemetry_exporters = [],
       telemetry_endpoint = Some ''http://localhost:4318'',
       telemetry_service_name = ''oauthclientbridge'',
       telemetry_service_namespace = ''oauthclientbridge'',
       telemetry_service_version = package_version, telemetry_deployment_environment = ''unknown'',
       telemetry_oauth_provider = None, telemetry_service_instance_id = None,
       telemetry_vcs_revision = None, telemetry_metric_export_interval_seconds = 60 \<rparr>"

text \<open>
  \<open>importlib.metadata\<close> is an argument: \<open>None\<close> stands for \<open>PackageNotFoundError\<close>.
\<close>

definition current_package_version :: "string option \<Rightarrow> string" where
  "current_package_version installed = (case installed of None \<Rightarrow> ''unknown'' | Some v \<Rightarrow> v)"

definition current_package_revision :: "string dict option \<Rightarrow> string option" where
  "current_package_revision pkg_metadata = (case pkg_metadata of
     None \<Rightarrow> None
   | Some m \<Rightarrow> (case map_of m ''Vcs-Revision'' of
        None \<Rightarrow> None | Some r \<Rightarrow> if r \<noteq> [] then Some r else None))"

definition default_vcs_revision_from_package_metadata ::
    "string dict option \<Rightarrow> telemetry_settings \<Rightarrow> telemetry_settings" where
  "default_vcs_revision_from_package_metadata pkg_metadata s =
     (if telemetry_vcs_revision s = None
      then s\<lparr>telemetry_vcs_revision := current_package_revision pkg_metadata\<rparr> else s)"

definition check_endpoint_if_otlp_http :: "telemetry_settings \<Rightarrow> telemetry_settings res" where
  "check_endpoint_if_otlp_http s =
     (if OTLP_HTTP \<in> set (telemetry_exporters s) \<and> telemetry_endpoint s = None
      then Inl ValueError else Inr s)"

text \<open>\<open>LogLevel\<close> members have the numeric levels of the \<open>logging\<close> module.\<close>

datatype log_level = LL_CRITICAL | LL_ERROR | LL_WARNING | LL_INFO | LL_DEBUG

fun log_level_value :: "log_level \<Rightarrow> nat" where
  "log_level_value LL_CRITICAL = 50"
| "log_level_value LL_ERROR = 40"
| "log_level_value LL_WARNING = 30"
| "log_level_value LL_INFO = 20"
| "log_level_value LL_DEBUG = 10"

text \<open>\<open>LogLevel\<close> is an \<open>IntEnum\<close>: levels compare by their values.\<close>

lemma log_level_value_inj: "log_level_value a = log_level_value b \<longleftrightarrow> a = b"
  by (cases a; cases b) simp_all

instantiation log_level :: linorder
begin

definition less_eq_log_level :: "log_level \<Rightarrow> log_level \<Rightarrow> bool" where
  "less_eq_log_level a b \<longleftrightarrow> log_level_value a \<le> log_level_value b"

definition less_log_level :: "log_level \<Rightarrow> log_level \<Rightarrow> bool" where
  "less_log_level a b \<longleftrightarrow> log_level_value a < log_level_value b"

instance
  by standard (auto simp: less_eq_log_level_def less_log_level_def log_level_value_inj)

end

record log_settings =
  log_level_setting :: log_level
  log_json_output :: bool
  log_colors :: bool
  log_access_log_format :: string

definition log_defaults :: "bool \<Rightarrow> log_settings" where
  "log_defaults isatty =
     \<lparr> log_level_setting = LL_INFO, log_json_output = (\<not> isatty), log_colors = isatty,
       log_access_log_format = ''{client.address} '' @ [CHR 0x22]
         @ ''{http.request.method} {url.path} {network.protocol.version}'' @ [CHR 0x22]
         @ '' {http.response.status_code} {http.response.body.size} '' @ [CHR 0x22]
         @ ''{user_agent.original}'' @ [CHR 0x22] \<rparr>"

section \<open>Application settings\<close>

record settings =
  bridge_auth_realm :: string
  bridge_metrics_enabled :: bool
  bridge_metrics_token :: "string option"
  bridge_callback_template :: string
  bridge_callback_template_file :: "string option"
  bridge_callback_content_security_policy :: "string option"
  bridge_error_levels :: "(string \<times> log_level) list"
  bridge_revoked_grant_workaround_user_agents :: "string option"
  bridge_revoked_grant_workaround_access_token :: string
  bridge_revoked_grant_workaround_expires_in :: int
  oauth :: oauth_settings
  fetch_cfg :: fetch_settings
  database :: database_settings
  sentry :: sentry_settings
  log_cfg :: log_settings
  otel :: telemetry_settings
  prometheus_multiproc_dir :: "string option"

text \<open>
  The default instance; the default template's text (Jinja markup, only handed to the template
  engine) is an argument.
\<close>

definition settings_defaults ::
    "string \<Rightarrow> oauth_settings \<Rightarrow> string \<Rightarrow> bool \<Rightarrow> settings" where
  "settings_defaults template osettings package_version isatty =
     \<lparr> bridge_auth_realm = ''oauthclientbridge'', bridge_metrics_enabled = True,
       bridge_metrics_token = None, bridge_callback_template = template,
       bridge_callback_template_file = None,
       bridge_callback_content_security_policy = Some (''default-src '' @ [CHR 0x27] @ ''none''
         @ [CHR 0x27] @ ''; form-action '' @ [CHR 0x27] @ ''self'' @ [CHR 0x27] @ ''; base-uri ''
         @ [CHR 0x27] @ ''none'' @ [CHR 0x27] @ ''; frame-ancestors '' @ [CHR 0x27] @ ''none''
         @ [CHR 0x27]),
       bridge_error_levels = [(''access_denied'', LL_INFO), (''invalid_state'', LL_WARNING),
         (''invalid_request'', LL_WARNING), (''temporarily_unavailable'', LL_INFO)],
       bridge_revoked_grant_workaround_user_agents = None,
       bridge_revoked_grant_workaround_access_token = ''OAUTHCLIENTBRIDGE_REVOKED_GRANT_WORKAROUND'',
       bridge_revoked_grant_workaround_expires_in = 300,
       oauth = osettings, fetch_cfg = fetch_defaults, database = database_defaults,
       sentry = sentry_defaults package_version, log_cfg = log_defaults isatty,
       otel = telemetry_defaults package_version, prometheus_multiproc_dir = None \<rparr>"

text \<open>An empty path is not false in Python (\<open>Path('')\<close> is \<open>Path('.')\<close>); only \<open>None\<close> is.\<close>

definition load_callback_template_file ::
    "(string \<Rightarrow> string res) \<Rightarrow> settings \<Rightarrow> settings res" where
  "load_callback_template_file read_text s = (case bridge_callback_template_file s of
     None \<Rightarrow> Inr s
   | Some path \<Rightarrow> bindR (read_text path) (\<lambda>t. Inr (s\<lparr>bridge_callback_template := t\<rparr>)))"

lemma check_dsn_Inr: "check_dsn_if_enabled s = Inr t \<Longrightarrow> t = s \<and> (sentry_enabled t \<longrightarrow> sentry_dsn t \<noteq> None)"
  by (auto simp: check_dsn_if_enabled_def split: if_splits)

lemma check_endpoint_Inr:
  "check_endpoint_if_otlp_http s = Inr t
   \<Longrightarrow> t = s \<and> (OTLP_HTTP \<in> set (telemetry_exporters t) \<longrightarrow> telemetry_endpoint t \<noteq> None)"
  by (auto simp: check_endpoint_if_otlp_http_def split: if_splits)

end
