(* ===== verification/Bridge_World.thy ===== *)
theory Bridge_World
  imports Token_Outcome Token_Table Bridge_Settings "HOL-Library.Word"
begin

text \<open>
  The state every request works on, and what the program takes from outside.

  \<open>world\<close> is the process state the modelled code reads and writes: the monotonic clock, the retry
  limiters, the database with the connection of the application context, and the trace of
  telemetry and I/O events, oldest first.  \<open>env\<close> collects the outside: clocks, random numbers, the
  provider, SQLite faults, the date parser, the regular expressions, and Fernet.  Every use of the
  outside takes the answer with the number \<open>ticks\<close> and advances it, so that an arbitrary \<open>env\<close>
  stands for arbitrary, changing behaviour of the outside.
\<close>

section \<open>Requests to the provider and its answers\<close>

record http_request =
  rq_uri :: string
  rq_auth :: "string option"
  rq_data :: "(string \<times> json) list"

text \<open>\<open>rs_json\<close> is \<open>None\<close> where decoding the body raises \<open>ValueError\<close>.\<close>

record http_response =
  rs_status_code :: int
  rs_json :: "json option"
  rs_length :: nat
  rs_retry_after :: "string option"

text \<open>The subclasses of \<open>requests.exceptions.RequestException\<close> that the code tells apart.\<close>

datatype request_exn = ConnectTimeout | ReadTimeout | TimeoutOther | SSLError | ProxyError
  | ConnectionErrorOther | HTTPError | RequestOther

datatype send_outcome = Responded http_response | Failed request_exn "http_response option"

section \<open>Events\<close>

datatype event =
    BudgetAdded rat
  | BudgetConsumed bool
  | AttemptMade string retry_attempt_kind
  | RetryDecided string retry_decision_action retry_reason
  | SleptFor rat
  | RequestSent http_request rat
  | SessionClosed
  | ClientResponse string "string + http_status" "nat option"
  | UnexpectedResponse string string json
  | ClientError string http_status string
  | ClientRetries string "http_status option" nat
  | FetchDone string upstream_result "http_status option" json nat
  | ServerError http_status string
  | ClientIdSet string
  | InvalidClientIdSeen string
  | TokenInvalidated string
  | WorkaroundServed string
  | GrantAge rat
  | TokenStates nat nat
  | DbError string string
  | DbOperation string bool "string option"
  | RefreshRequested
  | Logged log_level string
  | LoggedWith log_level string json
  | SpanEvent string json
  | RequestMeasured http_status

section \<open>World and environment\<close>

record world =
  clock :: rat
  ticks :: nat
  budgets :: limiters
  db :: database
  db_open :: bool
  trace :: "event list"

record env =
  time_step :: "nat \<Rightarrow> rat"                  \<comment> \<open>seconds that pass before a monotonic clock reading\<close>
  wall_clock :: "nat \<Rightarrow> rat"                 \<comment> \<open>\<open>time.time()\<close>\<close>
  random01 :: "nat \<Rightarrow> rat"                   \<comment> \<open>\<open>random.random()\<close>\<close>
  upstream :: "nat \<Rightarrow> http_request \<Rightarrow> rat \<Rightarrow> send_outcome \<times> rat"  \<comment> \<open>answer and seconds it took\<close>
  parse_date :: "string \<Rightarrow> int option"       \<comment> \<open>\<open>mktime_tz\<close> of \<open>parsedate_tz\<close>\<close>
  re_search :: "string \<Rightarrow> string \<Rightarrow> bool res"
  db_faults :: "nat \<Rightarrow> pyexn option"         \<comment> \<open>what a call of \<open>sqlite3\<close> raises by itself\<close>
  float_repr :: "string \<Rightarrow> string"             \<comment> \<open>\<open>repr(float(literal))\<close>\<close>
  netloc_valid :: "string \<Rightarrow> bool"                \<comment> \<open>the host checks of \<open>urlsplit\<close>\<close>
  random_uuid :: "nat \<Rightarrow> 128 word"
  fernet_generate :: "nat \<Rightarrow> string"
  fernet_accepts :: "string \<Rightarrow> bool"         \<comment> \<open>\<open>Fernet(key)\<close> does not raise\<close>
  fernet_encrypt :: "string \<Rightarrow> nat \<Rightarrow> string \<Rightarrow> string"
  fernet_decrypt :: "string \<Rightarrow> string \<Rightarrow> string option"  \<comment> \<open>\<open>None\<close> is \<open>InvalidToken\<close>\<close>

type_synonym 'a prog = "(world, pyexn, 'a) act"

definition emit :: "event \<Rightarrow> (world, 'e, unit) act" where
  "emit e = modifyA (\<lambda>w. w\<lparr>trace := trace w @ [e]\<rparr>)"

text \<open>Take the next number of the environment.\<close>

definition tick :: "(world, 'e, nat) act" where
  "tick = (\<lambda>w. (Inr (ticks w), w\<lparr>ticks := Suc (ticks w)\<rparr>))"

text \<open>\<open>time.monotonic()\<close>\<close>

definition monotonic :: "env \<Rightarrow> (world, 'e, rat) act" where
  "monotonic E = (\<lambda>w. let t = clock w + time_step E (ticks w)
     in (Inr t, w\<lparr>clock := t, ticks := Suc (ticks w)\<rparr>))"

text \<open>\<open>time.time()\<close>, and \<open>utcnow()\<close> of \<open>utils/time.py\<close>: an aware \<open>datetime\<close> is its POSIX time.\<close>

definition wall_time :: "env \<Rightarrow> (world, 'e, rat) act" where
  "wall_time E = (\<lambda>w. (Inr (wall_clock E (ticks w)), w\<lparr>ticks := Suc (ticks w)\<rparr>))"

text \<open>\<open>random.uniform(a, b)\<close> is \<open>a + (b - a) * random()\<close>.\<close>

definition uniform :: "env \<Rightarrow> rat \<Rightarrow> rat \<Rightarrow> (world, 'e, rat) act" where
  "uniform E a b = (\<lambda>w. (Inr (a + (b - a) * random01 E (ticks w)), w\<lparr>ticks := Suc (ticks w)\<rparr>))"

text \<open>\<open>time.sleep(d)\<close> refuses a negative duration.\<close>

definition sleep :: "rat \<Rightarrow> unit prog" where
  "sleep d = (if d < 0 then raiseA ValueError
     else modifyA (\<lambda>w. w\<lparr>clock := clock w + d, trace := trace w @ [SleptFor d]\<rparr>))"

lemma wp_world [wp_simps]:
  "wp (emit e) Qu X = (\<lambda>w. Qu () (w\<lparr>trace := trace w @ [e]\<rparr>))"
  "wp tick Qn X = (\<lambda>w. Qn (ticks w) (w\<lparr>ticks := Suc (ticks w)\<rparr>))"
  "wp (monotonic E) Q X = (\<lambda>w. Q (clock w + time_step E (ticks w))
     (w\<lparr>clock := clock w + time_step E (ticks w), ticks := Suc (ticks w)\<rparr>))"
  "wp (wall_time E) Q X = (\<lambda>w. Q (wall_clock E (ticks w)) (w\<lparr>ticks := Suc (ticks w)\<rparr>))"
  "wp (uniform E a b) Q X =
     (\<lambda>w. Q (a + (b - a) * random01 E (ticks w)) (w\<lparr>ticks := Suc (ticks w)\<rparr>))"
  by (simp_all add: wp_def emit_def modifyA_def tick_def monotonic_def wall_time_def uniform_def
      Let_def fun_eq_iff)

lemma wp_sleep [wp_simps]:
  "wp (sleep d) Q X = (\<lambda>w. if d < 0 then X ValueError w
     else Q () (w\<lparr>clock := clock w + d, trace := trace w @ [SleptFor d]\<rparr>))"
  by (simp add: sleep_def wp_simps fun_eq_iff)

lemma world_run [act_simps]:
  "emit e w = (Inr (), w\<lparr>trace := trace w @ [e]\<rparr>)"
  "tick w = (Inr (ticks w), w\<lparr>ticks := Suc (ticks w)\<rparr>)"
  "monotonic E w = (Inr (clock w + time_step E (ticks w)),
     w\<lparr>clock := clock w + time_step E (ticks w), ticks := Suc (ticks w)\<rparr>)"
  "wall_time E w = (Inr (wall_clock E (ticks w)), w\<lparr>ticks := Suc (ticks w)\<rparr>)"
  "uniform E a b w = (Inr (a + (b - a) * random01 E (ticks w)), w\<lparr>ticks := Suc (ticks w)\<rparr>)"
  by (simp_all add: emit_def modifyA_def tick_def monotonic_def wall_time_def uniform_def Let_def)

section \<open>Behaviour of the outside that the code relies on\<close>

definition time_flows :: "env \<Rightarrow> bool" where
  "time_flows E \<longleftrightarrow> (\<forall>n. 0 \<le> time_step E n) \<and> (\<forall>n rq t. 0 \<le> snd (upstream E n rq t))"

definition random_ok :: "env \<Rightarrow> bool" where
  "random_ok E \<longleftrightarrow> (\<forall>n. 0 \<le> random01 E n \<and> random01 E n < 1)"

text \<open>
  Fernet: generated keys are accepted, and what was encrypted with an accepted key decrypts with
  it to the same text.
\<close>

definition fernet_ok :: "env \<Rightarrow> bool" where
  "fernet_ok E \<longleftrightarrow> (\<forall>n. fernet_accepts E (fernet_generate E n))
     \<and> (\<forall>k n s. fernet_accepts E k \<longrightarrow> fernet_decrypt E k (fernet_encrypt E k n s) = Some s)"

text \<open>A world to start from, and a concrete environment that the instances below refine.\<close>

definition initial_world :: world where
  "initial_world = \<lparr> clock = 0, ticks = 0, budgets = no_limiters, db = empty_database,
     db_open = False, trace = [] \<rparr>"

definition sample_key :: string where
  "sample_key = replicate 43 CHR ''A'' @ ''=''"

text \<open>A cipher for the concrete environment: the key, then two letters for each character.\<close>

definition to_letters :: "string \<Rightarrow> string" where
  "to_letters s = concat (map (\<lambda>c. let n = (of_char c :: nat) in
     [char_of (65 + n div 16), char_of (65 + n mod 16)]) s)"

fun from_letters :: "string \<Rightarrow> string" where
  "from_letters (a # b # s) =
     char_of (16 * ((of_char a :: nat) - 65) + ((of_char b :: nat) - 65)) # from_letters s"
| "from_letters _ = []"

lemma from_to_letters [simp]: "from_letters (to_letters s) = s"
proof (induction s)
  case (Cons c s)
  define n where "n = (of_char c :: nat)"
  have n: "n < 256" by (simp add: n_def)
  then have "(65 + n div 16) mod 256 = 65 + n div 16" "(65 + n mod 16) mod 256 = 65 + n mod 16" by simp_all
  with Cons show ?case by (simp add: to_letters_def Let_def n_def)
qed (simp add: to_letters_def)

definition sample_generate :: "nat \<Rightarrow> string" where
  "sample_generate n = sample_key"

definition sample_accepts :: "string \<Rightarrow> bool" where
  "sample_accepts k \<longleftrightarrow> k = sample_key"

definition sample_encrypt :: "string \<Rightarrow> nat \<Rightarrow> string \<Rightarrow> string" where
  "sample_encrypt k n s = k @ to_letters s"

definition sample_decrypt :: "string \<Rightarrow> string \<Rightarrow> string option" where
  "sample_decrypt k t = (if take (length k) t = k then Some (from_letters (drop (length k) t)) else None)"

lemmas sample_cipher_defs = sample_generate_def sample_accepts_def sample_encrypt_def sample_decrypt_def

definition sample_env :: env where
  "sample_env = \<lparr> time_step = (\<lambda>_. 0), wall_clock = (\<lambda>_. 1700000000), random01 = (\<lambda>_. 1 / 2),
     upstream = (\<lambda>_ _ _. (Failed ConnectTimeout None, 1)), parse_date = (\<lambda>_. None),
     re_search = (\<lambda>p s. Inr (is_infix p s)), db_faults = (\<lambda>_. None),
     float_repr = id, netloc_valid = (\<lambda>_. True), random_uuid = of_nat,
     fernet_generate = sample_generate, fernet_accepts = sample_accepts,
     fernet_encrypt = sample_encrypt, fernet_decrypt = sample_decrypt \<rparr>"

text \<open>A provider that answers with a status and a body.\<close>

definition answering :: "int \<Rightarrow> json \<Rightarrow> send_outcome \<times> rat" where
  "answering status body = (Responded \<lparr> rs_status_code = status, rs_json = Some body,
     rs_length = 0, rs_retry_after = None \<rparr>, 1 / 10)"

definition sample_token :: json where
  "sample_token = JObj [(''access_token'', JStr ''AT''), (''token_type'', JStr ''Bearer''),
     (''refresh_token'', JStr ''RT'')]"

lemma fernet_ok_sample: "fernet_ok sample_env"
  by (simp add: fernet_ok_def sample_env_def sample_cipher_defs)

end
