(* ===== verification/Provider_Fetch.thy ===== *)
theory Provider_Fetch
  imports Bridge_World
begin

text \<open>
  \<open>oauth/_core.py\<close>: the request to the provider's token endpoint with its retry loop.

  \<open>fetch_once\<close> is \<open>_fetch\<close> (one HTTP request), \<open>retry_gate\<close> and \<open>attempt\<close> are the two halves of
  the loop body (what happens before a retry, and the attempt with its classification),
  \<open>fetch_loop\<close> is the \<open>for ... else\<close> loop and \<open>fetch\<close> the whole function.  The loop variables are
  the record \<open>fetch_vars\<close>; leaving the loop by \<open>break\<close> is the value \<open>Break\<close>.
\<close>

section \<open>One request\<close>

definition decode :: "fetch_settings \<Rightarrow> http_response \<Rightarrow> json res" where
  "decode F resp = (case rs_json resp of
     Some v \<Rightarrow> Inr v
   | None \<Rightarrow>
       if rs_status_code resp \<in> int ` set (fetch_unavailable_status_codes F)
       then error_json TEMPORARILY_UNAVAILABLE (JStr ''Provider is unavailable.'')
       else error_json SERVER_ERROR
         (JStr (''Unhandled provider error (HTTP '' @ int_str (rs_status_code resp) @ '').'')))"

definition parse_retry :: "env \<Rightarrow> string option \<Rightarrow> int prog" where
  "parse_retry E value = (case value of
     None \<Rightarrow> returnA 0
   | Some v \<Rightarrow>
       if v = [] then returnA 0
       else if all_digits (strip v) then liftA (bindR (int_of_digits (strip v)) (\<lambda>s. Inr (max 0 s)))
       else (case parse_date E v of
               None \<Rightarrow> returnA 0
             | Some t \<Rightarrow> seqA (wall_time E) (\<lambda>now. returnA (max 0 (trunc_rat (of_int t - now))))))"

definition jitter_delay :: "env \<Rightarrow> fetch_settings \<Rightarrow> rat \<Rightarrow> bool \<Rightarrow> rat prog" where
  "jitter_delay E F delay preserve_floor =
     (let lower_bound = fetch_backoff_jitter_min F;
          lower_bound = (if preserve_floor then max 1 lower_bound else lower_bound)
      in seqA (uniform E lower_bound (fetch_backoff_jitter_max F)) (\<lambda>u. returnA (delay * u)))"

text \<open>The metric label and the description for each class of transport failure.\<close>

fun transport_failure :: "request_exn \<Rightarrow> string \<times> string" where
  "transport_failure ConnectTimeout = (''connection_timeout'', ''Request timed out while connecting to provider.'')"
| "transport_failure ReadTimeout = (''read_timeout'', ''Request timed out while connecting to provider.'')"
| "transport_failure TimeoutOther = (''unknown_exception'', ''Request timed out while connecting to provider.'')"
| "transport_failure SSLError = (''ssl_error'', ''An error occurred while connecting to the provider.'')"
| "transport_failure ProxyError = (''proxy_error'', ''An error occurred while connecting to the provider.'')"
| "transport_failure ConnectionErrorOther = (''connection_error'', ''An error occurred while connecting to the provider.'')"
| "transport_failure HTTPError = (''unknown_exception'', ''An unknown error occurred while talking to provider.'')"
| "transport_failure RequestOther = (''unknown_exception'', ''An unknown error occurred while talking to provider.'')"

text \<open>\<open>session.send\<close>: the provider answers after some time.\<close>

definition send :: "env \<Rightarrow> http_request \<Rightarrow> rat \<Rightarrow> send_outcome prog" where
  "send E rq timeout = (\<lambda>w. case upstream E (ticks w) rq timeout of (out, took) \<Rightarrow>
     (Inr out, w\<lparr>clock := clock w + took, ticks := Suc (ticks w),
                 trace := trace w @ [RequestSent rq timeout]\<rparr>))"

lemma send_run [act_simps]:
  "send E rq t w = (Inr (fst (upstream E (ticks w) rq t)),
     w\<lparr>clock := clock w + snd (upstream E (ticks w) rq t), ticks := Suc (ticks w),
       trace := trace w @ [RequestSent rq t]\<rparr>)"
  by (simp add: send_def split: prod.split)

lemma wp_send [wp_simps]:
  "wp (send E rq t) Q X = (\<lambda>w. Q (fst (upstream E (ticks w) rq t))
     (w\<lparr>clock := clock w + snd (upstream E (ticks w) rq t), ticks := Suc (ticks w),
        trace := trace w @ [RequestSent rq t]\<rparr>))"
  by (simp add: wp_def send_run fun_eq_iff)

text \<open>
  A \<open>requests.Response\<close> is true when its status is below 400.  Only \<open>HTTPError\<close> reads the response
  of the exception, which may be missing.
\<close>

definition fetch_failed ::
    "env \<Rightarrow> string \<Rightarrow> request_exn \<Rightarrow> http_response option
     \<Rightarrow> (json \<times> http_status option \<times> int) prog" where
  "fetch_failed E endpoint e response =
     (let (status_label, description) = transport_failure e in
      seqA (emit SessionClosed) (\<lambda>_.
      seqA (liftA (case response of
              None \<Rightarrow> Inr None
            | Some r \<Rightarrow> if rs_status_code r < 400
                        then bindR (HTTPStatus (rs_status_code r)) (\<lambda>s. Inr (Some s))
                        else Inr None)) (\<lambda>status.
      seqA (liftA (error_json SERVER_ERROR (JStr description))) (\<lambda>result.
      seqA (if e = HTTPError
            then (case response of
                    None \<Rightarrow> raiseA AttributeError
                  | Some r \<Rightarrow> seqA (parse_retry E (rs_retry_after r)) (\<lambda>s.
                      returnA (Some (rs_length r), s)))
            else returnA (None, 0)) (\<lambda>(len, retry_after).
      seqA (emit (ClientResponse endpoint (Inl status_label) len)) (\<lambda>_.
        returnA (result, status, retry_after)))))))"

definition fetch_responded ::
    "env \<Rightarrow> fetch_settings \<Rightarrow> string \<Rightarrow> http_response \<Rightarrow> (json \<times> http_status option \<times> int) prog" where
  "fetch_responded E F endpoint resp =
     seqA (liftA (decode F resp)) (\<lambda>result.
     seqA (liftA (HTTPStatus (rs_status_code resp))) (\<lambda>status.
     seqA (parse_retry E (rs_retry_after resp)) (\<lambda>retry_after.
     seqA (if status \<in> set (fetch_retry_status_codes F) then emit SessionClosed else returnA ()) (\<lambda>_.
     seqA (emit (ClientResponse endpoint (Inr status) (Some (rs_length resp)))) (\<lambda>_.
       returnA (result, Some status, retry_after))))))"

definition fetch_once ::
    "env \<Rightarrow> fetch_settings \<Rightarrow> http_request \<Rightarrow> rat \<Rightarrow> string
     \<Rightarrow> (json \<times> http_status option \<times> int) prog" where
  "fetch_once E F prepared timeout endpoint =
     seqA (send E prepared (min (fetch_timeout F) timeout)) (\<lambda>out.
       case out of
         Failed e response \<Rightarrow> fetch_failed E endpoint e response
       | Responded resp \<Rightarrow> fetch_responded E F endpoint resp)"

section \<open>The retry loop\<close>

record fetch_vars =
  v_result :: json
  v_status :: "http_status option"
  v_retry :: int
  v_completed :: nat
  v_pending :: "retry_decision option"

datatype flow = Continue fetch_vars | Break fetch_vars

datatype gate = Proceed fetch_vars rat | Halt fetch_vars

definition skip_decision :: "string \<Rightarrow> retry_reason \<Rightarrow> unit prog" where
  "skip_decision endpoint reason = emit (RetryDecided endpoint DA_SKIP reason)"

definition consume_budget :: "nat \<Rightarrow> bool prog" where
  "consume_budget a = (\<lambda>w. case limiter_consume a 1 (budgets w) of (g, h) \<Rightarrow>
     (Inr g, w\<lparr>budgets := h, trace := trace w @ [BudgetConsumed g]\<rparr>))"

lemma consume_budget_run [act_simps]:
  "consume_budget a w = (Inr (fst (limiter_consume a 1 (budgets w))),
     w\<lparr>budgets := snd (limiter_consume a 1 (budgets w)),
       trace := trace w @ [BudgetConsumed (fst (limiter_consume a 1 (budgets w)))]\<rparr>)"
  by (simp add: consume_budget_def split: prod.split)

lemma wp_consume_budget [wp_simps]:
  "wp (consume_budget a) Q X = (\<lambda>w. Q (fst (limiter_consume a 1 (budgets w)))
     (w\<lparr>budgets := snd (limiter_consume a 1 (budgets w)),
        trace := trace w @ [BudgetConsumed (fst (limiter_consume a 1 (budgets w)))]\<rparr>))"
  by (simp add: wp_def consume_budget_run fun_eq_iff)

text \<open>
  What precedes a retry: the deadline is checked against the wait, a token is taken from the
  budget, the wait is jittered and checked again, and the clock is read after the sleep.  A wait
  that is not positive is skipped together with the budget.
\<close>

definition retry_gate ::
    "env \<Rightarrow> fetch_settings \<Rightarrow> nat \<Rightarrow> string \<Rightarrow> rat \<Rightarrow> rat \<Rightarrow> fetch_vars \<Rightarrow> rat \<Rightarrow> gate prog" where
  "retry_gate E F a endpoint deadline backoff v remaining =
     (case v_pending v of
        None \<Rightarrow> returnA (Proceed v remaining)
      | Some decision \<Rightarrow>
          let delay = (if v_retry v \<noteq> 0 then of_int (v_retry v) else backoff) in
          if delay > remaining then
            seqA (skip_decision endpoint DEADLINE_EXCEEDED) (\<lambda>_. returnA (Halt v))
          else if delay > 0 then
            seqA (consume_budget a) (\<lambda>granted.
              if \<not> granted then
                seqA (skip_decision endpoint RESOURCE_EXHAUSTED) (\<lambda>_. returnA (Halt v))
              else
                seqA (jitter_delay E F delay (v_retry v > 0)) (\<lambda>j.
                let sleep_for = (if v_retry v \<noteq> 0 then max (of_int (v_retry v)) j else j) in
                if sleep_for > remaining then
                  seqA (skip_decision endpoint DEADLINE_EXCEEDED) (\<lambda>_. returnA (Halt v))
                else
                  seqA (emit (RetryDecided endpoint (rd_action decision) (rd_reason decision))) (\<lambda>_.
                  seqA (sleep sleep_for) (\<lambda>_.
                  seqA (monotonic E) (\<lambda>now.
                    if deadline - now \<le> 0 then
                      seqA (skip_decision endpoint DEADLINE_EXCEEDED) (\<lambda>_. returnA (Halt v))
                    else returnA (Proceed (v\<lparr>v_completed := Suc (v_completed v), v_pending := None\<rparr>)
                                          (deadline - now)))))))
          else returnA (Proceed (v\<lparr>v_pending := None\<rparr>) remaining))"

definition error_label :: "fetch_settings \<Rightarrow> string \<Rightarrow> string" where
  "error_label F code = (case map_of (fetch_error_types F) code of
     Some e \<Rightarrow> error_value e
   | None \<Rightarrow> (case error_of_value code of Some e \<Rightarrow> error_value e | None \<Rightarrow> ''invalid_error''))"

text \<open>
  The classification of one response: a retryable one is replaced by the normalised error with
  the provider's description, any other ends the loop.
\<close>

definition conclude_attempt ::
    "fetch_settings \<Rightarrow> string \<Rightarrow> fetch_vars \<Rightarrow> flow prog" where
  "conclude_attempt F endpoint v =
     seqA (liftA (token_endpoint_outcome True (v_status v) (v_result v)
             (fetch_retry_status_codes F) (fetch_error_types F))) (\<lambda>(issue, outcome).
     seqA (case issue of None \<Rightarrow> returnA () | Some s \<Rightarrow> emit (UnexpectedResponse endpoint s (v_result v))) (\<lambda>_.
     if retryable outcome then
       seqA (liftA (py_get (v_result v) ''error_description'' JNull)) (\<lambda>description.
       let e = (case normalized_error outcome of None \<Rightarrow> SERVER_ERROR | Some e \<Rightarrow> e) in
       seqA (liftA (error_json e description)) (\<lambda>result.
       seqA (case v_status v of
               None \<Rightarrow> returnA ()
             | Some s \<Rightarrow> emit (ClientError endpoint s (error_label F (error_value e)))) (\<lambda>_.
         returnA (Continue (v\<lparr>v_result := result,
           v_pending := Some \<lparr> rd_action = DA_RETRY,
             rd_reason = (case retry_reason_of outcome of None \<Rightarrow> UNKNOWN_REASON | Some r \<Rightarrow> r) \<rparr>\<rparr>)))))
     else returnA (Break (v\<lparr>v_pending := None\<rparr>))))"

definition attempt ::
    "env \<Rightarrow> fetch_settings \<Rightarrow> http_request \<Rightarrow> string \<Rightarrow> fetch_vars \<Rightarrow> rat \<Rightarrow> flow prog" where
  "attempt E F prepared endpoint v remaining =
     seqA (emit (AttemptMade endpoint (if v_completed v > 0 then AK_RETRY else AK_INITIAL))) (\<lambda>_.
     if remaining \<le> 0 then
       seqA (skip_decision endpoint DEADLINE_EXCEEDED) (\<lambda>_. returnA (Break v))
     else
       seqA (fetch_once E F prepared remaining endpoint) (\<lambda>(result, status, retry).
         conclude_attempt F endpoint
           (v\<lparr>v_result := result, v_status := status, v_retry := retry\<rparr>)))"

definition loop_body ::
    "env \<Rightarrow> fetch_settings \<Rightarrow> nat \<Rightarrow> http_request \<Rightarrow> string \<Rightarrow> rat \<Rightarrow> nat \<Rightarrow> fetch_vars \<Rightarrow> flow prog" where
  "loop_body E F a prepared endpoint deadline i v =
     (let backoff = (2 ^ i - 1) * fetch_backoff_factor F in
      seqA (monotonic E) (\<lambda>now.
      seqA (retry_gate E F a endpoint deadline backoff v (deadline - now)) (\<lambda>g.
        case g of
          Halt v' \<Rightarrow> returnA (Break v')
        | Proceed v' remaining \<Rightarrow> attempt E F prepared endpoint v' remaining)))"

text \<open>The first argument counts the iterations left of \<open>range(total_retries + 1)\<close>.\<close>

primrec fetch_loop ::
    "nat \<Rightarrow> env \<Rightarrow> fetch_settings \<Rightarrow> nat \<Rightarrow> http_request \<Rightarrow> string \<Rightarrow> rat \<Rightarrow> nat \<Rightarrow> fetch_vars
     \<Rightarrow> fetch_vars prog" where
  "fetch_loop 0 E F a prepared endpoint deadline i v =
     (case v_pending v of
        None \<Rightarrow> returnA v
      | Some decision \<Rightarrow> seqA (skip_decision endpoint (rd_reason decision)) (\<lambda>_. returnA v))"
| "fetch_loop (Suc n) E F a prepared endpoint deadline i v =
     seqA (loop_body E F a prepared endpoint deadline i v) (\<lambda>fl.
       case fl of
         Break v' \<Rightarrow> returnA v'
       | Continue v' \<Rightarrow> fetch_loop n E F a prepared endpoint deadline (Suc i) v')"

section \<open>The whole function\<close>

definition acquire_budget :: "fetch_settings \<Rightarrow> (world, 'e, nat) act" where
  "acquire_budget F = (\<lambda>w.
     case get_retry_limiter (fetch_retry_budget_capacity F)
            (fetch_retry_budget_refill_per_initial F) (budgets w) of
       (a, h) \<Rightarrow> (Inr a, w\<lparr>budgets := limiter_add a (fetch_retry_budget_refill_per_initial F) h,
                          trace := trace w @ [BudgetAdded (fetch_retry_budget_refill_per_initial F)]\<rparr>))"

lemma acquire_budget_run [act_simps]:
  "acquire_budget F w =
     (let (a, h) = get_retry_limiter (fetch_retry_budget_capacity F)
            (fetch_retry_budget_refill_per_initial F) (budgets w)
      in (Inr a, w\<lparr>budgets := limiter_add a (fetch_retry_budget_refill_per_initial F) h,
                   trace := trace w @ [BudgetAdded (fetch_retry_budget_refill_per_initial F)]\<rparr>))"
  by (simp add: acquire_budget_def)

definition initial_result :: "json res" where
  "initial_result = error_json SERVER_ERROR (JStr ''An unknown error occurred talking to provider.'')"

definition finish_fetch :: "env \<Rightarrow> string \<Rightarrow> fetch_vars \<Rightarrow> json prog" where
  "finish_fetch E endpoint v =
     (let final_result = (case v_status v of None \<Rightarrow> UR_TIMEOUT | Some s \<Rightarrow> upstream_result_for_status s) in
      seqA (emit (ClientRetries endpoint (v_status v) (v_completed v))) (\<lambda>_.
      seqA (liftA (py_get (v_result v) ''error'' JNull)) (\<lambda>error_type.
      seqA (liftA (py_in ''error'' (v_result v))) (\<lambda>has_error.
      let result = (if has_error \<and> v_retry v \<noteq> 0
                    then (case v_result v of
                            JObj d \<Rightarrow> JObj (AList.update ''retry_after'' (JInt (v_retry v)) d)
                          | r \<Rightarrow> r)
                    else v_result v) in
      seqA (monotonic E) (\<lambda>_.
      seqA (emit (FetchDone endpoint final_result (v_status v) error_type (v_completed v))) (\<lambda>_.
        returnA result))))))"

definition fetch ::
    "env \<Rightarrow> fetch_settings \<Rightarrow> string \<Rightarrow> string \<Rightarrow> string option \<Rightarrow> (string \<times> json) list \<Rightarrow> json prog" where
  "fetch E F uri endpoint auth data =
     (let prepared = \<lparr> rq_uri = uri, rq_auth = auth, rq_data = data \<rparr> in
      seqA (monotonic E) (\<lambda>start_time.
      seqA (acquire_budget F) (\<lambda>a.
      seqA (monotonic E) (\<lambda>now.
      seqA (liftA initial_result) (\<lambda>result.
      seqA (fetch_loop (nat (fetch_total_retries F + 1)) E F a prepared endpoint
              (now + fetch_total_timeout F) 0
              \<lparr> v_result = result, v_status = None, v_retry = 0, v_completed = 0, v_pending = None \<rparr>)
           (\<lambda>v. finish_fetch E endpoint v))))))"

end
