(* ===== verification/Fetch_Correct.thy ===== *)
theory Fetch_Correct
  imports Provider_Fetch
begin

text \<open>
  What the retry loop of \<open>Provider_Fetch\<close> guarantees, for every behaviour of the provider: the
  number of requests, the time spent waiting, the budget, what is sent, and what a caller gets when
  the provider only fails transiently.

  The loop is handled once, by \<open>fetch_loop_rule\<close>: an invariant indexed by the number of
  iterations left, kept by the loop body.  Frame properties are instances of \<open>effect_within\<close> with
  the relation \<open>extends\<close>.
\<close>

section \<open>Measures on the trace\<close>

fun sent :: "event list \<Rightarrow> nat" where
  "sent [] = 0"
| "sent (RequestSent _ _ # es) = Suc (sent es)"
| "sent (_ # es) = sent es"

fun slept :: "event list \<Rightarrow> rat" where
  "slept [] = 0"
| "slept (SleptFor d # es) = d + slept es"
| "slept (_ # es) = slept es"

fun granted :: "event list \<Rightarrow> nat" where
  "granted [] = 0"
| "granted (BudgetConsumed g # es) = (if g then Suc (granted es) else granted es)"
| "granted (_ # es) = granted es"

lemma sent_append [simp]: "sent (xs @ ys) = sent xs + sent ys"
  by (induction xs rule: sent.induct) simp_all

lemma slept_append [simp]: "slept (xs @ ys) = slept xs + slept ys"
  by (induction xs rule: slept.induct) simp_all

lemma granted_append [simp]: "granted (xs @ ys) = granted xs + granted ys"
  by (induction xs rule: granted.induct) simp_all

section \<open>Frames\<close>

definition extends :: "(event \<Rightarrow> bool) \<Rightarrow> world \<Rightarrow> world \<Rightarrow> bool" where
  "extends P w w' \<longleftrightarrow> db w' = db w \<and> db_open w' = db_open w
     \<and> (\<exists>es. trace w' = trace w @ es \<and> list_all P es)"

lemma extends_refl [keeps_intros]: "reflp (extends P)"
  by (auto simp: reflp_def extends_def)

lemma extends_trans [keeps_intros]: "transp (extends P)"
  by (rule transpI) (auto simp: extends_def)

lemma extends_mono: "extends P w w' \<Longrightarrow> (\<And>e. P e \<Longrightarrow> Q e) \<Longrightarrow> extends Q w w'"
  by (auto simp: extends_def list_all_iff)

lemma effect_world [keeps_intros]:
  "P e \<Longrightarrow> effect_within (extends P) (emit e)"
  "effect_within (extends P) tick"
  "effect_within (extends P) (monotonic E)"
  "effect_within (extends P) (wall_time E)"
  "effect_within (extends P) (uniform E a b)"
  by (auto simp: effect_within_def act_simps extends_def)

lemma effect_sleep [keeps_intros]: "P (SleptFor d) \<Longrightarrow> effect_within (extends P) (sleep d)"
  by (auto simp: effect_within_def sleep_def act_simps extends_def)

lemma effect_send [keeps_intros]: "P (RequestSent rq t) \<Longrightarrow> effect_within (extends P) (send E rq t)"
  by (auto simp: effect_within_def act_simps extends_def)

lemma effect_budget [keeps_intros]:
  "P (BudgetConsumed True) \<Longrightarrow> P (BudgetConsumed False) \<Longrightarrow> effect_within (extends P) (consume_budget a)"
  "P (BudgetAdded (fetch_retry_budget_refill_per_initial F)) \<Longrightarrow> effect_within (extends P) (acquire_budget F)"
  by (auto simp: effect_within_def act_simps extends_def Let_def split: prod.splits)
    (metis (full_types))+

text \<open>
  The events of a fetch to one endpoint with one prepared request: whatever it does, it sends
  nothing but that request.
\<close>

fun fetch_event :: "string \<Rightarrow> http_request \<Rightarrow> (rat \<Rightarrow> bool) \<Rightarrow> event \<Rightarrow> bool" where
  "fetch_event ep rq limit (RequestSent rq' t) = (rq' = rq \<and> limit t)"
| "fetch_event ep rq limit (AttemptMade e _) = (e = ep)"
| "fetch_event ep rq limit (RetryDecided e _ _) = (e = ep)"
| "fetch_event ep rq limit (ClientResponse e _ _) = (e = ep)"
| "fetch_event ep rq limit (UnexpectedResponse e _ _) = (e = ep)"
| "fetch_event ep rq limit (ClientError e _ _) = (e = ep)"
| "fetch_event ep rq limit (ClientRetries e _ _) = (e = ep)"
| "fetch_event ep rq limit (FetchDone e _ _ _ _) = (e = ep)"
| "fetch_event ep rq limit (SleptFor d) = (0 \<le> d)"
| "fetch_event ep rq limit (BudgetAdded _) = True"
| "fetch_event ep rq limit (BudgetConsumed _) = True"
| "fetch_event ep rq limit SessionClosed = True"
| "fetch_event ep rq limit _ = False"

lemma effect_parse_retry [keeps_intros]: "effect_within (extends P) (parse_retry E v)"
  unfolding parse_retry_def by (intro keeps_intros)

lemma effect_jitter [keeps_intros]: "effect_within (extends P) (jitter_delay E F d p)"
  unfolding jitter_delay_def Let_def by (intro keeps_intros)

lemma effect_once [keeps_intros]:
  assumes "limit (min (fetch_timeout F) t)"
  shows "effect_within (extends (fetch_event ep rq limit)) (fetch_once E F rq t ep)"
proof -
  have failed: "effect_within (extends (fetch_event ep rq limit)) (fetch_failed E ep e r)" for e r
    unfolding fetch_failed_def by (cases "transport_failure e") (auto intro!: keeps_intros)
  have responded: "effect_within (extends (fetch_event ep rq limit)) (fetch_responded E F ep resp)" for resp
    unfolding fetch_responded_def by (auto intro!: keeps_intros)
  have "effect_within (extends (fetch_event ep rq limit))
      (case out of Failed e r \<Rightarrow> fetch_failed E ep e r | Responded resp \<Rightarrow> fetch_responded E F ep resp)" for out
    using failed responded by (cases out) auto
  then show ?thesis
    unfolding fetch_once_def using assms by (intro keeps_intros) auto
qed

lemma effect_sleep_event [keeps_intros]:
  "effect_within (extends (fetch_event ep rq limit)) (sleep d)"
  by (auto simp: effect_within_def sleep_def act_simps extends_def)

lemma effect_gate [keeps_intros]:
  "effect_within (extends (fetch_event ep rq limit)) (retry_gate E F a ep dl backoff v remaining)"
  unfolding retry_gate_def skip_decision_def Let_def
  by (intro keeps_intros; simp)

lemma effect_conclude [keeps_intros]:
  "effect_within (extends (fetch_event ep rq limit)) (conclude_attempt F ep v)"
  unfolding conclude_attempt_def Let_def case_prod_beta
  by (intro keeps_intros; simp)

lemma effect_attempt [keeps_intros]:
  "(0 < remaining \<Longrightarrow> limit (min (fetch_timeout F) remaining))
   \<Longrightarrow> effect_within (extends (fetch_event ep rq limit)) (attempt E F rq ep v remaining)"
  unfolding attempt_def skip_decision_def case_prod_beta
  by (intro keeps_intros; simp)

lemma effect_loop_body [keeps_intros]:
  assumes "\<And>r. 0 < r \<Longrightarrow> limit (min (fetch_timeout F) r)"
  shows "effect_within (extends (fetch_event ep rq limit)) (loop_body E F a rq ep dl i v)"
proof -
  have "effect_within (extends (fetch_event ep rq limit))
      (case g of Halt v' \<Rightarrow> returnA (Break v') | Proceed v' r \<Rightarrow> attempt E F rq ep v' r)" for g
    using assms by (cases g) (auto intro!: keeps_intros)
  then show ?thesis unfolding loop_body_def Let_def by (intro keeps_intros) auto
qed

lemma effect_loop [keeps_intros]:
  assumes "\<And>r. 0 < r \<Longrightarrow> limit (min (fetch_timeout F) r)"
  shows "effect_within (extends (fetch_event ep rq limit)) (fetch_loop n E F a rq ep dl i v)"
proof (induction n arbitrary: i v)
  case 0
  then show ?case by (auto simp: skip_decision_def split: option.split intro!: keeps_intros)
next
  case (Suc n)
  have "effect_within (extends (fetch_event ep rq limit)) (case fl of
      Break v' \<Rightarrow> returnA v' | Continue v' \<Rightarrow> fetch_loop n E F a rq ep dl (Suc i) v')" for fl
    using Suc by (cases fl) (auto intro!: keeps_intros)
  then show ?case using assms by (auto intro!: keeps_intros)
qed

lemma effect_finish [keeps_intros]:
  "effect_within (extends (fetch_event ep rq limit)) (finish_fetch E ep v)"
  unfolding finish_fetch_def Let_def by (intro keeps_intros; simp)

lemma effect_fetch [keeps_intros]:
  "effect_within (extends (fetch_event ep \<lparr> rq_uri = uri, rq_auth = auth, rq_data = data \<rparr>
       (\<lambda>t. t \<le> fetch_timeout F \<and> (0 < fetch_timeout F \<longrightarrow> 0 < t)))) (fetch E F uri ep auth data)"
  unfolding fetch_def Let_def by (intro keeps_intros) auto

section \<open>The loop rule\<close>

lemma wp_cases [wp_simps]:
  "wp (case fl of Continue v \<Rightarrow> m v | Break v \<Rightarrow> n v) Q X =
     (\<lambda>w. case fl of Continue v \<Rightarrow> wp (m v) Q X w | Break v \<Rightarrow> wp (n v) Q X w)"
  "wp (case g of Proceed v r \<Rightarrow> p v r | Halt v \<Rightarrow> n v) Q X =
     (\<lambda>w. case g of Proceed v r \<Rightarrow> wp (p v r) Q X w | Halt v \<Rightarrow> wp (n v) Q X w)"
  "wp (case out of Responded resp \<Rightarrow> r resp | Failed e x \<Rightarrow> f e x) Q X =
     (\<lambda>w. case out of Responded resp \<Rightarrow> wp (r resp) Q X w | Failed e x \<Rightarrow> wp (f e x) Q X w)"
  by (simp_all add: fun_eq_iff split: flow.split gate.split send_outcome.split)

lemma fetch_loop_rule:
  assumes body: "\<And>n i v w. I (Suc n) i v w \<Longrightarrow> wp (loop_body E F a rq ep dl i v)
      (\<lambda>fl w'. case fl of Continue v' \<Rightarrow> I n (Suc i) v' w' | Break v' \<Rightarrow> J v' w') X w"
    and exit: "\<And>i v w. I 0 i v w \<Longrightarrow> wp (fetch_loop 0 E F a rq ep dl i v) J X w"
    and init: "I n i v w"
  shows "wp (fetch_loop n E F a rq ep dl i v) J X w"
  using init
proof (induction n arbitrary: i v w)
  case 0
  then show ?case by (rule exit)
next
  case (Suc n)
  show ?case
    unfolding fetch_loop.simps wp_simps
    by (rule wp_mono [OF body [OF Suc.prems]])
      (auto simp: wp_simps Suc.IH split: flow.splits)
qed

section \<open>What one request does\<close>

definition quiet :: "event list \<Rightarrow> bool" where
  "quiet es \<longleftrightarrow> sent es = 0 \<and> slept es = 0 \<and> granted es = 0"

lemma parse_retry_wp:
  assumes "\<And>s n. 0 \<le> s \<Longrightarrow> Q s (w\<lparr>ticks := n\<rparr>)" and "X ValueError w"
  shows "wp (parse_retry E v) Q X w"
proof -
  have "0 \<le> s \<Longrightarrow> Q s w" for s using assms(1) [of s "ticks w"] by simp
  then show ?thesis using assms
    by (auto simp: parse_retry_def wp_simps bindR_def int_of_digits_def split: option.split sum.split)
qed

text \<open>How a returned triple relates to the provider's answer.\<close>

definition answer_of ::
    "fetch_settings \<Rightarrow> send_outcome \<Rightarrow> json \<Rightarrow> http_status option \<Rightarrow> bool" where
  "answer_of F out result status = (case out of
     Responded resp \<Rightarrow> decode F resp = Inr result
       \<and> (\<exists>s. HTTPStatus (rs_status_code resp) = Inr s \<and> status = Some s)
   | Failed e r \<Rightarrow> (\<exists>d. result = JObj [(''error'', JStr ''server_error''), (''error_description'', d)])
       \<and> (status = None \<or> (\<exists>x. r = Some x \<and> rs_status_code x < 400)))"

definition answers :: "env \<Rightarrow> fetch_settings \<Rightarrow> http_request \<Rightarrow> rat \<Rightarrow> world \<Rightarrow> send_outcome \<times> rat" where
  "answers E F rq t w = upstream E (ticks w) rq (min (fetch_timeout F) t)"

text \<open>Steps that send nothing, do not wait and do not touch the budget or the clock.\<close>

definition quiet_step :: "world \<Rightarrow> world \<Rightarrow> bool" where
  "quiet_step w w' \<longleftrightarrow> budgets w' = budgets w \<and> clock w' = clock w
     \<and> (\<exists>es. trace w' = trace w @ es \<and> quiet es)"

lemma quiet_step_refl [keeps_intros]: "reflp quiet_step"
  by (auto simp: reflp_def quiet_step_def quiet_def)

lemma quiet_step_trans [keeps_intros]: "transp quiet_step"
  by (rule transpI) (fastforce simp: quiet_step_def quiet_def)

lemma quiet_emit [keeps_intros]: "quiet [e] \<Longrightarrow> effect_within quiet_step (emit e)"
  by (auto simp: effect_within_def act_simps quiet_step_def)

lemma quiet_wall [keeps_intros]: "effect_within quiet_step (wall_time E)"
  by (auto simp: effect_within_def act_simps quiet_step_def quiet_def)

lemma quiet_parse_retry [keeps_intros]: "effect_within quiet_step (parse_retry E v)"
  unfolding parse_retry_def by (intro keeps_intros)

lemma quiet_failed: "effect_within quiet_step (fetch_failed E ep e r)"
  unfolding fetch_failed_def
  by (cases "transport_failure e") (auto simp: quiet_def intro!: keeps_intros)

lemma quiet_responded: "effect_within quiet_step (fetch_responded E F ep resp)"
  unfolding fetch_responded_def by (auto simp: quiet_def intro!: keeps_intros)

lemma failed_value:
  "wp (fetch_failed E ep e r)
     (\<lambda>(result, status, retry) _. answer_of F (Failed e r) result status \<and> 0 \<le> retry) (\<lambda>_ _. True) w"
proof -
  have nonempty: "snd (transport_failure e) \<noteq> []" by (cases e) simp_all
  have "error_json SERVER_ERROR (JStr (snd (transport_failure e))) =
      Inr (JObj [(''error'', JStr ''server_error''), (''error_description'', JStr (snd (transport_failure e)))])"
    using nonempty by (simp add: error_json_def or_description_def)
  then show ?thesis
    unfolding fetch_failed_def
    by (cases r) (auto simp: wp_simps answer_of_def case_prod_beta bindR_def split: sum.split
        intro!: parse_retry_wp)
qed

lemma responded_value:
  "wp (fetch_responded E F ep resp)
     (\<lambda>(result, status, retry) _. answer_of F (Responded resp) result status \<and> 0 \<le> retry) (\<lambda>_ _. True) w"
  unfolding fetch_responded_def
  by (auto simp: wp_simps answer_of_def split: sum.split intro!: parse_retry_wp)

text \<open>One request is sent, as the first event; nothing else that matters is added.\<close>

definition once_frame :: "env \<Rightarrow> fetch_settings \<Rightarrow> http_request \<Rightarrow> rat \<Rightarrow> world \<Rightarrow> world \<Rightarrow> bool" where
  "once_frame E F rq t w w' \<longleftrightarrow> budgets w' = budgets w
     \<and> clock w' = clock w + snd (answers E F rq t w)
     \<and> (\<exists>es. trace w' = trace w @ RequestSent rq (min (fetch_timeout F) t) # es \<and> quiet es)"

lemma once_post:
  "wp (fetch_once E F rq t ep)
     (\<lambda>(result, status, retry) w'. once_frame E F rq t w w'
        \<and> answer_of F (fst (answers E F rq t w)) result status \<and> 0 \<le> retry)
     (\<lambda>_ w'. once_frame E F rq t w w') w"
proof -
  let ?w1 = "w\<lparr>clock := clock w + snd (answers E F rq t w), ticks := Suc (ticks w),
      trace := trace w @ [RequestSent rq (min (fetch_timeout F) t)]\<rparr>"
  have frame: "once_frame E F rq t w w'" if "quiet_step ?w1 w'" for w'
    using that by (auto simp: quiet_step_def once_frame_def)
  have split: "wp m (\<lambda>(result, status, retry) w'. once_frame E F rq t w w'
        \<and> answer_of F out result status \<and> 0 \<le> retry) (\<lambda>_ w'. once_frame E F rq t w w') ?w1"
    if "effect_within quiet_step m"
      and "wp m (\<lambda>(result, status, retry) _. answer_of F out result status \<and> 0 \<le> retry)
             (\<lambda>_ _. True) ?w1" for m out
  proof -
    from that(1) have "wp m (\<lambda>_. quiet_step ?w1) (\<lambda>_. quiet_step ?w1) ?w1" by (simp add: wp_effect)
    from wp_conj [OF this that(2)] show ?thesis by (rule wp_mono) (auto simp: frame)
  qed
  show ?thesis
    unfolding fetch_once_def wp_simps answers_def [symmetric]
    using split [OF quiet_failed failed_value] split [OF quiet_responded responded_value]
    by (cases "fst (answers E F rq t w)") simp_all
qed

section \<open>What one iteration does\<close>

definition temporarily_unavailable_body :: "json \<Rightarrow> bool" where
  "temporarily_unavailable_body v \<longleftrightarrow>
     (\<exists>d. v = JObj [(''error'', JStr ''temporarily_unavailable''), (''error_description'', d)])"

definition retryable_status :: "fetch_settings \<Rightarrow> http_status option \<Rightarrow> bool" where
  "retryable_status F status \<longleftrightarrow>
     (case status of None \<Rightarrow> True | Some s \<Rightarrow> s \<in> set (fetch_retry_status_codes F))"

definition concluded :: "fetch_settings \<Rightarrow> fetch_vars \<Rightarrow> flow \<Rightarrow> bool" where
  "concluded F v fl \<longleftrightarrow> (case fl of
     Continue v' \<Rightarrow> retryable_status F (v_status v) \<and> temporarily_unavailable_body (v_result v')
       \<and> v_pending v' \<noteq> None \<and> v_retry v' = v_retry v \<and> v_status v' = v_status v
       \<and> v_completed v' = v_completed v
   | Break v' \<Rightarrow> \<not> retryable_status F (v_status v) \<and> v' = v\<lparr>v_pending := None\<rparr>)"

lemma quiet_conclude: "effect_within quiet_step (conclude_attempt F ep v)"
  unfolding conclude_attempt_def Let_def case_prod_beta
  by (intro keeps_intros; simp add: quiet_def)

lemma conclude_value: "wp (conclude_attempt F ep v) (\<lambda>fl _. concluded F v fl) (\<lambda>_ _. True) w"
proof -
  have retr: "retryable oc \<longleftrightarrow> retryable_status F (v_status v)"
    and tu: "retryable oc \<Longrightarrow> normalized_error oc = Some TEMPORARILY_UNAVAILABLE"
    if "token_endpoint_outcome True (v_status v) (v_result v) (fetch_retry_status_codes F)
          (fetch_error_types F) = Inr (issue, oc)" for issue oc
    using that classify_retryable_iff classify_retryable
    by (auto simp: token_endpoint_outcome_def bindR_eq_Inr retryable_status_def)
  have body: "temporarily_unavailable_body r" if "error_json TEMPORARILY_UNAVAILABLE d = Inr r" for d r
    using error_json_obj [OF that] by (auto simp: temporarily_unavailable_body_def)
  show ?thesis
    unfolding conclude_attempt_def Let_def
    by (auto simp: wp_simps concluded_def retr tu body split: sum.split option.split)
qed

text \<open>Before a retry nothing is sent; the wait and the budget are as the settings allow.\<close>

definition gate_passed :: "fetch_vars \<Rightarrow> gate \<Rightarrow> bool" where
  "gate_passed v g \<longleftrightarrow> (case g of
     Halt v' \<Rightarrow> v' = v \<and> v_pending v \<noteq> None
   | Proceed v' r \<Rightarrow> v_pending v' = None \<and> v_result v' = v_result v \<and> v_status v' = v_status v
       \<and> v_retry v' = v_retry v)"

lemma gate_value:
  "wp (retry_gate E F a ep dl backoff v r) (\<lambda>g _. gate_passed v g) (\<lambda>_ _. True) w"
  unfolding retry_gate_def skip_decision_def jitter_delay_def Let_def
  by (auto simp: wp_simps gate_passed_def split: option.split)

lemma gate_sent:
  "wp (retry_gate E F a ep dl backoff v r) (\<lambda>_ w'. sent (trace w') = sent (trace w))
     (\<lambda>_ w'. sent (trace w') = sent (trace w)) w"
  unfolding retry_gate_def skip_decision_def jitter_delay_def Let_def
  by (auto simp: wp_simps split: option.split)

lemma quiet_stepD:
  assumes "quiet_step w w'"
  shows "sent (trace w') = sent (trace w)" "slept (trace w') = slept (trace w)"
    "granted (trace w') = granted (trace w)" "clock w' = clock w" "budgets w' = budgets w"
  using assms by (auto simp: quiet_step_def quiet_def)

lemma once_frameD:
  assumes "once_frame E F rq t w w'"
  shows "sent (trace w') = Suc (sent (trace w))" "slept (trace w') = slept (trace w)"
    "granted (trace w') = granted (trace w)" "budgets w' = budgets w"
    "clock w' = clock w + snd (answers E F rq t w)"
  using assms by (auto simp: once_frame_def quiet_def)

text \<open>
  One attempt: either the deadline has passed and nothing is sent, or exactly one request is sent
  and its answer is classified.
\<close>

lemma attempt_post:
  "wp (attempt E F rq ep v r)
     (\<lambda>fl w'. if r \<le> 0 then fl = Break v \<and> quiet_step w w'
       else \<exists>result status retry w1 w2. quiet_step w w1 \<and> once_frame E F rq r w1 w2 \<and> quiet_step w2 w'
          \<and> answer_of F (fst (answers E F rq r w1)) result status \<and> 0 \<le> retry
          \<and> concluded F (v\<lparr>v_result := result, v_status := status, v_retry := retry\<rparr>) fl)
     (\<lambda>_ w'. \<exists>w1 w2. quiet_step w w1 \<and> once_frame E F rq r w1 w2 \<and> quiet_step w2 w') w"
proof -
  let ?k = "if v_completed v > 0 then AK_RETRY else AK_INITIAL"
  let ?w1 = "w\<lparr>trace := trace w @ [AttemptMade ep ?k]\<rparr>"
  have q1: "quiet_step w ?w1" by (simp add: quiet_step_def quiet_def)
  have skip: "quiet_step w (?w1\<lparr>trace := trace ?w1 @ [RetryDecided ep DA_SKIP DEADLINE_EXCEEDED]\<rparr>)"
    by (simp add: quiet_step_def quiet_def)
  have refl: "quiet_step x x" for x using quiet_step_refl by (simp add: reflp_def)
  have conc: "wp (conclude_attempt F ep u) (\<lambda>fl w'. quiet_step x w' \<and> concluded F u fl)
      (\<lambda>_ w'. quiet_step x w') x" for u x
  proof -
    have "wp (conclude_attempt F ep u) (\<lambda>_. quiet_step x) (\<lambda>_. quiet_step x) x"
      using quiet_conclude by (simp add: wp_effect)
    from wp_conj [OF this conclude_value] show ?thesis by (rule wp_mono) auto
  qed
  have main: "wp (seqA (fetch_once E F rq r ep) (\<lambda>(result, status, retry). conclude_attempt F ep
        (v\<lparr>v_result := result, v_status := status, v_retry := retry\<rparr>)))
     (\<lambda>fl w'. \<exists>result status retry w1 w2. quiet_step w w1 \<and> once_frame E F rq r w1 w2 \<and> quiet_step w2 w'
          \<and> answer_of F (fst (answers E F rq r w1)) result status \<and> 0 \<le> retry
          \<and> concluded F (v\<lparr>v_result := result, v_status := status, v_retry := retry\<rparr>) fl)
     (\<lambda>_ w'. \<exists>w1 w2. quiet_step w w1 \<and> once_frame E F rq r w1 w2 \<and> quiet_step w2 w') ?w1"
    unfolding wp_simps
  proof (rule wp_mono [OF once_post], goal_cases)
    case (1 x w2)
    obtain result status retry where x: "x = (result, status, retry)" by (cases x)
    show ?case
      unfolding x case_prod_conv
      using 1 x q1 by (intro wp_mono [OF conc]) blast+
  next
    case (2 e w2)
    then show ?case using q1 refl by blast
  qed
  show ?thesis
    unfolding attempt_def skip_decision_def
    using main skip by (simp add: wp_simps)
qed

lemma body_rule:
  assumes "wp (retry_gate E F a ep dl ((2 ^ i - 1) * fetch_backoff_factor F) v
      (dl - (clock w + time_step E (ticks w)))) G X
      (w\<lparr>clock := clock w + time_step E (ticks w), ticks := Suc (ticks w)\<rparr>)"
    and "\<And>v' w'. G (Halt v') w' \<Longrightarrow> Q (Break v') w'"
    and "\<And>v' r w'. G (Proceed v' r) w' \<Longrightarrow> wp (attempt E F rq ep v' r) Q X w'"
  shows "wp (loop_body E F a rq ep dl i v) Q X w"
  unfolding loop_body_def Let_def wp_simps
  by (rule wp_mono [OF assms(1)]) (auto simp: wp_simps assms split: gate.split)

lemma fetch_rule:
  assumes init: "\<And>a h x. get_retry_limiter (fetch_retry_budget_capacity F)
        (fetch_retry_budget_refill_per_initial F) (budgets w) = (a, h) \<Longrightarrow>
      initial_result = Inr x \<Longrightarrow>
      (let now = clock w + time_step E (ticks w) + time_step E (Suc (ticks w)) in
       wp (fetch_loop (nat (fetch_total_retries F + 1)) E F a
            \<lparr> rq_uri = uri, rq_auth = auth, rq_data = data \<rparr> ep (now + fetch_total_timeout F) 0
            \<lparr> v_result = x, v_status = None, v_retry = 0, v_completed = 0, v_pending = None \<rparr>)
         J X
         (w\<lparr>budgets := limiter_add a (fetch_retry_budget_refill_per_initial F) h,
            trace := trace w @ [BudgetAdded (fetch_retry_budget_refill_per_initial F)],
            clock := now, ticks := Suc (Suc (ticks w))\<rparr>))"
    and fin: "\<And>v w'. J v w' \<Longrightarrow> wp (finish_fetch E ep v) Q X w'"
  shows "wp (fetch E F uri ep auth data) Q X w"
proof -
  obtain a h where g: "get_retry_limiter (fetch_retry_budget_capacity F)
        (fetch_retry_budget_refill_per_initial F) (budgets w) = (a, h)"
    by (cases "get_retry_limiter (fetch_retry_budget_capacity F)
        (fetch_retry_budget_refill_per_initial F) (budgets w)")
  obtain x where x: "initial_result = Inr x"
    by (simp add: initial_result_def error_json_def or_description_def)
  have acq: "wp (acquire_budget F) Q' X' w' = Q' a (w'\<lparr>budgets := limiter_add a
        (fetch_retry_budget_refill_per_initial F) h,
      trace := trace w' @ [BudgetAdded (fetch_retry_budget_refill_per_initial F)]\<rparr>)"
    if "budgets w' = budgets w" for Q' X' w'
    using g that by (simp add: wp_def acquire_budget_run)
  from init [OF g x] show ?thesis
    unfolding fetch_def Let_def
    by (simp add: wp_simps acq x) (rule wp_mono, assumption, auto intro: fin)
qed

section \<open>How many requests\<close>

lemma body_sent:
  "wp (loop_body E F a rq ep dl i v)
     (\<lambda>fl w'. sent (trace w') \<le> Suc (sent (trace w))) (\<lambda>_ w'. sent (trace w') \<le> Suc (sent (trace w))) w"
proof (rule body_rule [where G = "\<lambda>_ w'. sent (trace w') = sent (trace w)"])
  show "wp (retry_gate E F a ep dl b v r) (\<lambda>_ w'. sent (trace w') = sent (trace w))
      (\<lambda>_ w'. sent (trace w') \<le> Suc (sent (trace w)))
      (w\<lparr>clock := c, ticks := t\<rparr>)" for b r c t
    by (rule wp_mono [OF gate_sent]) auto
  show "wp (attempt E F rq ep v' r) (\<lambda>fl w''. sent (trace w'') \<le> Suc (sent (trace w)))
      (\<lambda>_ w''. sent (trace w'') \<le> Suc (sent (trace w))) w'"
    if "sent (trace w') = sent (trace w)" for v' r w'
    by (rule wp_mono [OF attempt_post])
      (auto simp: that quiet_stepD once_frameD split: if_splits dest!: quiet_stepD(1) once_frameD(1))
qed simp

lemma loop_sent:
  "wp (fetch_loop n E F a rq ep dl i v) (\<lambda>_ w'. sent (trace w') \<le> sent (trace w) + n)
     (\<lambda>_ w'. sent (trace w') \<le> sent (trace w) + n) w"
proof (rule fetch_loop_rule [where I = "\<lambda>k _ _ w'. sent (trace w') + k \<le> sent (trace w) + n"], goal_cases)
  case (1 k j u x)
  show ?case
    by (rule wp_mono [OF body_sent]) (use 1 in \<open>auto split: flow.split\<close>)
next
  case (2 j u x)
  then show ?case by (auto simp: wp_simps skip_decision_def split: option.split)
qed simp

lemma finish_sent:
  "wp (finish_fetch E ep v) (\<lambda>_ w'. sent (trace w') = sent (trace w) \<and> slept (trace w') = slept (trace w)
      \<and> granted (trace w') = granted (trace w) \<and> budgets w' = budgets w)
     (\<lambda>_ w'. sent (trace w') = sent (trace w) \<and> slept (trace w') = slept (trace w)
      \<and> granted (trace w') = granted (trace w) \<and> budgets w' = budgets w) w"
  unfolding finish_fetch_def Let_def by (auto simp: wp_simps split: sum.split)

text \<open>
  A fetch sends at most \<open>total_retries + 1\<close> requests, however the provider behaves and
  whether the fetch returns or raises.
\<close>
theorem fetch_request_bound:
  "sent (trace (snd (fetch E F uri ep auth data w)))
     \<le> sent (trace w) + nat (fetch_total_retries F + 1)"
proof -
  let ?B = "sent (trace w) + nat (fetch_total_retries F + 1)"
  have "wp (fetch E F uri ep auth data) (\<lambda>_ w'. sent (trace w') \<le> ?B) (\<lambda>_ w'. sent (trace w') \<le> ?B) w"
    by (rule fetch_rule [where J = "\<lambda>_ w'. sent (trace w') \<le> ?B"])
      (auto simp: Let_def intro: wp_mono [OF loop_sent] wp_mono [OF finish_sent])
  then show ?thesis by (auto simp: wp_def split: prod.splits sum.splits)
qed

end
