(* ===== verification/Fetch_Guarantees.thy ===== *)
theory Fetch_Guarantees
  imports Fetch_Correct
begin

text \<open>
  The guarantees of the fetch loop about its budget, its time and its result, each an instance of
  \<open>fetch_rule\<close> and \<open>fetch_loop_rule\<close> with an invariant on the loop variables and the trace.
\<close>

section \<open>Every retry is paid for\<close>

lemma gate_paid:
  assumes "v_pending v = None \<or> 0 < v_retry v \<or> v_retry v = 0 \<and> 0 < backoff"
  shows "wp (retry_gate E F a ep dl backoff v r)
     (\<lambda>g w'. sent (trace w') = sent (trace w) \<and> granted (trace w) \<le> granted (trace w')
        \<and> (\<forall>v' r'. g = Proceed v' r' \<longrightarrow> v_pending v \<noteq> None \<longrightarrow> granted (trace w') = Suc (granted (trace w))))
     (\<lambda>_ w'. sent (trace w') = sent (trace w) \<and> granted (trace w) \<le> granted (trace w')) w"
  using assms unfolding retry_gate_def skip_decision_def jitter_delay_def Let_def
  by (auto simp: wp_simps split: option.split)

definition paid_inv :: "nat \<Rightarrow> nat \<Rightarrow> nat \<Rightarrow> fetch_vars \<Rightarrow> world \<Rightarrow> bool" where
  "paid_inv s g i v w \<longleftrightarrow> 0 \<le> v_retry v \<and> sent (trace w) + g \<le> s + (if i = 0 then 0 else 1) + granted (trace w)
     \<and> (i = 0 \<longleftrightarrow> v_pending v = None)"

lemma body_paid:
  assumes "0 < fetch_backoff_factor F" and inv: "paid_inv s g i v w"
  shows "wp (loop_body E F a rq ep dl i v)
     (\<lambda>fl w'. sent (trace w') + g \<le> Suc s + granted (trace w')
        \<and> (\<forall>v'. fl = Continue v' \<longrightarrow> paid_inv s g (Suc i) v' w'))
     (\<lambda>_ w'. sent (trace w') + g \<le> Suc s + granted (trace w')) w"
proof -
  let ?w0 = "w\<lparr>clock := clock w + time_step E (ticks w), ticks := Suc (ticks w)\<rparr>"
  let ?b = "(2 ^ i - 1) * fetch_backoff_factor F"
  let ?P = "\<lambda>w'. sent (trace w') + g \<le> Suc s + granted (trace w')"
  have "v_pending v = None \<or> 0 < v_retry v \<or> v_retry v = 0 \<and> 0 < ?b"
  proof (cases "i = 0")
    case False
    then have "(1::rat) < 2 ^ i" by (simp add: one_less_power)
    then show ?thesis using assms by (auto simp: paid_inv_def)
  qed (use inv in \<open>auto simp: paid_inv_def\<close>)
  note gate = gate_paid [OF this, of E F a ep dl "dl - (clock w + time_step E (ticks w))" ?w0]
  show ?thesis
  proof (rule body_rule [where G = "\<lambda>gt w'. sent (trace w') = sent (trace w) \<and> ?P w'
      \<and> (\<forall>v' r'. gt = Proceed v' r' \<longrightarrow> sent (trace w') + g \<le> s + granted (trace w'))"], goal_cases)
    case 1
    show ?case
      by (rule wp_mono [OF gate]) (use inv in \<open>auto simp: paid_inv_def split: if_splits\<close>)
  next
    case (3 v' r w')
    then have le: "sent (trace w') + g \<le> s + granted (trace w')" by blast
    show ?case
    proof (rule wp_mono [OF attempt_post], goal_cases)
      case (1 fl w'')
      then show ?case
      proof (cases "r \<le> 0")
        case True
        with 1 le quiet_stepD(1,3) [of w' w''] show ?thesis by auto
      next
        case False
        with 1 obtain result status retry w1 w2 where steps: "quiet_step w' w1" "once_frame E F rq r w1 w2"
            "quiet_step w2 w''" and "0 \<le> retry"
          and conc: "concluded F (v'\<lparr>v_result := result, v_status := status, v_retry := retry\<rparr>) fl"
          by auto
        have eq: "sent (trace w'') = Suc (sent (trace w'))" "granted (trace w'') = granted (trace w')"
          using quiet_stepD [OF steps(1)] once_frameD [OF steps(2)] quiet_stepD [OF steps(3)] by auto
        with le conc \<open>0 \<le> retry\<close> show ?thesis
          by (auto simp: paid_inv_def concluded_def)
      qed
    next
      case (2 e w'')
      then obtain w1 w2 where steps: "quiet_step w' w1" "once_frame E F rq r w1 w2" "quiet_step w2 w''"
        by blast
      show ?case
        using le quiet_stepD [OF steps(1)] once_frameD [OF steps(2)] quiet_stepD [OF steps(3)] by auto
    qed
  qed (use inv in \<open>auto simp: paid_inv_def\<close>)
qed


section \<open>Time\<close>

lemma attempt_time:
  assumes "time_flows E"
  shows "wp (attempt E F rq ep v r) (\<lambda>_ w'. slept (trace w') = slept (trace w) \<and> clock w \<le> clock w')
     (\<lambda>_ w'. slept (trace w') = slept (trace w) \<and> clock w \<le> clock w') w"
proof -
  have steps: "slept (trace w') = slept (trace w) \<and> clock w \<le> clock w'"
    if "quiet_step w w1" "once_frame E F rq r w1 w2" "quiet_step w2 w'" for w1 w2 w'
  proof -
    have "0 \<le> snd (answers E F rq r w1)" using assms by (simp add: time_flows_def answers_def)
    then show ?thesis
      using quiet_stepD [OF that(1)] once_frameD [OF that(2)] quiet_stepD [OF that(3)] by simp
  qed
  show ?thesis
  proof (rule wp_mono [OF attempt_post], goal_cases)
    case (1 fl w')
    then show ?case using steps quiet_stepD [of w w'] by (cases "r \<le> 0") auto
  next
    case (2 e w')
    then show ?case using steps by blast
  qed
qed

lemma later_reading: "0 \<le> s \<Longrightarrow> 0 \<le> t \<Longrightarrow> dl - (c + s + t) \<le> max r (dl - (c :: rat))"
  by (simp add: le_max_iff_disj)

lemma gate_time:
  assumes "time_flows E"
  shows "wp (retry_gate E F a ep dl backoff v r)
     (\<lambda>g w'. clock w - slept (trace w) \<le> clock w' - slept (trace w') \<and> clock w \<le> clock w'
        \<and> slept (trace w') \<le> slept (trace w) + max 0 r
        \<and> (\<forall>v' r'. g = Proceed v' r' \<longrightarrow> r' \<le> max r (dl - clock w)))
     (\<lambda>_ w'. clock w - slept (trace w) \<le> clock w' - slept (trace w') \<and> clock w \<le> clock w'
        \<and> slept (trace w') \<le> slept (trace w) + max 0 r) w"
proof -
  have step: "0 \<le> time_step E n" for n using assms by (simp add: time_flows_def)
  then show ?thesis
    unfolding retry_gate_def skip_decision_def jitter_delay_def Let_def
    by (auto simp: wp_simps add_increasing2 split: option.split intro!: later_reading)
qed

lemma gate_extends:
  "wp (retry_gate E F a ep dl backoff v r) (\<lambda>_ w'. extends (fetch_event ep rq limit) w w')
     (\<lambda>_ w'. extends (fetch_event ep rq limit) w w') w"
  using effect_gate [of ep rq limit E F a dl backoff v r] by (simp add: wp_effect)

text \<open>
  The state at the start of the loop is \<open>w0\<close>; the clock has not gone back, the sleeps fit between
  the start and the clock and do not exceed the total timeout, and everything sent was in time.
\<close>

definition in_time :: "fetch_settings \<Rightarrow> rat \<Rightarrow> bool" where
  "in_time F t \<longleftrightarrow> t \<le> fetch_timeout F \<and> t \<le> fetch_total_timeout F \<and> (0 < fetch_timeout F \<longrightarrow> 0 < t)"

definition time_inv :: "fetch_settings \<Rightarrow> string \<Rightarrow> http_request \<Rightarrow> world \<Rightarrow> world \<Rightarrow> bool" where
  "time_inv F ep rq w0 w \<longleftrightarrow> clock w0 \<le> clock w
     \<and> clock w0 - slept (trace w0) \<le> clock w - slept (trace w)
     \<and> slept (trace w) \<le> slept (trace w0) + max 0 (fetch_total_timeout F)
     \<and> extends (fetch_event ep rq (in_time F)) w0 w"

lemma body_time:
  assumes flows: "time_flows E" and inv: "time_inv F ep rq w0 w"
    and dl: "dl = clock w0 + fetch_total_timeout F"
  shows "wp (loop_body E F a rq ep dl i v) (\<lambda>_. time_inv F ep rq w0) (\<lambda>_. time_inv F ep rq w0) w"
proof -
  let ?now = "clock w + time_step E (ticks w)"
  let ?w = "w\<lparr>clock := ?now, ticks := Suc (ticks w)\<rparr>"
  let ?r = "dl - ?now"
  have step: "0 \<le> time_step E n" for n using flows by (simp add: time_flows_def)
  have ext: "extends (fetch_event ep rq (in_time F)) w0 ?w" using inv by (auto simp: time_inv_def extends_def)
  have trans: "extends P w0 x" if "extends P w0 ?w" "extends P ?w x" for P x
    using extends_trans [of P] that by (rule transpD)
  let ?T = "\<lambda>w'. clock ?w - slept (trace ?w) \<le> clock w' - slept (trace w') \<and> clock ?w \<le> clock w'
     \<and> slept (trace w') \<le> slept (trace ?w) + max 0 ?r \<and> extends (fetch_event ep rq (in_time F)) ?w w'"
  have T: "time_inv F ep rq w0 w'" if "?T w'" for w'
    using that inv step [of "ticks w"] trans [OF ext, of w'] unfolding time_inv_def dl
    by (auto simp: max_def split: if_splits)
  note gate = wp_conj [OF gate_time [OF flows] gate_extends,
      of F a ep dl "(2 ^ i - 1) * fetch_backoff_factor F" v ?r ?w rq "in_time F"]
  show ?thesis
  proof (rule body_rule [where G = "\<lambda>g w'. ?T w' \<and> (\<forall>v' r'. g = Proceed v' r' \<longrightarrow> r' \<le> ?r)"], goal_cases)
    case 1
    show ?case by (rule wp_mono [OF gate]) (auto intro: T)
  next
    case (2 v' w')
    then show ?case by (auto intro: T)
  next
    case (3 v' r w')
    then have r: "r \<le> ?r" and inv': "time_inv F ep rq w0 w'" using T by auto
    have "r \<le> fetch_total_timeout F" using r inv step [of "ticks w"] by (simp add: dl time_inv_def)
    then have "effect_within (extends (fetch_event ep rq (in_time F))) (attempt E F rq ep v' r)"
      by (intro effect_attempt) (auto simp: in_time_def)
    then have "wp (attempt E F rq ep v' r) (\<lambda>_. extends (fetch_event ep rq (in_time F)) w')
        (\<lambda>_. extends (fetch_event ep rq (in_time F)) w') w'"
      by (simp add: wp_effect)
    from wp_conj [OF this attempt_time [OF flows]] show ?case
      by (rule wp_mono)
        (use inv' in \<open>auto simp: time_inv_def intro: transpD [OF extends_trans]\<close>)
  qed
qed

lemma loop_time:
  assumes "time_flows E" and "limit = clock w + fetch_total_timeout F"
  shows "wp (fetch_loop n E F a rq ep limit 0
        \<lparr> v_result = x, v_status = None, v_retry = 0, v_completed = 0, v_pending = None \<rparr>)
      (\<lambda>_. time_inv F ep rq w) (\<lambda>_. time_inv F ep rq w) w"
  unfolding assms(2)
proof (rule fetch_loop_rule [where I = "\<lambda>_ _ _. time_inv F ep rq w"], goal_cases)
  case (1 n i v y)
  show ?case
    by (rule wp_mono [OF body_time [OF assms(1) 1]]) (auto split: flow.split)
next
  case (2 i v y)
  then show ?case
    by (auto simp: wp_simps skip_decision_def time_inv_def extends_def split: option.split)
next
  case 3
  then show ?case using extends_refl [of "fetch_event ep rq (in_time F)"]
    by (simp add: time_inv_def reflp_def)
qed


section \<open>Where a result comes from\<close>

definition server_error_body :: "json \<Rightarrow> bool" where
  "server_error_body v \<longleftrightarrow>
     (\<exists>d. v = JObj [(''error'', JStr ''server_error''), (''error_description'', d)])"

text \<open>The provider gave this body with a status that is not retried.\<close>

definition provider_answered :: "env \<Rightarrow> fetch_settings \<Rightarrow> http_request \<Rightarrow> json \<Rightarrow> bool" where
  "provider_answered E F rq u \<longleftrightarrow> (\<exists>n t resp s. fst (upstream E n rq t) = Responded resp
     \<and> HTTPStatus (rs_status_code resp) = Inr s \<and> s \<notin> set (fetch_retry_status_codes F)
     \<and> decode F resp = Inr u)"

definition value_inv :: "env \<Rightarrow> fetch_settings \<Rightarrow> http_request \<Rightarrow> fetch_vars \<Rightarrow> bool" where
  "value_inv E F rq v \<longleftrightarrow> 0 \<le> v_retry v \<and> (server_error_body (v_result v)
     \<or> temporarily_unavailable_body (v_result v) \<or> provider_answered E F rq (v_result v))"

lemma initial_server_error: "initial_result = Inr x \<Longrightarrow> server_error_body x"
  by (auto simp: initial_result_def server_error_body_def dest!: error_json_obj)

lemma concluded_value:
  assumes "concluded F (v\<lparr>v_result := result, v_status := status, v_retry := retry\<rparr>) fl"
    and "answer_of F (fst (answers E F rq r w)) result status" and "0 \<le> retry"
  shows "case fl of Continue v' \<Rightarrow> value_inv E F rq v' | Break v' \<Rightarrow> value_inv E F rq v'"
proof -
  have "server_error_body result \<or> provider_answered E F rq result"
    if nr: "\<not> retryable_status F status"
  proof (cases "fst (answers E F rq r w)")
    case (Responded resp)
    with assms(2) nr show ?thesis
      unfolding answer_of_def provider_answered_def answers_def retryable_status_def by fastforce
  next
    case (Failed e x)
    with assms(2) show ?thesis by (auto simp: answer_of_def server_error_body_def)
  qed
  with assms show ?thesis by (auto simp: concluded_def value_inv_def split: flow.split)
qed

lemma body_value:
  assumes "value_inv E F rq v"
  shows "wp (loop_body E F a rq ep dl i v)
     (\<lambda>fl _. case fl of Continue v' \<Rightarrow> value_inv E F rq v' | Break v' \<Rightarrow> value_inv E F rq v')
     (\<lambda>_ _. True) w"
proof (rule body_rule [where G = "\<lambda>g _. gate_passed v g"], goal_cases)
  case 1
  show ?case by (rule gate_value)
next
  case (2 v' w')
  then show ?case using assms by (simp add: gate_passed_def)
next
  case (3 v' r w')
  then have inv: "value_inv E F rq v'" using assms by (simp add: gate_passed_def value_inv_def)
  show ?case
  proof (rule wp_mono [OF attempt_post], goal_cases)
    case (1 fl w'')
    then show ?case using inv concluded_value by (cases "r \<le> 0") (simp, metis)
  qed simp
qed

text \<open>A result is the body it comes from, or that body with a \<open>retry_after\<close> added to its error.\<close>

definition annotated :: "json \<Rightarrow> json \<Rightarrow> bool" where
  "annotated u v \<longleftrightarrow> v = u \<or> (\<exists>d s. u = JObj d \<and> dict_has d ''error'' \<and> 0 < s
     \<and> v = JObj (AList.update ''retry_after'' (JInt s) d))"

lemma annotated_refl [simp]: "annotated u u"
  by (simp add: annotated_def)

lemma annotated_error:
  "annotated u (JObj d') \<Longrightarrow> \<exists>d. u = JObj d \<and> map_of d' ''error'' = map_of d ''error''"
  by (auto simp: annotated_def update_conv)

lemma finish_value:
  assumes "0 \<le> v_retry v"
  shows "wp (finish_fetch E ep v) (\<lambda>r _. annotated (v_result v) r \<and> is_obj r) (\<lambda>_ _. True) w"
proof (cases "v_result v")
  case (JObj d)
  have "annotated (JObj d) (JObj (AList.update ''retry_after'' (JInt (v_retry v)) d))"
    if "dict_has d ''error''" "v_retry v \<noteq> 0"
  proof -
    have "0 < v_retry v" using assms that by simp
    with that show ?thesis unfolding annotated_def by blast
  qed
  then show ?thesis
    unfolding finish_fetch_def Let_def by (auto simp: wp_simps JObj)
qed (simp_all add: finish_fetch_def Let_def wp_simps py_get_def)

lemma fetch_source_rule:
  "wp (fetch E F uri ep auth data) (\<lambda>v _. is_obj v \<and> (\<exists>u. annotated u v
      \<and> (server_error_body u \<or> temporarily_unavailable_body u
        \<or> provider_answered E F \<lparr> rq_uri = uri, rq_auth = auth, rq_data = data \<rparr> u))) (\<lambda>_ _. True) w"
proof (rule fetch_rule [where J = "\<lambda>v _. value_inv E F \<lparr> rq_uri = uri, rq_auth = auth, rq_data = data \<rparr> v"],
    unfold Let_def, goal_cases)
  case (1 a h x)
  show ?case
  proof (rule fetch_loop_rule [where
        I = "\<lambda>_ _ v _. value_inv E F \<lparr> rq_uri = uri, rq_auth = auth, rq_data = data \<rparr> v"], goal_cases)
    case (1 n i v y)
    then show ?case by (rule body_value)
  next
    case (2 i v y)
    then show ?case by (simp add: wp_simps skip_decision_def split: option.split)
  next
    case 3
    show ?case using initial_server_error [OF \<open>initial_result = Inr x\<close>] by (simp add: value_inv_def)
  qed
next
  case (2 v w')
  then have r: "0 \<le> v_retry v" by (auto simp: value_inv_def)
  show ?case by (rule wp_mono [OF finish_value [OF r]]) (use 2 in \<open>auto simp: value_inv_def\<close>)
qed

text \<open>
  C29. What a fetch returns is never made up: it is an object, and apart from a \<open>retry_after\<close> added
  to an error it is a \<open>server_error\<close> or \<open>temporarily_unavailable\<close> error of the bridge itself, or
  a body that the provider gave to exactly this request with a status that is not retried.
\<close>
theorem fetch_result_source:
  assumes "fetch E F uri ep auth data w = (Inr v, w')"
  shows "is_obj v \<and> (\<exists>u. annotated u v \<and> (server_error_body u \<or> temporarily_unavailable_body u
    \<or> provider_answered E F \<lparr> rq_uri = uri, rq_auth = auth, rq_data = data \<rparr> u))"
  using wp_Inr [OF fetch_source_rule assms] .

section \<open>Instances\<close>

text \<open>A provider that fails once and then hands out a token.\<close>

definition flaky_env :: env where
  "flaky_env = sample_env\<lparr>upstream := (\<lambda>n _ _.
     if n < 4 then answering 503 (JObj []) else answering 200 sample_token)\<rparr>"

definition flaky_fetch :: "json res \<times> world" where
  "flaky_fetch = fetch flaky_env fetch_defaults ''https://p/token'' ''token'' None [] initial_world"

lemma flaky_run:
  "(fst flaky_fetch, sent (trace (snd flaky_fetch)), granted (trace (snd flaky_fetch)),
    slept (trace (snd flaky_fetch))) = (Inr sample_token, 2, 1, 1 / 10)"
  by code_simp



theorem fetch_result_source_witness:
  "\<exists>u. annotated u sample_token \<and> (server_error_body u \<or> temporarily_unavailable_body u
    \<or> provider_answered flaky_env fetch_defaults
        \<lparr> rq_uri = ''https://p/token'', rq_auth = None, rq_data = [] \<rparr> u)"
proof -
  have run: "fetch flaky_env fetch_defaults ''https://p/token'' ''token'' None [] initial_world
      = (Inr sample_token, snd flaky_fetch)"
    using flaky_run by (simp add: flaky_fetch_def prod_eq_iff)
  show ?thesis using fetch_result_source [OF run] by blast
qed

end
