(* ===== verification/Fetch_Liveness.thy ===== *)
theory Fetch_Liveness
  imports Fetch_Guarantees
begin

text \<open>
  When a fetch returns: with a provider that keeps to HTTP and JSON objects no exception leaves
  \<open>fetch\<close>, and a conclusive first answer is returned at once.  The last section shows what happens
  outside these conditions.
\<close>

section \<open>Providers that keep to the protocol\<close>

text \<open>
  Registered status codes, bodies that are JSON objects or no JSON at all, error codes that are
  texts, a \<open>Retry-After\<close> of bounded length, and transport failures without a response.
\<close>

definition answer_ok :: "send_outcome \<Rightarrow> bool" where
  "answer_ok out \<longleftrightarrow> (case out of
     Failed e r \<Rightarrow> e \<noteq> HTTPError \<and> r = None
   | Responded resp \<Rightarrow> (\<exists>s. HTTPStatus (rs_status_code resp) = Inr s)
       \<and> (case rs_json resp of None \<Rightarrow> True
          | Some v \<Rightarrow> \<exists>d. v = JObj d \<and> (\<forall>e. map_of d ''error'' = Some e \<longrightarrow> (\<exists>t. e = JStr t)))
       \<and> (case rs_retry_after resp of None \<Rightarrow> True | Some t \<Rightarrow> length t \<le> 4300))"

definition well_behaved :: "env \<Rightarrow> bool" where
  "well_behaved E \<longleftrightarrow> random_ok E \<and> (\<forall>n rq t. answer_ok (fst (upstream E n rq t)))"

definition jitter_ok :: "fetch_settings \<Rightarrow> bool" where
  "jitter_ok F \<longleftrightarrow> 0 \<le> fetch_backoff_jitter_min F \<and> fetch_backoff_jitter_min F \<le> fetch_backoff_jitter_max F"

text \<open>A body the classification handles without raising.\<close>

definition plain_object :: "json \<Rightarrow> bool" where
  "plain_object v \<longleftrightarrow> (\<exists>d. v = JObj d \<and> (\<forall>e. map_of d ''error'' = Some e \<longrightarrow> (\<exists>t. e = JStr t)))"

lemma length_strip: "length (strip s) \<le> length s"
  unfolding strip_def
  by (metis length_dropWhile_le length_rev order_trans)

lemma parse_retry_returns:
  assumes "case v of None \<Rightarrow> True | Some t \<Rightarrow> length t \<le> 4300"
    and "\<And>s n. 0 \<le> s \<Longrightarrow> Q s (w\<lparr>ticks := n\<rparr>)"
  shows "wp (parse_retry E v) Q X w"
proof -
  have "0 \<le> s \<Longrightarrow> Q s w" for s using assms(2) [of s "ticks w"] by simp
  moreover have "\<And>t. length t \<le> 4300 \<Longrightarrow> length (strip t) \<le> 4300"
    using length_strip order_trans by blast
  ultimately show ?thesis using assms
    by (auto simp: parse_retry_def wp_simps int_of_digits_def split: option.splits)
qed

lemma error_json_server:
  "t \<noteq> [] \<Longrightarrow> error_json e (JStr t) =
     Inr (JObj [(''error'', JStr (error_value e)), (''error_description'', JStr t)])"
  by (simp add: error_json_def or_description_def)

lemma decode_plain:
  assumes "answer_ok (Responded resp)"
  shows "\<exists>v. decode F resp = Inr v \<and> plain_object v"
  using assms
  by (auto simp: answer_ok_def decode_def plain_object_def error_json_server split: option.splits)

lemma once_returns:
  assumes "answer_ok (fst (answers E F rq t w))"
  shows "wp (fetch_once E F rq t ep) (\<lambda>(result, status, retry) _. plain_object result \<and> 0 \<le> retry)
     (\<lambda>_ _. False) w"
proof (cases "fst (answers E F rq t w)")
  case (Responded resp)
  with assms obtain v s where "decode F resp = Inr v" "plain_object v"
      "HTTPStatus (rs_status_code resp) = Inr s"
      and short: "case rs_retry_after resp of None \<Rightarrow> True | Some t \<Rightarrow> length t \<le> 4300"
    using decode_plain [of resp F] by (auto simp: answer_ok_def)
  then show ?thesis
    unfolding fetch_once_def fetch_responded_def answers_def [symmetric]
    using Responded
    by (auto simp: wp_simps answers_def [symmetric] intro!: parse_retry_returns [OF short])
next
  case (Failed e r)
  have "snd (transport_failure e) \<noteq> []" by (cases e) simp_all
  with Failed assms show ?thesis
    unfolding fetch_once_def fetch_failed_def
    by (auto simp: wp_simps answers_def [symmetric] answer_ok_def case_prod_beta error_json_server
        plain_object_def)
qed

lemma outcome_returns:
  assumes "plain_object v"
  shows "\<exists>issue oc. token_endpoint_outcome lg status v codes types = Inr (issue, oc)"
proof -
  from assms obtain d where v: "v = JObj d"
    and e: "\<And>e. map_of d ''error'' = Some e \<Longrightarrow> \<exists>t. e = JStr t"
    by (auto simp: plain_object_def)
  obtain b where valid: "validate_token (JObj d) = Inr b" by (simp add: validate_token_obj)
  have norm: "\<exists>n. normalize_error (JStr s) al fb types = Inr n" for s al fb
    by (rule normalize_error_str_total)
  have "\<exists>oc. classify status v codes types = Inr oc"
  proof (cases status)
    case None
    then show ?thesis by (simp add: classify_def)
  next
    case (Some s)
    obtain n1 where "normalize_error (JStr (py_str (case map_of d ''error'' of None \<Rightarrow>
        JStr (error_value INVALID_REQUEST) | Some y \<Rightarrow> y))) TOKEN_ERRORS INVALID_REQUEST types = Inr n1"
      using norm by blast
    moreover obtain n2 where "normalize_error (JStr (py_str (the (map_of d ''error''))))
        TOKEN_ERRORS SERVER_ERROR types = Inr n2"
      using norm by blast
    ultimately show ?thesis
      using Some by (cases "map_of d ''error''")
        (auto simp: classify_def v valid dict_has_def)
  qed
  moreover have "\<exists>issue. unexpected_token_endpoint_issue status v codes = Inr issue"
    using e by (cases "map_of d ''error''")
      (auto simp: unexpected_token_endpoint_issue_def v valid split: option.split)
  ultimately show ?thesis by (auto simp: token_endpoint_outcome_def)
qed

definition returning :: "fetch_vars \<Rightarrow> bool" where
  "returning v \<longleftrightarrow> 0 \<le> v_retry v \<and> is_obj (v_result v)"

lemma conclude_returns:
  assumes "plain_object (v_result v)" and "0 \<le> v_retry v"
  shows "wp (conclude_attempt F ep v)
     (\<lambda>fl _. case fl of Continue v' \<Rightarrow> returning v' | Break v' \<Rightarrow> returning v') (\<lambda>_ _. False) w"
proof -
  obtain issue oc where out: "token_endpoint_outcome True (v_status v) (v_result v)
      (fetch_retry_status_codes F) (fetch_error_types F) = Inr (issue, oc)"
    using outcome_returns [OF assms(1)] by blast
  obtain d where d: "v_result v = JObj d" using assms(1) by (auto simp: plain_object_def)
  have tu: "normalized_error oc = Some TEMPORARILY_UNAVAILABLE" if "retryable oc"
    using out that classify_retryable by (auto simp: token_endpoint_outcome_def bindR_eq_Inr)
  define given where "given = (case map_of d ''error_description'' of None \<Rightarrow> JNull | Some y \<Rightarrow> y)"
  obtain u where u: "error_json TEMPORARILY_UNAVAILABLE given = Inr (JObj u)"
    by (cases "truthy given") (simp_all add: error_json_def or_description_def error_description_def)
  show ?thesis
  proof (cases "retryable oc")
    case True
    then show ?thesis
      unfolding conclude_attempt_def Let_def
      using assms(2) by (simp add: wp_simps out [unfolded d] d given_def [symmetric] tu u returning_def split: option.split)
  next
    case False
    then show ?thesis
      unfolding conclude_attempt_def Let_def
      using assms(2) by (simp add: wp_simps out [unfolded d] d returning_def split: option.split)
  qed
qed

lemma uniform_nonneg:
  assumes "0 \<le> l" "0 \<le> m" "0 \<le> u" "u < 1"
  shows "0 \<le> l + (m - l) * (u :: rat)"
proof -
  have "l + (m - l) * u = l * (1 - u) + m * u" by (simp add: algebra_simps)
  then show ?thesis using assms by simp
qed

lemma gate_returns:
  assumes "random_ok E" "jitter_ok F" and v: "returning v"
  shows "wp (retry_gate E F a ep dl backoff v r)
     (\<lambda>g _. case g of Proceed v' _ \<Rightarrow> returning v' | Halt v' \<Rightarrow> returning v') (\<lambda>_ _. False) w"
proof -
  have m: "0 \<le> fetch_backoff_jitter_min F" "0 \<le> fetch_backoff_jitter_max F"
    using assms(2) by (auto simp: jitter_ok_def)
  have u: "0 \<le> l + (fetch_backoff_jitter_max F - l) * random01 E n" if "0 \<le> l" for l n
    using that m(2) assms(1) by (intro uniform_nonneg) (auto simp: random_ok_def)
  have r: "0 \<le> v_retry v" "is_obj (v_result v)" using v by (auto simp: returning_def)
  show ?thesis
  proof (cases "v_pending v")
    case None
    then show ?thesis using v by (simp add: retry_gate_def wp_simps)
  next
    case (Some dec)
    show ?thesis
      unfolding retry_gate_def skip_decision_def jitter_delay_def Let_def
      using Some r u [OF m(1), THEN leD]
      by (auto simp: wp_simps returning_def mult_less_0_iff)
  qed
qed

lemma attempt_returns:
  assumes "well_behaved E" "returning v"
  shows "wp (attempt E F rq ep v r)
     (\<lambda>fl _. case fl of Continue v' \<Rightarrow> returning v' | Break v' \<Rightarrow> returning v') (\<lambda>_ _. False) w"
proof -
  have ok: "answer_ok (fst (answers E F rq r x))" for x
    using assms(1) by (simp add: well_behaved_def answers_def)
  have "wp (seqA (fetch_once E F rq r ep) (\<lambda>(result, status, retry). conclude_attempt F ep
        (v\<lparr>v_result := result, v_status := status, v_retry := retry\<rparr>)))
     (\<lambda>fl _. case fl of Continue v' \<Rightarrow> returning v' | Break v' \<Rightarrow> returning v') (\<lambda>_ _. False) x" for x
    unfolding wp_simps
    by (rule wp_mono [OF once_returns [OF ok]]) (auto intro!: conclude_returns)
  then show ?thesis
    unfolding attempt_def skip_decision_def using assms(2) by (simp add: wp_simps)
qed

lemma body_returns:
  assumes "well_behaved E" "jitter_ok F" "returning v"
  shows "wp (loop_body E F a rq ep dl i v)
     (\<lambda>fl _. case fl of Continue v' \<Rightarrow> returning v' | Break v' \<Rightarrow> returning v') (\<lambda>_ _. False) w"
proof (rule body_rule [OF gate_returns])
  show "random_ok E" using assms(1) by (simp add: well_behaved_def)
qed (use assms in \<open>auto intro: attempt_returns\<close>)

text \<open>
  C30. With a provider that keeps to the protocol and a non-negative jitter range, a fetch always
  returns a result, and that result is an object.
\<close>
theorem fetch_returns:
  assumes "well_behaved E" and "jitter_ok F"
  shows "\<exists>d w'. fetch E F uri ep auth data w = (Inr (JObj d), w')"
proof -
  have "wp (fetch E F uri ep auth data) (\<lambda>v _. is_obj v) (\<lambda>_ _. False) w"
  proof (rule fetch_rule [where J = "\<lambda>v _. returning v"], unfold Let_def, goal_cases)
    case (1 a h x)
    then have x: "is_obj x" by (auto simp: server_error_body_def dest!: initial_server_error)
    show ?case
    proof (rule fetch_loop_rule [where I = "\<lambda>_ _ v _. returning v"], goal_cases)
      case (1 n i v y)
      with assms show ?case by (intro body_returns)
    next
      case (2 i v y)
      then show ?case by (simp add: wp_simps skip_decision_def split: option.split)
    qed (simp add: returning_def x)
  next
    case (2 v w')
    then obtain d where "v_result v = JObj d" by (auto simp: returning_def elim: is_objE)
    then show ?case
      unfolding finish_fetch_def Let_def by (simp add: wp_simps)
  qed
  then show ?thesis
    by (auto simp: wp_def split: prod.splits sum.splits elim: is_objE)
qed

lemma flaky_well_behaved: "well_behaved flaky_env"
  by (auto simp: well_behaved_def random_ok_def flaky_env_def sample_env_def answering_def answer_ok_def
      sample_token_def HTTPStatus_def status_codes_def)

theorem fetch_returns_witness:
  "\<exists>d w'. fetch flaky_env fetch_defaults ''https://p/token'' ''refresh'' None [] initial_world
     = (Inr (JObj d), w')"
proof -
  have "jitter_ok fetch_defaults" by (simp add: jitter_ok_def fetch_defaults_def)
  with flaky_well_behaved show ?thesis by (rule fetch_returns)
qed

section \<open>A conclusive first answer\<close>

lemma conclusive_run:
  assumes "0 \<le> fetch_total_retries F"
    and "time_step E (ticks w + 2) < fetch_total_timeout F"
    and "fst (upstream E (ticks w + 3) \<lparr> rq_uri = uri, rq_auth = auth, rq_data = data \<rparr>
        (min (fetch_timeout F) (fetch_total_timeout F - time_step E (ticks w + 2)))) = Responded resp"
    and "HTTPStatus (rs_status_code resp) = Inr s" and "s \<notin> set (fetch_retry_status_codes F)"
    and "rs_json resp = Some v" and "plain_object v" and "rs_retry_after resp = None"
  shows "wp (fetch E F uri ep auth data) (\<lambda>r w'. r = v \<and> sent (trace w') = Suc (sent (trace w))
      \<and> slept (trace w') = slept (trace w) \<and> db w' = db w) (\<lambda>_ _. False) w"
proof -
  obtain n where n: "nat (fetch_total_retries F + 1) = Suc n"
    using assms(1) by (metis Suc_nat_eq_nat_zadd1 add.commute)
  obtain a h where g: "get_retry_limiter (fetch_retry_budget_capacity F)
        (fetch_retry_budget_refill_per_initial F) (budgets w) = (a, h)"
    by (cases "get_retry_limiter (fetch_retry_budget_capacity F)
        (fetch_retry_budget_refill_per_initial F) (budgets w)")
  obtain issue oc where out: "token_endpoint_outcome True (Some s) v
      (fetch_retry_status_codes F) (fetch_error_types F) = Inr (issue, oc)"
    using outcome_returns [OF assms(7)] by blast
  have nr: "\<not> retryable oc"
    using out assms(5) classify_retryable_iff by (fastforce simp: token_endpoint_outcome_def bindR_eq_Inr)
  obtain x where x: "initial_result = Inr x"
    by (simp add: initial_result_def error_json_def or_description_def)
  obtain d where d: "v = JObj d" using assms(7) by (auto simp: plain_object_def)
  have dec: "decode F resp = Inr v" using assms(6) by (simp add: decode_def)
  have acq: "wp (acquire_budget F) Q X u = Q a (u\<lparr>budgets := limiter_add a
        (fetch_retry_budget_refill_per_initial F) h,
      trace := trace u @ [BudgetAdded (fetch_retry_budget_refill_per_initial F)]\<rparr>)"
    if "budgets u = budgets w" for Q X u
    using g that by (simp add: wp_def acquire_budget_run)
  show ?thesis
    unfolding fetch_def Let_def n fetch_loop.simps loop_body_def retry_gate_def attempt_def
      fetch_once_def fetch_responded_def conclude_attempt_def finish_fetch_def parse_retry_def
    using assms(2,3) out nr d
    by (simp add: wp_simps x dec assms(4,5,8) acq eval_nat_numeral split: option.split)
qed


definition steady_env :: "int \<Rightarrow> json \<Rightarrow> env" where
  "steady_env status body = sample_env\<lparr>upstream := (\<lambda>_ _ _. answering status body)\<rparr>"

lemma steady_fetch:
  assumes "HTTPStatus status = Inr s" and "s \<notin> set (fetch_retry_status_codes F)" and "plain_object body"
    and "0 \<le> fetch_total_retries F" and "0 < fetch_total_timeout F"
  shows "\<exists>w'. fetch (steady_env status body) F uri ep auth data w = (Inr body, w') \<and> db w' = db w"
  using conclusive_run [of F "steady_env status body" w uri auth data
      "\<lparr> rs_status_code = status, rs_json = Some body, rs_length = 0, rs_retry_after = None \<rparr>" s body ep] assms
  by (auto simp: wp_def steady_env_def sample_env_def answering_def split: prod.splits sum.splits)


section \<open>Outside these conditions\<close>

text \<open>
  With a zero backoff factor and no \<open>Retry-After\<close> the wait before a retry is not positive, and the
  gate skips the budget together with the wait: four requests are sent, none of them is paid for,
  although the budget is empty.  So the hypothesis of \<open>fetch_retries_paid\<close> is needed, and the
  claim of \<open>oauth/_retry.py\<close> that each retry consumes a token does not hold for this setting.
\<close>

lemma zero_backoff_bypasses_budget:
  "let F = fetch_defaults\<lparr>fetch_backoff_factor := 0, fetch_retry_budget_capacity := 0\<rparr>;
       t = trace (snd (fetch (steady_env 503 (JObj [])) F ''https://p/token'' ''token'' None [] initial_world))
   in sent t = 4 \<and> granted t = 0"
  by code_simp

text \<open>A status code that \<open>HTTPStatus\<close> does not know, and a body that is not an object, raise.\<close>

lemma unregistered_status_raises:
  "fst (fetch (steady_env 520 (JObj [])) fetch_defaults ''https://p/token'' ''token'' None [] initial_world)
     = Inl ValueError"
  by code_simp

lemma array_body_raises:
  "fst (fetch (steady_env 200 (JArr [])) fetch_defaults ''https://p/token'' ''token'' None [] initial_world)
     = Inl AttributeError"
  by code_simp

end
