(* ===== verification/Json_Text.thy ===== *)
theory Json_Text
  imports Bridge_Prelude
begin

text \<open>
  The part of the \<open>json\<close> module and of the UTF-8 codec that \<open>crypto.py\<close> uses: \<open>json.dumps\<close> with
  its defaults (ASCII output, separators \<open>', '\<close> and \<open>': '\<close>) and \<open>json.loads\<close>, with the round trip.

  The decoder is a recursive descent with fuel: every two nested calls consume a character, so
  \<open>2 * length + 2\<close> is enough.  A float literal is read by the argument \<open>fl\<close>, which gives the
  \<open>repr\<close> of its value.  An escape of a code point above 255 is outside the string model, and is
  refused here.
\<close>

section \<open>Encoding\<close>

definition esc :: "string \<Rightarrow> string" where
  "esc s = CHR 0x5C # s"

definition json_char :: "char \<Rightarrow> string" where
  "json_char c = (let n = (of_char c :: nat) in
     if n = 34 then esc [CHR 0x22] else if n = 92 then esc [CHR 0x5C]
     else if n = 10 then esc ''n'' else if n = 13 then esc ''r'' else if n = 9 then esc ''t''
     else if n = 12 then esc ''f'' else if n = 8 then esc ''b''
     else if n < 32 \<or> 127 \<le> n then esc (''u00'' @ hex2 n)
     else [c])"

definition json_str :: "string \<Rightarrow> string" where
  "json_str s = CHR 0x22 # concat (map json_char s) @ [CHR 0x22]"

definition json_float :: "string \<Rightarrow> string" where
  "json_float s = (if s = ''nan'' then ''NaN'' else if s = ''inf'' then ''Infinity''
     else if s = ''-inf'' then ''-Infinity'' else s)"

fun json_dumps :: "json \<Rightarrow> string" where
  "json_dumps JNull = ''null''"
| "json_dumps (JBool b) = (if b then ''true'' else ''false'')"
| "json_dumps (JInt i) = int_str i"
| "json_dumps (JFloat s) = json_float s"
| "json_dumps (JStr s) = json_str s"
| "json_dumps (JArr xs) = ''['' @ comma_sep (map json_dumps xs) @ '']''"
| "json_dumps (JObj d) =
     ''{'' @ comma_sep (map (\<lambda>kv. json_str (fst kv) @ '': '' @ json_dumps (snd kv)) d) @ ''}''"

section \<open>Decoding\<close>

definition is_json_ws :: "char \<Rightarrow> bool" where
  "is_json_ws c \<longleftrightarrow> (of_char c :: nat) \<in> {32, 9, 10, 13}"

definition skip_ws :: "string \<Rightarrow> string" where
  "skip_ws s = dropWhile is_json_ws s"

definition hex_digit_val :: "char \<Rightarrow> nat option" where
  "hex_digit_val c = (let n = (of_char c :: nat) in
     if 48 \<le> n \<and> n \<le> 57 then Some (n - 48)
     else if 97 \<le> n \<and> n \<le> 102 then Some (n - 87)
     else if 65 \<le> n \<and> n \<le> 70 then Some (n - 55) else None)"

fun hex_value :: "nat \<Rightarrow> string \<Rightarrow> nat option" where
  "hex_value acc [] = Some acc"
| "hex_value acc (c # cs) = (case hex_digit_val c of None \<Rightarrow> None | Some d \<Rightarrow> hex_value (16 * acc + d) cs)"

definition unescape :: "char \<Rightarrow> char option" where
  "unescape c = map_of [(CHR 0x22, CHR 0x22), (CHR 0x5C, CHR 0x5C), (CHR 0x2F, CHR 0x2F),
     (CHR ''b'', CHR 0x08), (CHR ''f'', CHR 0x0C), (CHR ''n'', CHR 0x0A), (CHR ''r'', CHR 0x0D),
     (CHR ''t'', CHR 0x09)] c"

definition cons_fst :: "'a \<Rightarrow> ('a list \<times> 'b) option \<Rightarrow> ('a list \<times> 'b) option" where
  "cons_fst x r = map_option (\<lambda>(xs, t). (x # xs, t)) r"

text \<open>The text after the opening quote, up to the closing one; control characters are refused.\<close>

fun scan_string :: "string \<Rightarrow> (string \<times> string) option" where
  "scan_string [] = None"
| "scan_string (c # cs) =
     (if c = CHR 0x22 then Some ([], cs)
      else if c = CHR 0x5C then
        (case cs of
           [] \<Rightarrow> None
         | e # es \<Rightarrow>
             if e = CHR ''u'' then
               (case es of
                  h1 # h2 # h3 # h4 # r \<Rightarrow>
                    (case hex_value 0 [h1, h2, h3, h4] of
                       None \<Rightarrow> None
                     | Some n \<Rightarrow> if n < 256 then cons_fst (char_of n) (scan_string r) else None)
                | _ \<Rightarrow> None)
             else (case unescape e of None \<Rightarrow> None | Some x \<Rightarrow> cons_fst x (scan_string es)))
      else if (of_char c :: nat) < 32 then None
      else cons_fst c (scan_string cs))"

text \<open>The longest prefix that is a number: sign, integer part, fraction, exponent.\<close>

definition split_int :: "string \<Rightarrow> (string \<times> string) option" where
  "split_int s =
     (let neg = (case s of [] \<Rightarrow> False | c # _ \<Rightarrow> c = CHR ''-'');
          sign = (if neg then ''-'' else []);
          t = (if neg then tl s else s)
      in case t of
           [] \<Rightarrow> None
         | c # cs \<Rightarrow> if c = CHR ''0'' then Some (sign @ ''0'', cs)
                     else if is_digit c then Some (sign @ takeWhile is_digit t, dropWhile is_digit t)
                     else None)"

definition split_frac :: "string \<Rightarrow> string \<times> string" where
  "split_frac s = (case s of
     c # d # cs \<Rightarrow> if c = CHR ''.'' \<and> is_digit d
                   then (c # takeWhile is_digit (d # cs), dropWhile is_digit (d # cs)) else ([], s)
   | _ \<Rightarrow> ([], s))"

definition split_exp :: "string \<Rightarrow> string \<times> string" where
  "split_exp s = (case s of
     [] \<Rightarrow> ([], s)
   | c # cs \<Rightarrow>
       if c = CHR ''e'' \<or> c = CHR ''E'' then
         (let sg = (case cs of [] \<Rightarrow> [] | d # _ \<Rightarrow> if d = CHR ''+'' \<or> d = CHR ''-'' then [d] else []);
              t = drop (length sg) cs
          in if takeWhile is_digit t \<noteq> [] then (c # sg @ takeWhile is_digit t, dropWhile is_digit t)
             else ([], s))
       else ([], s))"

definition int_literal :: "string \<Rightarrow> int res" where
  "int_literal s = (case s of
     [] \<Rightarrow> Inl ValueError
   | c # cs \<Rightarrow> if c = CHR ''-'' then bindR (int_of_digits cs) (\<lambda>i. Inr (- i)) else int_of_digits s)"

definition parse_number :: "(string \<Rightarrow> string) \<Rightarrow> string \<Rightarrow> (json \<times> string) option" where
  "parse_number fl s = (case split_int s of
     None \<Rightarrow> None
   | Some (whole, r) \<Rightarrow>
       (case split_frac r of (fr, r') \<Rightarrow>
       (case split_exp r' of (ex, r'') \<Rightarrow>
          if fr = [] \<and> ex = [] then
            (case int_literal whole of Inl _ \<Rightarrow> None | Inr i \<Rightarrow> Some (JInt i, r''))
          else Some (JFloat (fl (whole @ fr @ ex)), r''))))"

definition keyword :: "string \<Rightarrow> json \<Rightarrow> string \<Rightarrow> (json \<times> string) option" where
  "keyword k v s = (if take (length k) s = k then Some (v, drop (length k) s) else None)"

fun parse_value :: "(string \<Rightarrow> string) \<Rightarrow> nat \<Rightarrow> string \<Rightarrow> (json \<times> string) option"
  and parse_elems :: "(string \<Rightarrow> string) \<Rightarrow> nat \<Rightarrow> json list \<Rightarrow> string \<Rightarrow> (json \<times> string) option"
  and parse_members ::
    "(string \<Rightarrow> string) \<Rightarrow> nat \<Rightarrow> json dict \<Rightarrow> string \<Rightarrow> (json \<times> string) option" where
  "parse_value fl 0 s = None"
| "parse_value fl (Suc n) s = (case s of
     [] \<Rightarrow> None
   | c # cs \<Rightarrow>
       if c = CHR 0x22 then map_option (\<lambda>(t, r). (JStr t, r)) (scan_string cs)
       else if c = CHR 0x7B then
         (case skip_ws cs of
            [] \<Rightarrow> None
          | d # ds \<Rightarrow> if d = CHR 0x7D then Some (JObj [], ds) else parse_members fl n [] (d # ds))
       else if c = CHR ''['' then
         (case skip_ws cs of
            [] \<Rightarrow> None
          | d # ds \<Rightarrow> if d = CHR '']'' then Some (JArr [], ds) else parse_elems fl n [] (d # ds))
       else if c = CHR ''n'' then keyword ''null'' JNull s
       else if c = CHR ''t'' then keyword ''true'' (JBool True) s
       else if c = CHR ''f'' then keyword ''false'' (JBool False) s
       else if c = CHR ''N'' then keyword ''NaN'' (JFloat ''nan'') s
       else if c = CHR ''I'' then keyword ''Infinity'' (JFloat ''inf'') s
       else if take 2 s = ''-I'' then keyword ''-Infinity'' (JFloat ''-inf'') s
       else parse_number fl s)"
| "parse_elems fl 0 acc s = None"
| "parse_elems fl (Suc n) acc s = (case parse_value fl n s of
     None \<Rightarrow> None
   | Some (v, r) \<Rightarrow>
       (case skip_ws r of
          [] \<Rightarrow> None
        | d # ds \<Rightarrow> if d = CHR '','' then parse_elems fl n (acc @ [v]) (skip_ws ds)
                    else if d = CHR '']'' then Some (JArr (acc @ [v]), ds) else None))"
| "parse_members fl 0 acc s = None"
| "parse_members fl (Suc n) acc s = (case s of
     [] \<Rightarrow> None
   | q # qs \<Rightarrow>
       if q \<noteq> CHR 0x22 then None
       else (case scan_string qs of
          None \<Rightarrow> None
        | Some (k, r) \<Rightarrow>
            (case skip_ws r of
               [] \<Rightarrow> None
             | col # r1 \<Rightarrow>
                 if col \<noteq> CHR '':'' then None
                 else (case parse_value fl n (skip_ws r1) of
                    None \<Rightarrow> None
                  | Some (v, r2) \<Rightarrow>
                      (case skip_ws r2 of
                         [] \<Rightarrow> None
                       | d # ds \<Rightarrow>
                           if d = CHR '','' then parse_members fl n (AList.update k v acc) (skip_ws ds)
                           else if d = CHR 0x7D then Some (JObj (AList.update k v acc), ds)
                           else None)))))"

definition json_loads :: "(string \<Rightarrow> string) \<Rightarrow> string \<Rightarrow> json res" where
  "json_loads fl s = (case parse_value fl (2 * length s + 2) (skip_ws s) of
     None \<Rightarrow> Inl ValueError
   | Some (v, r) \<Rightarrow> if skip_ws r = [] then Inr v else Inl ValueError)"

section \<open>UTF-8\<close>

definition utf8_encode :: "string \<Rightarrow> string" where
  "utf8_encode s = concat (map (\<lambda>c. let n = (of_char c :: nat) in
     if n < 128 then [c] else [char_of (192 + n div 64), char_of (128 + n mod 64)]) s)"

text \<open>Sequences that are not UTF-8 are refused, and those for code points above 255 are too.\<close>

fun utf8_decode :: "string \<Rightarrow> string option" where
  "utf8_decode [] = Some []"
| "utf8_decode (c # cs) =
     (if (of_char c :: nat) < 128 then map_option ((#) c) (utf8_decode cs)
      else if (of_char c :: nat) = 194 \<or> (of_char c :: nat) = 195 then
        (case cs of
           [] \<Rightarrow> None
         | d # ds \<Rightarrow> if 128 \<le> (of_char d :: nat) \<and> (of_char d :: nat) < 192
                     then map_option ((#) (char_of ((of_char c - 192) * 64 + (of_char d - 128) :: nat)))
                            (utf8_decode ds)
                     else None)
      else None)"

section \<open>Round trip\<close>

text \<open>What follows a value in an encoded text.\<close>

definition delim :: "string \<Rightarrow> bool" where
  "delim rest \<longleftrightarrow> rest = [] \<or> hd rest \<in> {CHR '','', CHR '']'', CHR 0x7D}"

text \<open>The \<open>repr\<close> of a float: a decimal literal that reads as itself, or a special value.\<close>

definition digit_run :: "string \<Rightarrow> bool" where
  "digit_run s \<longleftrightarrow> s \<noteq> [] \<and> (\<forall>c \<in> set s. is_digit c)"

definition whole_lit :: "string \<Rightarrow> bool" where
  "whole_lit s \<longleftrightarrow> s = ''0'' \<or> digit_run s \<and> hd s \<noteq> CHR ''0''"

definition frac_lit :: "string \<Rightarrow> bool" where
  "frac_lit s \<longleftrightarrow> s = [] \<or> hd s = CHR ''.'' \<and> digit_run (tl s)"

definition exp_lit :: "string \<Rightarrow> bool" where
  "exp_lit s \<longleftrightarrow> s = [] \<or> hd s = CHR ''e'' \<and> (digit_run (tl s)
     \<or> (tl s \<noteq> [] \<and> (hd (tl s) = CHR ''+'' \<or> hd (tl s) = CHR ''-'') \<and> digit_run (tl (tl s))))"

definition float_ok :: "(string \<Rightarrow> string) \<Rightarrow> string \<Rightarrow> bool" where
  "float_ok fl s \<longleftrightarrow> s = ''nan'' \<or> s = ''inf'' \<or> s = ''-inf''
     \<or> fl s = s \<and> (\<exists>neg whole fr ex. s = (if neg then ''-'' else []) @ whole @ fr @ ex
          \<and> whole_lit whole \<and> frac_lit fr \<and> exp_lit ex \<and> (fr \<noteq> [] \<or> ex \<noteq> []))"

definition int_ok :: "int \<Rightarrow> bool" where
  "int_ok i \<longleftrightarrow> length (nat_str (nat \<bar>i\<bar>)) \<le> 4300"

text \<open>The values the encoder can write: dictionaries have distinct keys, numbers have a text.\<close>

fun json_ok :: "(string \<Rightarrow> string) \<Rightarrow> json \<Rightarrow> bool" where
  "json_ok fl (JInt i) = int_ok i"
| "json_ok fl (JFloat s) = float_ok fl s"
| "json_ok fl (JArr xs) = list_all (json_ok fl) xs"
| "json_ok fl (JObj d) = (dict_ok d \<and> list_all (\<lambda>kv. json_ok fl (snd kv)) d)"
| "json_ok fl _ = True"

lemma hex_digit_val_hex_digit [simp]: "d < 16 \<Longrightarrow> hex_digit_val (hex_digit d) = Some d"
  by (auto simp: hex_digit_val_def hex_digit_def Let_def)

lemma hex_value_hex2: "n < 256 \<Longrightarrow> hex_value 0 (CHR ''0'' # CHR ''0'' # hex2 n) = Some n"
proof -
  assume n: "n < 256"
  have z: "hex_digit_val (CHR ''0'') = Some 0" by (simp add: hex_digit_val_def)
  have "n div 16 < 16" "n mod 16 < 16" using n by auto
  then show ?thesis by (simp add: hex2_def z)
qed

lemma scan_json_char: "scan_string (json_char c @ rest) = cons_fst c (scan_string rest)"
proof -
  define n where "n = (of_char c :: nat)"
  have c: "c = char_of n" and n: "n < 256" by (simp_all add: n_def)
  have lit: "n = of_char k \<longleftrightarrow> c = k" for k by (auto simp: n_def)
  have hex: "hex_value 0 (CHR ''0'' # CHR ''0'' # hex2 n) = Some n" using n by (rule hex_value_hex2)
  consider "n = 34" | "n = 92" | "n = 10" | "n = 13" | "n = 9" | "n = 12" | "n = 8"
    | (u) "n \<notin> {34, 92, 10, 13, 9, 12, 8}" "n < 32 \<or> 127 \<le> n"
    | (plain) "n \<notin> {34, 92, 10, 13, 9, 12, 8}" "32 \<le> n" "n < 127" by fastforce
  note cases = this
  have lits: "char_of (34 :: nat) = CHR 0x22" "char_of (92 :: nat) = CHR 0x5C"
      "char_of (10 :: nat) = CHR 0x0A" "char_of (13 :: nat) = CHR 0x0D" "char_of (9 :: nat) = CHR 0x09"
      "char_of (12 :: nat) = CHR 0x0C" "char_of (8 :: nat) = CHR 0x08"
    by (simp_all add: char_of_def bit_Suc_0_iff)
  show ?thesis
  proof (use cases in cases)
    case u
    then have "json_char c = CHR 0x5C # CHR ''u'' # CHR ''0'' # CHR ''0'' # hex2 n"
      by (simp add: json_char_def n_def [symmetric] esc_def)
    then show ?thesis using hex n by (simp add: hex2_def c)
  next
    case plain
    then have "json_char c = [c]" by (simp add: json_char_def n_def [symmetric])
    moreover have "c \<noteq> CHR 0x22" "c \<noteq> CHR 0x5C" using plain by (auto simp: n_def)
    ultimately show ?thesis using plain by (simp add: n_def)
  qed (simp_all add: json_char_def c esc_def unescape_def lits)
qed

lemma scan_json_str:
  "scan_string (concat (map json_char s) @ CHR 0x22 # rest) = Some (s, rest)"
proof (induction s)
  case (Cons c s)
  then show ?case by (simp add: scan_json_char cons_fst_def)
qed simp

text \<open>Numbers.\<close>

definition stops :: "string \<Rightarrow> bool" where
  "stops rest \<longleftrightarrow> rest = [] \<or> \<not> is_digit (hd rest)"

lemma digits_append:
  assumes "\<forall>c \<in> set ds. is_digit c" and "stops rest"
  shows "takeWhile is_digit (ds @ rest) = ds" and "dropWhile is_digit (ds @ rest) = rest"
  using assms by (induction ds; cases rest; auto simp: stops_def)+

lemma delim_stops:
  assumes "delim rest"
  shows "stops rest" "split_frac rest = ([], rest)" "split_exp rest = ([], rest)"
  using assms by (cases rest; auto simp: delim_def stops_def is_digit_def split_frac_def split_exp_def
      split: list.split)+

lemma split_int_whole:
  assumes "whole_lit w" and "w \<noteq> ''0'' \<Longrightarrow> stops rest"
  shows "split_int ((if neg then ''-'' else []) @ w @ rest) = Some ((if neg then ''-'' else []) @ w, rest)"
proof (cases "w = ''0''")
  case True
  then show ?thesis by (simp add: split_int_def Let_def)
next
  case False
  with assms have dr: "\<forall>c \<in> set w. is_digit c" and st: "stops rest" and w: "w \<noteq> []" "hd w \<noteq> CHR ''0''"
    by (auto simp: whole_lit_def digit_run_def)
  from w obtain c cs where wc: "w = c # cs" by (cases w) auto
  have "c \<noteq> CHR ''-''" using dr wc by (auto simp: is_digit_def)
  then show ?thesis
    using digits_append [OF dr st] dr w wc by (simp add: split_int_def Let_def)
qed

lemma split_exp_lit:
  assumes "exp_lit ex" and "delim rest"
  shows "split_exp (ex @ rest) = (ex, rest)"
proof (cases "ex = []")
  case True
  with delim_stops [OF assms(2)] show ?thesis by simp
next
  case False
  then obtain t where ex: "ex = CHR ''e'' # t" using assms(1) by (cases ex) (auto simp: exp_lit_def)
  have st: "stops rest" using delim_stops [OF assms(2)] by simp
  consider (plain) "digit_run t"
    | (signed) sg u where "t = sg # u" "sg = CHR ''+'' \<or> sg = CHR ''-''" "digit_run u"
    using assms(1) ex by (cases t) (auto simp: exp_lit_def)
  then show ?thesis
  proof cases
    case plain
    then obtain c cs where t: "t = c # cs" "is_digit c" by (cases t) (auto simp: digit_run_def)
    then have "c \<noteq> CHR ''+''" "c \<noteq> CHR ''-''" by (auto simp: is_digit_def)
    with plain digits_append [of t rest, OF _ st] t show ?thesis
      by (auto simp: ex split_exp_def digit_run_def)
  next
    case signed
    with digits_append [of u rest, OF _ st] show ?thesis
      by (auto simp: ex split_exp_def digit_run_def)
  qed
qed

lemma exp_stops: "exp_lit ex \<Longrightarrow> delim rest \<Longrightarrow> stops (ex @ rest) \<and> split_frac (ex @ rest) = ([], ex @ rest)"
  using delim_stops [of rest]
  by (cases ex) (auto simp: exp_lit_def stops_def split_frac_def is_digit_def split: list.split)

lemma split_frac_lit:
  assumes "frac_lit fr" and "exp_lit ex" and "delim rest"
  shows "split_frac (fr @ ex @ rest) = (fr, ex @ rest)" and "stops (fr @ ex @ rest)"
proof -
  have e: "stops (ex @ rest)" "split_frac (ex @ rest) = ([], ex @ rest)" using exp_stops assms by auto
  show "split_frac (fr @ ex @ rest) = (fr, ex @ rest)"
  proof (cases "fr = []")
    case True
    with e show ?thesis by simp
  next
    case False
    then obtain c cs where fr: "fr = CHR ''.'' # c # cs" and d: "\<forall>x \<in> set (c # cs). is_digit x"
      using assms(1) by (cases fr; cases "tl fr") (auto simp: frac_lit_def digit_run_def)
    with digits_append [OF d e(1)] show ?thesis by (simp add: split_frac_def)
  qed
  show "stops (fr @ ex @ rest)"
    using e assms(1) by (cases fr) (auto simp: frac_lit_def stops_def is_digit_def)
qed

lemma parse_number_float:
  assumes "s = (if neg then ''-'' else []) @ whole @ fr @ ex"
    and "whole_lit whole" "frac_lit fr" "exp_lit ex" "fr \<noteq> [] \<or> ex \<noteq> []" "delim rest"
  shows "parse_number fl (s @ rest) = Some (JFloat (fl s), rest)"
  using split_int_whole [OF assms(2), of "fr @ ex @ rest" neg] split_frac_lit [OF assms(3,4,6)]
    split_exp_lit [OF assms(4,6)] assms(1,5)
  by (auto simp: parse_number_def)

lemma nat_str_0: "nat_str 0 = ''0''"
  by (subst nat_str.simps) (simp add: char_of_def bit_Suc_0_iff)

lemma nat_str_whole: "whole_lit (nat_str n)"
proof (induction n rule: nat_str.induct)
  case (1 n)
  show ?case
  proof (cases "n < 10")
    case True
    then have s: "nat_str n = [char_of (48 + n)]" by (subst nat_str.simps) simp
    show ?thesis
    proof (cases "n = 0")
      case True
      then show ?thesis by (simp add: nat_str_0 whole_lit_def)
    next
      case False
      have "char_of (48 + n) \<noteq> CHR ''0''"
      proof
        assume "char_of (48 + n) = CHR ''0''"
        then have "(of_char (char_of (48 + n) :: char) :: nat) = 48" by simp
        then show False using True False by simp
      qed
      with True show ?thesis by (simp add: s whole_lit_def digit_run_def)
    qed
  next
    case False
    then have s: "nat_str n = nat_str (n div 10) @ [char_of (48 + n mod 10)]"
      by (subst nat_str.simps) simp
    have "nat_str (n div 10) \<noteq> ''0''"
    proof
      assume "nat_str (n div 10) = ''0''"
      then have "digits_val (nat_str (n div 10)) = 0" by (simp add: digits_val_def digit_val_def)
      then show False using False by simp
    qed
    with 1 False show ?thesis by (auto simp: s whole_lit_def digit_run_def)
  qed
qed

lemma parse_number_int:
  assumes "int_ok i" and "delim rest"
  shows "parse_number fl (int_str i @ rest) = Some (JInt i, rest)"
proof -
  let ?w = "nat_str (nat \<bar>i\<bar>)" and ?neg = "i < 0"
  have str: "int_str i = (if ?neg then ''-'' else []) @ ?w" by (simp add: int_str_def)
  obtain a as where w: "?w = a # as" using nat_str_nonempty by (cases ?w) auto
  have a: "a \<noteq> CHR ''-''" using nat_str_digits [of "nat \<bar>i\<bar>"] w by (auto simp: is_digit_def)
  have val: "digits_val (a # as) = \<bar>i\<bar>" using digits_val_nat_str [of "nat \<bar>i\<bar>"] by (simp add: w)
  have lit: "int_literal (int_str i) = Inr i"
    using assms(1) a val by (auto simp: int_literal_def str w int_of_digits_def int_ok_def)
  have sp: "split_int (int_str i @ rest) = Some (int_str i, rest)"
    using split_int_whole [OF nat_str_whole, of "nat \<bar>i\<bar>" rest ?neg] delim_stops [OF assms(2)]
    by (simp add: str)
  show ?thesis
    using sp lit delim_stops [OF assms(2)] by (simp add: parse_number_def)
qed

text \<open>The first character of a number leads the decoder to the number parser.\<close>

lemma parse_value_number:
  assumes "s = (if neg then ''-'' else []) @ w @ rest" and "whole_lit w"
  shows "parse_value fl (Suc n) s = parse_number fl s"
proof -
  obtain c cs where w: "w = c # cs" "is_digit c"
    using assms(2) by (cases w) (auto simp: whole_lit_def digit_run_def is_digit_def)
  then have "c \<notin> {CHR 0x22, CHR 0x7B, CHR ''['', CHR ''n'', CHR ''t'', CHR ''f'', CHR ''N'', CHR ''I'', CHR ''-''}"
    by (auto simp: is_digit_def)
  then show ?thesis by (simp add: assms(1) w numeral_2_eq_2)
qed

text \<open>How an encoded value begins: with a character that is neither white space nor a bracket.\<close>

definition starts_value :: "string \<Rightarrow> bool" where
  "starts_value s \<longleftrightarrow> s \<noteq> [] \<and> \<not> is_json_ws (hd s) \<and> hd s \<noteq> CHR '']'' \<and> hd s \<noteq> CHR 0x7D"

lemma starts_append [simp]: "starts_value s \<Longrightarrow> starts_value (s @ t)"
  by (simp add: starts_value_def)

lemma starts_skip: "starts_value s \<Longrightarrow> skip_ws s = s"
  by (cases s) (auto simp: starts_value_def skip_ws_def)

lemma starts_whole: "whole_lit w \<Longrightarrow> starts_value ((if neg then ''-'' else []) @ w @ t)"
  by (cases w) (auto simp: whole_lit_def digit_run_def is_digit_def starts_value_def is_json_ws_def)

lemma starts_dumps: "json_ok fl v \<Longrightarrow> starts_value (json_dumps v)"
proof (cases v)
  case (JInt i)
  then show ?thesis using starts_whole [OF nat_str_whole, of "i < 0" "nat \<bar>i\<bar>" "[]"]
    by (auto simp: int_str_def split: if_splits)
next
  case (JFloat s)
  assume "json_ok fl v"
  with JFloat show ?thesis using starts_whole
    by (auto simp: float_ok_def json_float_def starts_value_def is_json_ws_def)
qed (simp_all add: starts_value_def is_json_ws_def json_str_def)

lemma skip_delim: "delim rest \<Longrightarrow> skip_ws rest = rest"
  by (cases rest) (auto simp: delim_def skip_ws_def is_json_ws_def)

lemma parse_float:
  assumes "float_ok fl s" and "delim rest"
  shows "parse_value fl (Suc n) (json_float s @ rest) = Some (JFloat s, rest)"
proof -
  consider "s = ''nan''" | "s = ''inf''" | "s = ''-inf''"
    | (lit) neg whole fr ex where "fl s = s" "s = (if neg then ''-'' else []) @ whole @ fr @ ex"
      "whole_lit whole" "frac_lit fr" "exp_lit ex" "fr \<noteq> [] \<or> ex \<noteq> []"
    using assms(1) unfolding float_ok_def by blast
  then show ?thesis
  proof cases
    case lit
    have "s \<noteq> ''nan''" "s \<noteq> ''inf''" "s \<noteq> ''-inf''"
      using lit(2,3) by (cases whole; auto simp: whole_lit_def digit_run_def is_digit_def)+
    moreover have "parse_value fl (Suc n) (s @ rest) = parse_number fl (s @ rest)"
      by (rule parse_value_number [of _ neg whole "fr @ ex @ rest"]) (simp_all add: lit)
    ultimately show ?thesis
      using parse_number_float [OF lit(2-6) assms(2)] lit(1) by (simp add: json_float_def)
  qed (simp_all add: json_float_def keyword_def)
qed

text \<open>A value that the decoder reads back wherever a delimiter follows it.\<close>

definition reads_back :: "(string \<Rightarrow> string) \<Rightarrow> json \<Rightarrow> bool" where
  "reads_back fl v \<longleftrightarrow> (\<forall>n rest. delim rest \<longrightarrow> 2 * length (json_dumps v) \<le> n
     \<longrightarrow> parse_value fl n (json_dumps v @ rest) = Some (v, rest))"

lemma reads_backD:
  "reads_back fl v \<Longrightarrow> delim rest \<Longrightarrow> 2 * length (json_dumps v) \<le> n
   \<Longrightarrow> parse_value fl n (json_dumps v @ rest) = Some (v, rest)"
  by (simp add: reads_back_def)

lemma delims [simp]: "delim (CHR '','' # r)" "delim (CHR '']'' # r)" "delim (CHR 0x7D # r)"
  by (simp_all add: delim_def)

lemma skip_ws_Cons [simp]:
  "skip_ws (CHR '','' # r) = CHR '','' # r" "skip_ws (CHR '']'' # r) = CHR '']'' # r"
  "skip_ws (CHR 0x7D # r) = CHR 0x7D # r" "skip_ws (CHR '':'' # r) = CHR '':'' # r"
  "skip_ws (CHR 0x22 # r) = CHR 0x22 # r" "skip_ws (CHR '' '' # r) = skip_ws r"
  by (simp_all add: skip_ws_def is_json_ws_def)

lemma parse_elems_join:
  assumes "\<forall>x \<in> set (v # vs). json_ok fl x \<and> reads_back fl x"
    and "2 * length (comma_sep (map json_dumps (v # vs))) < n"
  shows "parse_elems fl n acc (comma_sep (map json_dumps (v # vs)) @ CHR '']'' # rest)
    = Some (JArr (acc @ v # vs), rest)"
  using assms
proof (induction vs arbitrary: v acc n)
  case Nil
  then obtain k where n: "n = Suc k" by (cases n) auto
  with Nil have "parse_value fl k (json_dumps v @ CHR '']'' # rest) = Some (v, CHR '']'' # rest)"
    by (intro reads_backD) auto
  with n show ?case by simp
next
  case (Cons u us)
  then obtain k where n: "n = Suc k" by (cases n) auto
  let ?tail = "comma_sep (map json_dumps (u # us)) @ CHR '']'' # rest"
  have "parse_value fl k (json_dumps v @ CHR '','' # CHR '' '' # ?tail) = Some (v, CHR '','' # CHR '' '' # ?tail)"
    using Cons.prems n by (intro reads_backD) auto
  moreover have "parse_elems fl k (acc @ [v]) ?tail = Some (JArr ((acc @ [v]) @ u # us), rest)"
    using Cons.prems n by (intro Cons.IH) auto
  moreover have "starts_value (comma_sep (map json_dumps (u # us)))"
    using Cons.prems starts_dumps by (cases us) auto
  ultimately show ?case using n by (simp add: starts_skip)
qed

definition member_text :: "string \<times> json \<Rightarrow> string" where
  "member_text kv = json_str (fst kv) @ '': '' @ json_dumps (snd kv)"

lemma update_fresh: "k \<notin> fst ` set d \<Longrightarrow> AList.update k v d = d @ [(k, v)]"
  by (induction d) auto

lemma member_step:
  assumes "reads_back fl v" "json_ok fl v" "delim rest" "2 * length (json_dumps v) \<le> n"
  shows "parse_members fl (Suc n) acc (member_text (k, v) @ rest) = (case skip_ws rest of
      [] \<Rightarrow> None
    | d # ds \<Rightarrow> if d = CHR '','' then parse_members fl n (AList.update k v acc) (skip_ws ds)
                else if d = CHR 0x7D then Some (JObj (AList.update k v acc), ds) else None)"
proof -
  have "skip_ws (json_dumps v @ rest) = json_dumps v @ rest"
    using starts_dumps [OF assms(2)] by (simp add: starts_skip)
  then show ?thesis
    using reads_backD [OF assms(1,3,4)] by (simp add: member_text_def json_str_def scan_json_str)
qed

lemma parse_members_join:
  assumes "\<forall>kv \<in> set (x # d). json_ok fl (snd kv) \<and> reads_back fl (snd kv)"
    and "2 * length (comma_sep (map member_text (x # d))) < n" and "dict_ok (acc @ x # d)"
  shows "parse_members fl n acc (comma_sep (map member_text (x # d)) @ CHR 0x7D # rest)
    = Some (JObj (acc @ x # d), rest)"
  using assms
proof (induction d arbitrary: x acc n)
  case Nil
  then obtain k where n: "n = Suc k" by (cases n) auto
  obtain key v where x: "x = (key, v)" by (cases x)
  have "key \<notin> fst ` set acc" using Nil.prems(3) by (auto simp: dict_ok_def x)
  moreover have "2 * length (json_dumps v) \<le> k" using Nil.prems(2) n x by (simp add: member_text_def)
  ultimately show ?case
    using Nil.prems(1) n x member_step [of fl v "CHR 0x7D # rest" k acc key] by (simp add: update_fresh)
next
  case (Cons u us)
  then obtain k where n: "n = Suc k" by (cases n) auto
  obtain key v where x: "x = (key, v)" by (cases x)
  let ?tail = "comma_sep (map member_text (u # us)) @ CHR 0x7D # rest"
  have fresh: "key \<notin> fst ` set acc" using Cons.prems(3) by (auto simp: dict_ok_def x)
  have len: "2 * length (json_dumps v) \<le> k" using Cons.prems(2) n x by (simp add: member_text_def)
  have "parse_members fl k (acc @ [x]) ?tail = Some (JObj ((acc @ [x]) @ u # us), rest)"
    using Cons.prems n by (intro Cons.IH) auto
  moreover have "skip_ws ?tail = ?tail"
    by (cases us) (auto simp: member_text_def json_str_def)
  ultimately show ?case
    using Cons.prems(1) n x fresh len member_step [of fl v "CHR '','' # CHR '' '' # ?tail" k acc key]
    by (simp add: update_fresh)
qed

lemma reads_backI:
  assumes "json_ok fl v"
    and "\<And>k rest. delim rest \<Longrightarrow> 2 * length (json_dumps v) \<le> Suc k
      \<Longrightarrow> parse_value fl (Suc k) (json_dumps v @ rest) = Some (v, rest)"
  shows "reads_back fl v"
proof -
  have "json_dumps v \<noteq> []" using starts_dumps [OF assms(1)] by (simp add: starts_value_def)
  then show ?thesis
    unfolding reads_back_def using assms(2) by (metis Suc_pred le_zero_eq length_0_conv
        mult_is_0 neq0_conv zero_neq_numeral)
qed

lemma value_reads_back: "json_ok fl v \<Longrightarrow> reads_back fl v"
proof (induction v)
  case (JInt i)
  have "parse_value fl (Suc k) (int_str i @ rest) = parse_number fl (int_str i @ rest)" for k rest
    by (rule parse_value_number [of _ "i < 0" "nat_str (nat \<bar>i\<bar>)" rest])
      (simp_all add: int_str_def nat_str_whole)
  with JInt show ?case by (intro reads_backI) (simp_all del: parse_value.simps add: parse_number_int)
next
  case (JFloat s)
  then show ?case by (intro reads_backI) (simp_all del: parse_value.simps add: parse_float)
next
  case (JArr xs)
  show ?case
  proof (rule reads_backI [OF JArr.prems])
    fix k rest assume "delim rest" and len: "2 * length (json_dumps (JArr xs)) \<le> Suc k"
    show "parse_value fl (Suc k) (json_dumps (JArr xs) @ rest) = Some (JArr xs, rest)"
    proof (cases xs)
      case Nil
      then show ?thesis by simp
    next
      case (Cons v vs)
      have ok: "\<forall>x \<in> set (v # vs). json_ok fl x \<and> reads_back fl x"
        using JArr Cons by (auto simp: list_all_iff)
      have "starts_value (comma_sep (map json_dumps (v # vs)))"
        using ok starts_dumps by (cases vs) auto
      then obtain c cs where t: "comma_sep (map json_dumps (v # vs)) = c # cs"
          "\<not> is_json_ws c" "c \<noteq> CHR '']''"
        by (cases "comma_sep (map json_dumps (v # vs))") (auto simp: starts_value_def)
      have "parse_elems fl k [] (comma_sep (map json_dumps (v # vs)) @ CHR '']'' # rest)
          = Some (JArr ([] @ v # vs), rest)"
        using len Cons by (intro parse_elems_join [OF ok]) simp
      with t Cons show ?thesis by (simp add: skip_ws_def)
    qed
  qed
next
  case (JObj d)
  show ?case
  proof (rule reads_backI [OF JObj.prems])
    fix k rest assume "delim rest" and len: "2 * length (json_dumps (JObj d)) \<le> Suc k"
    have enc: "json_dumps (JObj d) = CHR 0x7B # comma_sep (map member_text d) @ [CHR 0x7D]"
      by (simp add: member_text_def [abs_def])
    show "parse_value fl (Suc k) (json_dumps (JObj d) @ rest) = Some (JObj d, rest)"
    proof (cases d)
      case Nil
      then show ?thesis by simp
    next
      case (Cons x d')
      have ok: "\<forall>kv \<in> set (x # d'). json_ok fl (snd kv) \<and> reads_back fl (snd kv)"
        using JObj Cons by (fastforce simp: list_all_iff snds.simps)
      obtain cs where t: "comma_sep (map member_text (x # d')) = CHR 0x22 # cs"
        by (cases d') (auto simp: member_text_def json_str_def)
      have "dict_ok ([] @ x # d')" using JObj.prems Cons by simp
      moreover have "2 * length (comma_sep (map member_text (x # d'))) < k"
        using len Cons unfolding enc by simp
      ultimately have "parse_members fl k [] (comma_sep (map member_text (x # d')) @ CHR 0x7D # rest)
          = Some (JObj ([] @ x # d'), rest)"
        using ok by (intro parse_members_join)
      with t Cons show ?thesis unfolding enc by simp
    qed
  qed
qed (rule reads_backI; simp add: keyword_def json_str_def scan_json_str)+

text \<open>The encoder is inverted by the decoder, also through UTF-8.\<close>

lemma json_roundtrip: "json_ok fl v \<Longrightarrow> json_loads fl (json_dumps v) = Inr v"
  using reads_backD [OF value_reads_back, of fl v "[]" "2 * length (json_dumps v) + 2"]
    starts_skip [OF starts_dumps, of fl v]
  by (simp add: json_loads_def delim_def skip_ws_def)

lemma utf8_roundtrip: "utf8_decode (utf8_encode s) = Some s"
proof (induction s)
  case (Cons c s)
  define n where "n = (of_char c :: nat)"
  have c: "c = char_of n" and n: "n < 256" by (simp_all add: n_def)
  show ?case
  proof (cases "n < 128")
    case True
    then show ?thesis using Cons by (simp add: utf8_encode_def n_def [symmetric])
  next
    case False
    then have d: "n div 64 = 2 \<or> n div 64 = 3" using n by auto
    have split: "64 * (n div 64) + n mod 64 = n" by simp
    have m: "n mod 64 < 64" by simp
    from d show ?thesis
    proof
      assume q: "n div 64 = 2"
      with split have "128 + n mod 64 = n" by linarith
      with q m False Cons c show ?thesis by (simp add: utf8_encode_def n_def [symmetric])
    next
      assume q: "n div 64 = 3"
      with split have "192 + n mod 64 = n" by linarith
      with q m False Cons c show ?thesis by (simp add: utf8_encode_def n_def [symmetric])
    qed
  qed
qed (simp add: utf8_encode_def)

end
