(* ===== verification/Secrets.thy ===== *)
theory Secrets
  imports Bridge_World Json_Text
begin

text \<open>
  The credentials the bridge issues and what it encrypts with them: \<open>crypto.py\<close>, \<open>client.py\<close>,
  \<open>types.py\<close> and the client ids of \<open>db.py\<close>.

  A client id is a UUID, a 128-bit word; its text form is read by \<open>uuid.UUID\<close> and written by
  \<open>str\<close>.  Fernet is part of the environment.
\<close>

section \<open>UUIDs\<close>

type_synonym client_id = "128 word"

function remove_all :: "string \<Rightarrow> string \<Rightarrow> string" where
  "remove_all p s = (case s of
     [] \<Rightarrow> []
   | c # cs \<Rightarrow> if p \<noteq> [] \<and> take (length p) s = p then remove_all p (drop (length p) s)
               else c # remove_all p cs)"
  by pat_completeness auto
termination by (relation "measure (\<lambda>(p, s). length s)") auto

declare remove_all.simps [simp del]

definition strip_chars :: "char list \<Rightarrow> string \<Rightarrow> string" where
  "strip_chars cs s = rev (dropWhile (\<lambda>c. c \<in> set cs) (rev (dropWhile (\<lambda>c. c \<in> set cs) s)))"

definition is_hex :: "char \<Rightarrow> bool" where
  "is_hex c \<longleftrightarrow> hex_digit_val c \<noteq> None"

fun hex_groups :: "string \<Rightarrow> bool" where
  "hex_groups [] = False"
| "hex_groups [c] = is_hex c"
| "hex_groups (c # d # cs) =
     (is_hex c \<and> (if d = CHR ''_'' then hex_groups cs else hex_groups (d # cs)))"

definition hex_val :: "string \<Rightarrow> nat" where
  "hex_val s = (case hex_value 0 s of None \<Rightarrow> 0 | Some n \<Rightarrow> n)"

text \<open>\<open>int(s, 16)\<close>: white space, a sign, an optional \<open>0x\<close>, digits with single underscores.\<close>

definition int_of_hex :: "string \<Rightarrow> int res" where
  "int_of_hex t =
     (let s = strip t;
          neg = (case s of [] \<Rightarrow> False | c # _ \<Rightarrow> c = CHR ''-'');
          signed = (case s of [] \<Rightarrow> False | c # _ \<Rightarrow> c = CHR ''-'' \<or> c = CHR ''+'');
          body = (if signed then tl s else s);
          prefixed = (take 2 body = ''0x'' \<or> take 2 body = ''0X'');
          body = (if prefixed then drop 2 body else body);
          body = (if prefixed \<and> take 1 body = ''_'' then drop 1 body else body)
      in if hex_groups body
         then Inr (if neg then - int (hex_val (filter is_hex body)) else int (hex_val (filter is_hex body)))
         else Inl ValueError)"

text \<open>\<open>uuid.UUID(text)\<close>\<close>

definition uuid_of_str :: "string \<Rightarrow> client_id res" where
  "uuid_of_str s =
     (let h = remove_all ''-'' (strip_chars [CHR 0x7B, CHR 0x7D] (remove_all ''uuid:'' (remove_all ''urn:'' s)))
      in if length h \<noteq> 32 then Inl ValueError
         else bindR (int_of_hex h) (\<lambda>i.
           if 0 \<le> i \<and> i < 2 ^ 128 then Inr (word_of_int i) else Inl ValueError))"

fun hex_pad :: "nat \<Rightarrow> nat \<Rightarrow> string" where
  "hex_pad 0 n = []"
| "hex_pad (Suc k) n = hex_pad k (n div 16) @ [hex_digit (n mod 16)]"

text \<open>\<open>str(uuid)\<close>: 32 digits in groups of 8, 4, 4, 4 and 12.\<close>

definition uuid_str :: "client_id \<Rightarrow> string" where
  "uuid_str w =
     (let h = hex_pad 32 (unat w)
      in take 8 h @ ''-'' @ take 4 (drop 8 h) @ ''-'' @ take 4 (drop 12 h) @ ''-''
         @ take 4 (drop 16 h) @ ''-'' @ drop 20 h)"

definition generate_id :: "env \<Rightarrow> client_id prog" where
  "generate_id E = seqA tick (\<lambda>n. returnA (random_uuid E n))"

definition validate_client_id :: "string \<Rightarrow> client_id res" where
  "validate_client_id s = uuid_of_str s"

section \<open>Keys\<close>

definition ascii_ok :: "string \<Rightarrow> bool" where
  "ascii_ok s \<longleftrightarrow> (\<forall>c \<in> set s. (of_char c :: nat) < 128)"

definition normalize_base64_padding :: "string \<Rightarrow> string" where
  "normalize_base64_padding key =
     (let r = length key mod 4
      in if r = 2 \<or> r = 3 then key @ replicate (4 - r) CHR ''='' else key)"

definition generate_key :: "env \<Rightarrow> string prog" where
  "generate_key E = seqA tick (\<lambda>n. returnA (fernet_generate E n))"

text \<open>\<open>Fernet(key.encode("ascii"))\<close>: both steps raise \<open>ValueError\<close>.\<close>

definition fernet_for :: "env \<Rightarrow> string \<Rightarrow> unit res" where
  "fernet_for E key = (if ascii_ok key \<and> fernet_accepts E key then Inr () else Inl ValueError)"

definition validate_key :: "env \<Rightarrow> string \<Rightarrow> string res" where
  "validate_key E key =
     (let k = normalize_base64_padding key
      in case fernet_for E k of Inl _ \<Rightarrow> Inl InvalidToken | Inr _ \<Rightarrow> Inr k)"

definition crypto_dumps :: "env \<Rightarrow> string \<Rightarrow> json \<Rightarrow> string prog" where
  "crypto_dumps E key data =
     seqA (liftA (fernet_for E key)) (\<lambda>_.
     seqA tick (\<lambda>n. returnA (fernet_encrypt E key n (utf8_encode (json_dumps data)))))"

definition crypto_loads :: "env \<Rightarrow> string \<Rightarrow> string \<Rightarrow> json res" where
  "crypto_loads E key token =
     (let k = normalize_base64_padding key
      in case fernet_for E k of
           Inl _ \<Rightarrow> Inl InvalidToken
         | Inr _ \<Rightarrow>
             (case fernet_decrypt E k token of
                None \<Rightarrow> Inl InvalidToken
              | Some plain \<Rightarrow>
                  (case utf8_decode plain of None \<Rightarrow> Inl ValueError | Some s \<Rightarrow> json_loads (float_repr E) s)))"

section \<open>Client credentials\<close>

record client_credentials =
  cc_client_id :: client_id
  cc_client_secret :: string

datatype credential_error = CredentialValidationError string
  | ClientIdValidationError | ClientSecretValidationError

definition validate_credentials ::
    "env \<Rightarrow> string option \<Rightarrow> string option \<Rightarrow> credential_error + client_credentials" where
  "validate_credentials E cid secret =
     (if cid = None \<or> cid = Some [] then Inl (CredentialValidationError ''client_id must be set.'')
      else if cid = secret
      then Inl (CredentialValidationError ''client_id and client_secret set to same value.'')
      else (case validate_client_id (the cid) of
        Inl _ \<Rightarrow> Inl ClientIdValidationError
      | Inr i \<Rightarrow>
          if secret = None \<or> secret = Some []
          then Inl (CredentialValidationError ''client_secret must be set.'')
          else (case validate_key E (the secret) of
            Inl _ \<Rightarrow> Inl ClientSecretValidationError
          | Inr k \<Rightarrow> Inr \<lparr> cc_client_id = i, cc_client_secret = k \<rparr>)))"

section \<open>Lemmas\<close>

lemma remove_all_absent: "c \<in> set p \<Longrightarrow> c \<notin> set s \<Longrightarrow> remove_all p s = s"
proof (induction s)
  case (Cons x xs)
  have "take (length p) (x # xs) \<noteq> p"
    using Cons.prems by (metis in_set_takeD)
  with Cons show ?case by (subst remove_all.simps) simp
qed (simp add: remove_all.simps)

lemma remove_all_char: "remove_all [c] s = filter (\<lambda>x. x \<noteq> c) s"
  by (induction s) (simp_all add: remove_all.simps)

lemma length_hex_pad [simp]: "length (hex_pad k n) = k"
  by (induction k arbitrary: n) simp_all

lemma hex_pad_hex: "x \<in> set (hex_pad k n) \<Longrightarrow> is_hex x"
  by (induction k arbitrary: n) (auto simp: is_hex_def)

lemma hex_value_snoc:
  "hex_value a (s @ [c]) = (case hex_value a s of None \<Rightarrow> None | Some v \<Rightarrow>
     (case hex_digit_val c of None \<Rightarrow> None | Some d \<Rightarrow> Some (16 * v + d)))"
  by (induction s arbitrary: a) (simp_all split: option.split)

lemma hex_value_pad: "hex_value 0 (hex_pad k n) = Some (n mod 16 ^ k)"
proof (induction k arbitrary: n)
  case (Suc k)
  then show ?case by (simp add: hex_value_snoc mod_mult2_eq)
qed simp

lemma is_hex_props:
  assumes "is_hex c"
  shows "\<not> is_space c" "c \<noteq> CHR ''-''" "c \<noteq> CHR ''+''" "c \<noteq> CHR ''_''" "c \<noteq> CHR ''x''"
    "c \<noteq> CHR ''X''" "c \<noteq> CHR '':''" "c \<noteq> CHR 0x7B" "c \<noteq> CHR 0x7D"
  using assms by (auto simp: is_hex_def hex_digit_val_def is_space_def Let_def split: if_splits)

lemma hex_groups_all: "s \<noteq> [] \<Longrightarrow> \<forall>c \<in> set s. is_hex c \<Longrightarrow> hex_groups s"
  by (induction s rule: hex_groups.induct) (auto dest: is_hex_props(4))

lemma dropWhile_none: "\<forall>c \<in> set s. \<not> P c \<Longrightarrow> dropWhile P s = s"
  by (cases s) simp_all

lemma int_of_hex_plain:
  assumes "s \<noteq> []" and "\<forall>c \<in> set s. is_hex c"
  shows "int_of_hex s = Inr (int (hex_val s))"
proof -
  have "strip s = s" using assms(2) is_hex_props(1) by (simp add: strip_def dropWhile_none)
  moreover obtain c cs where s: "s = c # cs" using assms(1) by (cases s) auto
  moreover have "take 2 s \<noteq> ''0x''" "take 2 s \<noteq> ''0X''"
    using assms(2) is_hex_props(5,6) by (auto simp: s numeral_2_eq_2 take_Cons split: list.splits)
      (cases cs; fastforce simp: take_Cons)+
  ultimately show ?thesis
    using assms(2) hex_groups_all [OF assms] is_hex_props(2,3)
    by (auto simp: int_of_hex_def Let_def filter_id_conv)
qed

lemma uuid_roundtrip: "uuid_of_str (uuid_str w) = Inr w"
proof -
  define h where "h = hex_pad 32 (unat w)"
  have hx: "\<forall>c \<in> set h. is_hex c" and len: "length h = 32"
    using hex_pad_hex by (auto simp: h_def)
  have str: "uuid_str w = take 8 h @ ''-'' @ take 4 (drop 8 h) @ ''-'' @ take 4 (drop 12 h) @ ''-''
      @ take 4 (drop 16 h) @ ''-'' @ drop 20 h"
    by (simp only: uuid_str_def h_def Let_def)
  have chars: "c \<in> set (uuid_str w) \<Longrightarrow> is_hex c \<or> c = CHR ''-''" for c
    using hx unfolding str by (auto dest!: in_set_takeD in_set_dropD)
  have nocolon: "CHR '':'' \<notin> set (uuid_str w)" using chars is_hex_props(7) by fastforce
  have "\<forall>c \<in> set (uuid_str w). c \<notin> {CHR 0x7B, CHR 0x7D}"
    using chars is_hex_props(8,9) by fastforce
  then have braces: "strip_chars [CHR 0x7B, CHR 0x7D] (uuid_str w) = uuid_str w"
    by (simp add: strip_chars_def dropWhile_none)
  have nodash: "filter (\<lambda>x. x \<noteq> CHR ''-'') t = t" if "set t \<subseteq> set h" for t
    using that hx is_hex_props(2) by (fastforce simp: filter_id_conv)
  have parts: "take 8 h @ drop 8 h = h" "drop 8 h = take 4 (drop 8 h) @ drop 12 h"
      "drop 12 h = take 4 (drop 12 h) @ drop 16 h" "drop 16 h = take 4 (drop 16 h) @ drop 20 h"
    using append_take_drop_id [of 4 "drop 8 h"] append_take_drop_id [of 4 "drop 12 h"]
      append_take_drop_id [of 4 "drop 16 h"] by simp_all
  have split: "h = take 8 h @ take 4 (drop 8 h) @ take 4 (drop 12 h) @ take 4 (drop 16 h) @ drop 20 h"
    unfolding parts(2-4) [symmetric] parts(1) ..
  have "remove_all ''-'' (uuid_str w) = h"
    unfolding remove_all_char str using split
    by (simp add: nodash set_take_subset set_drop_subset order_trans [OF set_take_subset set_drop_subset])
  then have h: "remove_all ''-'' (strip_chars [CHR 0x7B, CHR 0x7D]
      (remove_all ''uuid:'' (remove_all ''urn:'' (uuid_str w)))) = h"
    using nocolon braces by (simp add: remove_all_absent [where c = "CHR '':''"])
  have lt: "unat w < 2 ^ 128" using unsigned_less [of w] by simp
  have "hex_val h = unat w"
    using lt by (simp add: hex_val_def h_def hex_value_pad)
  moreover have "h \<noteq> []" using len by auto
  ultimately have "int_of_hex h = Inr (int (unat w))" using int_of_hex_plain hx by simp
  moreover have "uint w < 2 ^ 128" using unsigned_less [of w] by simp
  ultimately show ?thesis
    unfolding uuid_of_str_def Let_def h using len by simp
qed

text \<open>Padding: a key of four-character groups is left alone, and lost padding is put back.\<close>

lemma normalize_idem [simp]:
  "normalize_base64_padding (normalize_base64_padding k) = normalize_base64_padding k"
proof -
  have "(length k + (4 - length k mod 4)) mod 4 = 0" if "length k mod 4 = 2 \<or> length k mod 4 = 3"
    using that by presburger
  then show ?thesis by (auto simp: normalize_base64_padding_def Let_def)
qed

lemma normalize_full [simp]: "length k mod 4 = 0 \<Longrightarrow> normalize_base64_padding k = k"
  by (simp add: normalize_base64_padding_def)

lemma normalize_restores:
  assumes "(length k + n) mod 4 = 0" and "n = 1 \<or> n = 2"
  shows "normalize_base64_padding k = k @ replicate n CHR ''=''"
proof -
  have "length k mod 4 = 4 - n" using assms by presburger
  with assms(2) show ?thesis by (auto simp: normalize_base64_padding_def)
qed

lemma validate_key_Inr:
  "validate_key E key = Inr k \<longleftrightarrow> k = normalize_base64_padding key \<and> ascii_ok k \<and> fernet_accepts E k"
  by (auto simp: validate_key_def fernet_for_def Let_def)

lemma validate_credentials_Inr:
  "validate_credentials E cid secret = Inr c \<longleftrightarrow>
     (\<exists>i s. cid = Some i \<and> i \<noteq> [] \<and> secret = Some s \<and> s \<noteq> [] \<and> i \<noteq> s
       \<and> validate_client_id i = Inr (cc_client_id c) \<and> validate_key E s = Inr (cc_client_secret c))"
  by (cases cid; cases secret)
    (auto simp: validate_credentials_def split: sum.splits)

lemma crypto_dumps_run:
  "ascii_ok key \<Longrightarrow> fernet_accepts E key \<Longrightarrow>
   crypto_dumps E key data w = (Inr (fernet_encrypt E key (ticks w) (utf8_encode (json_dumps data))),
     w\<lparr>ticks := Suc (ticks w)\<rparr>)"
  by (simp add: crypto_dumps_def fernet_for_def act_simps)

lemma loads_encrypted:
  assumes "fernet_ok E" and "ascii_ok (normalize_base64_padding key)"
    and "fernet_accepts E (normalize_base64_padding key)" and "json_ok (float_repr E) data"
  shows "crypto_loads E key (fernet_encrypt E (normalize_base64_padding key) n
    (utf8_encode (json_dumps data))) = Inr data"
  using assms by (simp add: crypto_loads_def fernet_for_def fernet_ok_def utf8_roundtrip json_roundtrip)

section \<open>Properties\<close>

text \<open>
  Client ids survive the trip through their text form, and validation of a client id accepts
  at most one text per id as canonical: what \<open>str\<close> writes is read back as the same id.
\<close>
theorem client_id_roundtrip:
  "validate_client_id (uuid_str w) = Inr w \<and> (uuid_str w = uuid_str w' \<longleftrightarrow> w = w')"
proof -
  have "uuid_str w = uuid_str w' \<Longrightarrow> w = w'"
    by (metis Inr_inject uuid_roundtrip)
  then show ?thesis using uuid_roundtrip by (auto simp: validate_client_id_def)
qed

text \<open>
  C32. What is encrypted with a client's key is read back unchanged by that client, whether or not
  it kept the trailing padding of its key.
\<close>
theorem stored_token_roundtrip:
  assumes "fernet_ok E" and "json_ok (float_repr E) data"
    and "crypto_dumps E key data w = (Inr token, w')"
    and "normalize_base64_padding key' = key"
  shows "crypto_loads E key' token = Inr data"
proof -
  have "fernet_for E key = Inr ()"
    using assms(3) by (simp add: crypto_dumps_def act_simps fernet_for_def split: if_splits)
  then have ok: "ascii_ok key" "fernet_accepts E key" by (auto simp: fernet_for_def split: if_splits)
  have "token = fernet_encrypt E key (ticks w) (utf8_encode (json_dumps data))"
    using assms(3) ok by (simp add: crypto_dumps_run)
  then show ?thesis using loads_encrypted [OF assms(1), of key'] ok assms(2,4) by simp
qed

theorem stored_token_roundtrip_witness:
  "crypto_loads sample_env (replicate 43 CHR ''A'')
     (sample_key @ to_letters (utf8_encode (json_dumps sample_token))) = Inr sample_token"
proof -
  have key: "ascii_ok sample_key" "fernet_accepts sample_env sample_key"
    by (auto simp: ascii_ok_def sample_key_def sample_env_def sample_accepts_def)
  have norm: "normalize_base64_padding (replicate 43 CHR ''A'') = sample_key"
    by (simp add: normalize_base64_padding_def sample_key_def)
  have ok: "json_ok (float_repr sample_env) sample_token" by (simp add: sample_token_def dict_ok_def)
  from stored_token_roundtrip [OF fernet_ok_sample ok crypto_dumps_run [OF key] norm]
  show ?thesis by (simp add: sample_env_def sample_encrypt_def)
qed

text \<open>
  Accepted credentials are complete and two different texts, their secret is a key that Fernet
  accepts, and they are canonical: validating the id as \<open>str\<close> writes it and the secret as it was
  returned gives the same credentials again.
\<close>
theorem validate_credentials_correct:
  assumes "validate_credentials E cid secret = Inr c"
    and "uuid_str (cc_client_id c) \<noteq> cc_client_secret c"
  shows "cid \<noteq> None \<and> secret \<noteq> None \<and> cid \<noteq> secret
    \<and> fernet_accepts E (cc_client_secret c)
    \<and> validate_credentials E (Some (uuid_str (cc_client_id c))) (Some (cc_client_secret c)) = Inr c"
proof -
  from assms(1) obtain i s where cs: "cid = Some i" "secret = Some s" "s \<noteq> []" "i \<noteq> s"
    and k: "validate_key E s = Inr (cc_client_secret c)"
    by (auto simp: validate_credentials_Inr)
  have "cc_client_secret c \<noteq> []" using k cs(3)
    by (auto simp: validate_key_Inr normalize_base64_padding_def Let_def split: if_splits)
  moreover have "uuid_str (cc_client_id c) \<noteq> []" by (simp add: uuid_str_def Let_def)
  ultimately show ?thesis
    using cs k assms(2) uuid_roundtrip
    by (auto simp: validate_credentials_Inr validate_key_Inr validate_client_id_def)
qed

theorem validate_credentials_correct_witness:
  "validate_credentials sample_env (Some (uuid_str 7)) (Some (replicate 43 CHR ''A''))
     = Inr \<lparr> cc_client_id = 7, cc_client_secret = sample_key \<rparr>
   \<and> fernet_accepts sample_env sample_key"
proof -
  have run: "validate_credentials sample_env (Some (uuid_str 7)) (Some (replicate 43 CHR ''A''))
     = Inr \<lparr> cc_client_id = 7, cc_client_secret = sample_key \<rparr>"
    by code_simp
  have "uuid_str 7 \<noteq> sample_key" by code_simp
  with validate_credentials_correct [OF run] run show ?thesis by simp
qed

end
