(* ===== verification/Db_Access.thy ===== *)
theory Db_Access
  imports Secrets
begin

text \<open>
  \<open>db.py\<close>: the connection of the application context, the \<open>cursor\<close> context manager with its
  transaction handling, and the operations on the token table.

  Every call of \<open>sqlite3\<close> that touches the file (connecting, a statement, a commit) may raise on
  its own (\<open>db_faults\<close>: a locked database, a full disk).  A transaction works on the database in
  place and \<open>rollback\<close> puts the saved one back.
\<close>

section \<open>Connection\<close>

definition is_sqlite_error :: "pyexn \<Rightarrow> bool" where
  "is_sqlite_error e = (case e of IntegrityError \<Rightarrow> True | OperationalError _ \<Rightarrow> True | _ \<Rightarrow> False)"

fun exn_name :: "pyexn \<Rightarrow> string" where
  "exn_name AttributeError = ''AttributeError''"
| "exn_name TypeError = ''TypeError''"
| "exn_name ValueError = ''ValueError''"
| "exn_name KeyError = ''KeyError''"
| "exn_name LookupError = ''LookupError''"
| "exn_name InvalidToken = ''InvalidToken''"
| "exn_name IntegrityError = ''IntegrityError''"
| "exn_name (OperationalError m) = ''OperationalError''"
| "exn_name RuntimeError = ''RuntimeError''"

definition is_upper :: "char \<Rightarrow> bool" where
  "is_upper c \<longleftrightarrow> 65 \<le> (of_char c :: nat) \<and> (of_char c :: nat) \<le> 90"

definition lower_char :: "char \<Rightarrow> char" where
  "lower_char c = (if is_upper c then char_of (of_char c + 32 :: nat) else c)"

text \<open>\<open>re.sub(r"(?!^)([A-Z])", r"_\1", name).lower()\<close>\<close>

definition snake_case :: "string \<Rightarrow> string" where
  "snake_case s = (case s of
     [] \<Rightarrow> []
   | c # cs \<Rightarrow> map lower_char (c # concat (map (\<lambda>x. if is_upper x then [CHR ''_'', x] else [x]) cs)))"

definition database_connect_args :: "database_settings \<Rightarrow> string \<times> bool" where
  "database_connect_args s =
     (if db_database s = '':memory:'' then (''file:oauthclientbridge?mode=memory&cache=shared'', True)
      else (db_database s, False))"

definition sqlite_call :: "env \<Rightarrow> unit prog" where
  "sqlite_call E = seqA tick (\<lambda>n. case db_faults E n of None \<Rightarrow> returnA () | Some e \<Rightarrow> raiseA e)"

definition execute :: "env \<Rightarrow> 'a stmt \<Rightarrow> 'a prog" where
  "execute E stmt = seqA (sqlite_call E) (\<lambda>_ w. case stmt (db w) of (r, d) \<Rightarrow> (r, w\<lparr>db := d\<rparr>))"

text \<open>Connecting runs the configured pragmas, which do not change the table.\<close>

primrec run_pragmas :: "env \<Rightarrow> string list \<Rightarrow> unit prog" where
  "run_pragmas E [] = returnA ()"
| "run_pragmas E (p # ps) = seqA (sqlite_call E) (\<lambda>_. run_pragmas E ps)"

definition connect :: "env \<Rightarrow> database_settings \<Rightarrow> unit prog" where
  "connect E s = seqA (sqlite_call E) (\<lambda>_. run_pragmas E (db_pragmas s))"

definition get_connection :: "env \<Rightarrow> database_settings \<Rightarrow> unit prog" where
  "get_connection E s = seqA (getsA db_open) (\<lambda>o'.
     if o' then returnA () else seqA (connect E s) (\<lambda>_. modifyA (\<lambda>w. w\<lparr>db_open := True\<rparr>)))"

definition close :: "(world, 'e, unit) act" where
  "close = modifyA (\<lambda>w. w\<lparr>db_open := False\<rparr>)"

section \<open>Cursor\<close>

definition rollback :: "database \<Rightarrow> unit prog" where
  "rollback saved = modifyA (\<lambda>w. w\<lparr>db := saved\<rparr>)"

text \<open>
  The \<open>with source as connection\<close> block around the body: begin, body, commit.  The body's
  exception rolls back at once; the one of the commit does when the block is left.
\<close>

definition transact :: "env \<Rightarrow> bool \<Rightarrow> 'a prog \<Rightarrow> 'a prog" where
  "transact E transaction body =
     seqA (getsA db) (\<lambda>saved.
     catchA
       (seqA (catchA
          (seqA (if transaction then sqlite_call E else returnA ()) (\<lambda>_. body))
          (\<lambda>e. seqA (if transaction then rollback saved else returnA ()) (\<lambda>_. raiseA e))) (\<lambda>a.
        seqA (if transaction then sqlite_call E else returnA ()) (\<lambda>_. returnA a)))
       (\<lambda>e. seqA (if transaction then rollback saved else returnA ()) (\<lambda>_. raiseA e)))"

text \<open>\<open>own\<close> says whether the connection of the application context is used (and opened if needed).\<close>

definition cursor ::
    "env \<Rightarrow> database_settings \<Rightarrow> string \<Rightarrow> bool \<Rightarrow> bool \<Rightarrow> 'a prog \<Rightarrow> 'a prog" where
  "cursor E s name transaction own body =
     seqA (monotonic E) (\<lambda>start_time.
     seqA (catchA
        (seqA (if own then get_connection E s else returnA ()) (\<lambda>_. transact E transaction body))
        (\<lambda>e. seqA (if is_sqlite_error e then emit (DbError name (snake_case (exn_name e))) else returnA ()) (\<lambda>_.
             seqA (monotonic E) (\<lambda>_.
             seqA (emit (DbOperation name transaction
                     (if is_sqlite_error e then Some (exn_name e) else None))) (\<lambda>_.
               raiseA e))))) (\<lambda>a.
     seqA (monotonic E) (\<lambda>_.
     seqA (emit (DbOperation name transaction None)) (\<lambda>_.
       returnA a))))"

section \<open>Operations\<close>

record token_record =
  tr_client_id :: client_id
  tr_encrypted_token :: "string option"
  tr_created_at :: "int option"
  tr_last_updated_at :: "int option"

definition prepare_token :: "string option \<Rightarrow> string option res" where
  "prepare_token t = (case t of
     None \<Rightarrow> Inr None
   | Some s \<Rightarrow> if ascii_ok s then Inr (Some s) else Inl ValueError)"

definition prepare_timestamp :: "rat option \<Rightarrow> int option" where
  "prepare_timestamp t = map_option trunc_rat t"

definition initialize :: "env \<Rightarrow> database_settings \<Rightarrow> unit prog" where
  "initialize E s = seqA (get_connection E s) (\<lambda>_.
     seqA (sqlite_call E) (\<lambda>_. execute E sql_create_table))"

definition upgrade :: "env \<Rightarrow> database_settings \<Rightarrow> unit prog" where
  "upgrade E s =
     seqA (get_connection E s) (\<lambda>_.
     seqA (execute E sql_table_info) (\<lambda>cs.
     seqA (if ''created_at'' \<notin> set cs then execute E (sql_add_column ''created_at'') else returnA ()) (\<lambda>_.
       if ''last_updated_at'' \<notin> set cs then execute E (sql_add_column ''last_updated_at'')
       else returnA ())))"

definition is_initialized :: "env \<Rightarrow> database_settings \<Rightarrow> bool prog" where
  "is_initialized E s = cursor E s ''check_tokens_table'' False True (execute E sql_has_table)"

definition vacuum :: "env \<Rightarrow> database_settings \<Rightarrow> unit prog" where
  "vacuum E s = seqA (get_connection E s) (\<lambda>_. sqlite_call E)"

definition insert_token :: "env \<Rightarrow> database_settings \<Rightarrow> client_id \<Rightarrow> string \<Rightarrow> unit prog" where
  "insert_token E s cid token =
     seqA (wall_time E) (\<lambda>now.
     seqA (cursor E s ''insert_token'' True True
        (seqA (liftA (prepare_token (Some token))) (\<lambda>t.
          execute E (sql_insert (uuid_str cid) \<lparr> row_token = t,
            row_created_at = prepare_timestamp (Some now),
            row_last_updated_at = prepare_timestamp (Some now) \<rparr>)))) (\<lambda>_.
       emit RefreshRequested))"

text \<open>An empty token reads as a revoked one.\<close>

definition lookup_token :: "env \<Rightarrow> database_settings \<Rightarrow> client_id \<Rightarrow> token_record prog" where
  "lookup_token E s cid =
     seqA (cursor E s ''lookup_token'' False True (execute E (sql_select (uuid_str cid)))) (\<lambda>row.
     case row of
       None \<Rightarrow> raiseA LookupError
     | Some r \<Rightarrow> returnA
         \<lparr> tr_client_id = cid,
           tr_encrypted_token = (case row_token r of None \<Rightarrow> None | Some t \<Rightarrow> if t = [] then None else Some t),
           tr_created_at = row_created_at r, tr_last_updated_at = row_last_updated_at r \<rparr>)"

definition update_token :: "env \<Rightarrow> database_settings \<Rightarrow> client_id \<Rightarrow> string option \<Rightarrow> nat prog" where
  "update_token E s cid token =
     seqA (wall_time E) (\<lambda>now.
     seqA (cursor E s ''update_token'' True True
        (seqA (liftA (prepare_token token)) (\<lambda>t.
          execute E (sql_update (uuid_str cid) t (prepare_timestamp (Some now)))))) (\<lambda>rowcount.
     seqA (if rowcount \<noteq> 0 then emit RefreshRequested else returnA ()) (\<lambda>_.
       returnA rowcount)))"

definition token_state_counts_on :: "env \<Rightarrow> database_settings \<Rightarrow> bool \<Rightarrow> (nat \<times> nat) prog" where
  "token_state_counts_on E s own =
     seqA (catchA
        (seqA (cursor E s ''count_token_states'' False own (execute E sql_count_states)) (\<lambda>row.
          returnA (Some row)))
        (\<lambda>e. if e = OperationalError NO_SUCH_TABLE then returnA None else raiseA e)) (\<lambda>row.
     returnA (case row of
        None \<Rightarrow> (0, 0)
      | Some (present, revoked) \<Rightarrow>
          (case present of None \<Rightarrow> 0 | Some n \<Rightarrow> n, case revoked of None \<Rightarrow> 0 | Some n \<Rightarrow> n)))"

text \<open>The counts are taken on a connection of their own, closed afterwards.\<close>

definition token_state_counts :: "env \<Rightarrow> database_settings \<Rightarrow> (nat \<times> nat) prog" where
  "token_state_counts E s = seqA (connect E s) (\<lambda>_. token_state_counts_on E s False)"

section \<open>What the context manager guarantees\<close>

definition same_db :: "world \<Rightarrow> world \<Rightarrow> bool" where
  "same_db w w' \<longleftrightarrow> db w' = db w"

lemma same_db_refl [keeps_intros]: "reflp same_db"
  by (simp add: reflp_def same_db_def)

lemma same_db_trans [keeps_intros]: "transp same_db"
  by (rule transpI) (simp add: same_db_def)

lemma same_db_steps [keeps_intros]:
  "effect_within same_db (emit e)" "effect_within same_db tick" "effect_within same_db (monotonic E)"
  "effect_within same_db (wall_time E)" "effect_within same_db close"
  by (simp_all add: effect_within_def act_simps same_db_def close_def)

lemma same_db_sqlite_call [keeps_intros]: "effect_within same_db (sqlite_call E)"
  unfolding sqlite_call_def by (intro keeps_intros)

lemma same_db_pragmas [keeps_intros]: "effect_within same_db (run_pragmas E ps)"
  by (induction ps) (auto intro!: keeps_intros)

lemma same_db_connect [keeps_intros]: "effect_within same_db (connect E s)"
  unfolding connect_def by (intro keeps_intros)

lemma same_db_get [keeps_intros]: "effect_within same_db (get_connection E s)"
  unfolding get_connection_def
  by (intro keeps_intros effect_modifyA) (simp add: same_db_def)

lemma same_db_generate [keeps_intros]:
  "effect_within same_db (generate_id E)" "effect_within same_db (generate_key E)"
  unfolding generate_id_def generate_key_def by (intro keeps_intros)+

lemma same_db_dumps [keeps_intros]: "effect_within same_db (crypto_dumps E k d)"
  unfolding crypto_dumps_def by (intro keeps_intros)

lemma same_db_wp: "effect_within same_db m \<Longrightarrow> wp m (\<lambda>_ w'. db w' = db w) (\<lambda>_ w'. db w' = db w) w"
  by (simp add: wp_effect same_db_def [abs_def])

lemma same_db_execute: "(\<And>d. snd (stmt d) = d) \<Longrightarrow> effect_within same_db (execute E stmt)"
  unfolding execute_def
  by (rule effect_seqA [OF same_db_trans same_db_sqlite_call])
    (auto simp: effect_within_def same_db_def split: prod.split, metis snd_conv)

text \<open>What is raised by \<open>sqlite3\<close> itself satisfies \<open>Y\<close>.\<close>

definition faults_are :: "env \<Rightarrow> (pyexn \<Rightarrow> bool) \<Rightarrow> bool" where
  "faults_are E Y \<longleftrightarrow> (\<forall>n e. db_faults E n = Some e \<longrightarrow> Y e)"

lemma faults_any [simp]: "faults_are E (\<lambda>_. True)"
  by (simp add: faults_are_def)

lemma sqlite_call_rule:
  "faults_are E Y \<Longrightarrow> wp (sqlite_call E) (\<lambda>_ v'. db v' = db v) (\<lambda>e v'. Y e \<and> db v' = db v) v"
  unfolding sqlite_call_def by (auto simp: wp_simps faults_are_def split: option.split)

lemma run_pragmas_rule:
  "faults_are E Y \<Longrightarrow> wp (run_pragmas E ps) (\<lambda>_ v'. db v' = db v) (\<lambda>e v'. Y e \<and> db v' = db v) v"
proof (induction ps arbitrary: v)
  case (Cons p ps)
  have "wp (run_pragmas E ps) (\<lambda>_ v'. db v' = db v) (\<lambda>e v'. Y e \<and> db v' = db v) u" if "db u = db v" for u
    using Cons.IH [of u] Cons.prems that by simp
  then show ?case
    unfolding run_pragmas.simps wp_seqA by (intro wp_mono [OF sqlite_call_rule [OF Cons.prems]]) auto
qed (simp add: wp_simps)

lemma connect_rule:
  assumes "faults_are E Y"
  shows "wp (connect E s) (\<lambda>_ v'. db v' = db v) (\<lambda>e v'. Y e \<and> db v' = db v) v"
proof -
  have "wp (run_pragmas E ps) (\<lambda>_ v'. db v' = db v) (\<lambda>e v'. Y e \<and> db v' = db v) u" if "db u = db v" for u ps
    using run_pragmas_rule [OF assms, of ps u] that by simp
  then show ?thesis
    unfolding connect_def wp_seqA by (intro wp_mono [OF sqlite_call_rule [OF assms]]) auto
qed

lemma get_rule:
  assumes "faults_are E Y"
  shows "wp (get_connection E s) (\<lambda>_ v'. db v' = db v) (\<lambda>e v'. Y e \<and> db v' = db v) v"
  unfolding get_connection_def wp_simps
  by (auto simp: wp_simps intro!: wp_mono [OF connect_rule [OF assms]])

text \<open>A transaction's body works on the database as it was, and an exception restores it.\<close>

lemma transact_rule:
  assumes "\<And>v. db v = db w \<Longrightarrow> wp body (\<lambda>a v'. P a (db v')) (\<lambda>e v'. Y e \<and> (t \<or> db v' = db w)) v"
    and "faults_are E Y"
  shows "wp (transact E t body) (\<lambda>a w'. P a (db w')) (\<lambda>e w'. Y e \<and> db w' = db w) w"
proof (cases t)
  case True
  then show ?thesis
    unfolding transact_def rollback_def wp_simps
    by (auto intro!: wp_mono [OF sqlite_call_rule [OF assms(2)]] wp_mono [OF assms(1)])
next
  case False
  then show ?thesis
    unfolding transact_def wp_simps
    using assms(1) [of w] by (auto simp: wp_simps elim!: wp_mono)
qed

lemma cursor_rule:
  assumes "\<And>v. db v = db w \<Longrightarrow> wp body (\<lambda>a v'. P a (db v')) (\<lambda>e v'. Y e \<and> (t \<or> db v' = db w)) v"
    and "faults_are E Y"
  shows "wp (cursor E s name t own body) (\<lambda>a w'. P a (db w')) (\<lambda>e w'. Y e \<and> db w' = db w) w"
proof -
  have body: "db v = db w \<Longrightarrow> wp (transact E t body) (\<lambda>a w'. P a (db w')) (\<lambda>e w'. Y e \<and> db w' = db w) v" for v
    using transact_rule [of v body P Y t E] assms by simp
  show ?thesis
    unfolding cursor_def wp_seqA wp_catchA
    by (cases own)
      (auto simp: wp_simps intro!: wp_mono [OF get_rule [OF assms(2)]] wp_mono [OF body] body)
qed

lemmas cursor_any = cursor_rule [where Y = "\<lambda>_. True", simplified]

section \<open>What the operations do to the table\<close>

lemma execute_wp:
  "wp (execute E stmt) Q X v \<longleftrightarrow> wp (sqlite_call E) (\<lambda>_ v'. case stmt (db v') of
     (Inl e, d) \<Rightarrow> X e (v'\<lparr>db := d\<rparr>) | (Inr a, d) \<Rightarrow> Q a (v'\<lparr>db := d\<rparr>)) X v"
  unfolding execute_def wp_seqA by (simp add: wp_def split: prod.split sum.split)

lemma execute_rule:
  assumes "\<And>a d. stmt (db v) = (Inr a, d) \<Longrightarrow> P a d"
    and "\<And>e d. stmt (db v) = (Inl e, d) \<Longrightarrow> Y e \<and> (t \<or> d = db v)"
    and "faults_are E Y"
  shows "wp (execute E stmt) (\<lambda>a v'. P a (db v')) (\<lambda>e v'. Y e \<and> (t \<or> db v' = db v)) v"
  unfolding execute_wp
  by (rule wp_mono [OF sqlite_call_rule [OF assms(3)]])
    (use assms(1,2) in \<open>auto split: prod.split sum.split\<close>)

lemma insert_token_post:
  assumes "ready (db w)"
  shows "wp (insert_token E s cid token)
     (\<lambda>_ w'. grants (db w) (uuid_str cid) = None \<and> ready (db w')
        \<and> grants (db w') = (grants (db w))(uuid_str cid \<mapsto> Some token))
     (\<lambda>_ w'. db w' = db w) w"
proof -
  let ?P = "\<lambda>_ d. grants (db w) (uuid_str cid) = None \<and> ready d
      \<and> grants d = (grants (db w))(uuid_str cid \<mapsto> Some token)"
  let ?body = "\<lambda>now. seqA (liftA (prepare_token (Some token))) (\<lambda>t. execute E (sql_insert (uuid_str cid)
      \<lparr> row_token = t, row_created_at = prepare_timestamp (Some now),
        row_last_updated_at = prepare_timestamp (Some now) \<rparr>))"
  have ins: "?P a d" if "sql_insert (uuid_str cid) r (db w) = (Inr a, d)" "row_token r = Some token" for a d r
    using that assms table_store.usable_ins [OF assms, of "uuid_str cid" r]
      table_store.ins_new [OF assms, of "uuid_str cid" r] table_store.ins_taken [OF assms, of "uuid_str cid" r]
    by (cases "grants (db w) (uuid_str cid)") auto
  have "wp (?body now) (\<lambda>a v'. ?P a (db v')) (\<lambda>_ v'. True \<or> db v' = db w) v" if "db v = db w" for now v
    unfolding wp_seqA prepare_token_def
    using that ins by (auto simp: wp_simps intro!: execute_rule [where t = True and Y = "\<lambda>_. True", simplified])
  then have "wp (cursor E s ''insert_token'' True True (?body now)) (\<lambda>a w'. ?P a (db w'))
      (\<lambda>_ w'. db w' = db w) v" if "db v = db w" for now v
    using that cursor_any [of v "?body now" ?P True] by simp
  then show ?thesis
    unfolding insert_token_def wp_seqA by (auto simp: wp_simps elim!: wp_mono)
qed

definition nonempty :: "string option \<Rightarrow> string option" where
  "nonempty t = (case t of None \<Rightarrow> None | Some s \<Rightarrow> if s = [] then None else Some s)"

lemma lookup_token_post:
  assumes "ready (db w)"
  shows "wp (lookup_token E s cid)
     (\<lambda>r w'. db w' = db w \<and> tr_client_id r = cid \<and> (\<exists>t. grants (db w) (uuid_str cid) = Some t
        \<and> tr_encrypted_token r = nonempty t))
     (\<lambda>e w'. db w' = db w) w"
proof -
  let ?P = "\<lambda>row d. d = db w \<and> row = map_of (rows (db w)) (uuid_str cid)"
  have sel: "sql_select (uuid_str cid) (db w) = (Inr (map_of (rows (db w)) (uuid_str cid)), db w)"
    using assms by (simp add: sql_select_def ready_def)
  have "wp (execute E (sql_select (uuid_str cid))) (\<lambda>a v'. ?P a (db v')) (\<lambda>_ v'. False \<or> db v' = db w) v"
    if "db v = db w" for v
    using execute_rule [of "sql_select (uuid_str cid)" v ?P "\<lambda>_. True" False E] sel that by simp
  then have "wp (cursor E s ''lookup_token'' False True (execute E (sql_select (uuid_str cid))))
      (\<lambda>a w'. ?P a (db w')) (\<lambda>_ w'. db w' = db w) w"
    by (rule cursor_any)
  then show ?thesis
    unfolding lookup_token_def wp_seqA
    by (rule wp_mono) (auto simp: wp_simps grants_def nonempty_def split: option.split)
qed

lemma update_token_post:
  assumes "ready (db w)"
  shows "wp (update_token E s cid token)
     (\<lambda>n w'. ready (db w') \<and> n = (if grants (db w) (uuid_str cid) = None then 0 else 1)
        \<and> grants (db w') = (if n = 0 then grants (db w) else (grants (db w))(uuid_str cid \<mapsto> token)))
     (\<lambda>_ w'. db w' = db w) w"
proof -
  let ?P = "\<lambda>n d. ready d \<and> n = (if grants (db w) (uuid_str cid) = None then 0 else 1)
      \<and> grants d = (if n = 0 then grants (db w) else (grants (db w))(uuid_str cid \<mapsto> token))"
  let ?body = "\<lambda>now. seqA (liftA (prepare_token token)) (\<lambda>t. execute E
      (sql_update (uuid_str cid) t (prepare_timestamp (Some now))))"
  have upd: "?P n d" if "sql_update (uuid_str cid) token now (db w) = (Inr n, d)" for n d now
    using that assms table_store.usable_upd [OF assms, of "uuid_str cid" token now]
      table_store.upd_known [OF assms, of "uuid_str cid" token now]
      table_store.upd_unknown [OF assms, of "uuid_str cid" token now]
    by (cases "grants (db w) (uuid_str cid)") auto
  have "wp (?body now) (\<lambda>a v'. ?P a (db v')) (\<lambda>_ v'. True \<or> db v' = db w) v" if "db v = db w" for now v
  proof (cases "prepare_token token")
    case (Inr t)
    then have "t = token" by (auto simp: prepare_token_def split: option.splits if_splits)
    with Inr that upd show ?thesis
      unfolding wp_seqA by (auto simp: wp_simps intro!: execute_rule [where t = True and Y = "\<lambda>_. True", simplified])
  qed (simp add: wp_simps)
  then have cur: "wp (cursor E s ''update_token'' True True (?body now)) (\<lambda>a w'. ?P a (db w'))
      (\<lambda>_ w'. db w' = db w) v" if "db v = db w" for now v
    using that cursor_any [of v "?body now" ?P True] by simp
  show ?thesis
    unfolding update_token_def wp_basic wp_seqA wp_world wp_if
    by (rule wp_mono [OF cur]) auto
qed

section \<open>Properties\<close>


text \<open>A commit that fails because the database is locked.\<close>

definition locked_env :: env where
  "locked_env = sample_env\<lparr>db_faults := (\<lambda>n. if n = 5 then Some (OperationalError ''database is locked'') else None)\<rparr>"

definition fresh_world :: world where
  "fresh_world = initial_world\<lparr>db := \<lparr> columns = Some token_columns, rows = [] \<rparr>\<rparr>"

lemma ready_fresh: "ready (db fresh_world)"
  by (simp add: fresh_world_def ready_def database_ok_def has_columns_def)

lemma locked_run:
  "fst (cursor locked_env database_defaults ''insert_token'' True True
     (execute locked_env (sql_insert ''c'' \<lparr> row_token = Some ''t'', row_created_at = None,
        row_last_updated_at = None \<rparr>)) fresh_world) = Inl (OperationalError ''database is locked'')"
  by (simp add: cursor_def transact_def execute_def get_connection_def connect_def sqlite_call_def rollback_def
      database_defaults_def fresh_world_def initial_world_def locked_env_def sample_env_def
      sql_insert_def has_columns_def is_sqlite_error_def act_simps)


text \<open>
  On a usable table inserting a token either adds exactly the grant of a client that had none,
  or raises and changes nothing; so a collision of client ids never overwrites a stored grant.
\<close>
theorem insert_adds_one_grant:
  assumes "ready (db w)" and "insert_token E s cid token w = (r, w')"
  shows "case r of
      Inr _ \<Rightarrow> grants (db w) (uuid_str cid) = None \<and> ready (db w')
        \<and> grants (db w') = (grants (db w))(uuid_str cid \<mapsto> Some token)
    | Inl _ \<Rightarrow> db w' = db w"
  using insert_token_post [OF assms(1), of E s cid token] assms(2) by (simp add: wp_def)

theorem insert_adds_one_grant_witness:
  "grants (db (snd (insert_token sample_env database_defaults 7 ''token'' fresh_world)))
     = (grants (db fresh_world))(uuid_str 7 \<mapsto> Some ''token'')"
proof -
  let ?m = "insert_token sample_env database_defaults 7 ''token'' fresh_world"
  have "fst ?m = Inr ()" by code_simp
  then have m: "?m = (Inr (), snd ?m)" by (simp add: prod_eq_iff)
  from insert_adds_one_grant [OF ready_fresh m] show ?thesis by simp
qed

text \<open>
  An update touches the stored token of one known client and nothing else; of an unknown
  client it creates no row, and its row count tells the two apart.
\<close>
theorem update_changes_one_grant:
  assumes "ready (db w)" and "update_token E s cid token w = (r, w')"
  shows "case r of
      Inr n \<Rightarrow> ready (db w') \<and> (n = 0 \<longleftrightarrow> grants (db w) (uuid_str cid) = None)
        \<and> grants (db w') = (if n = 0 then grants (db w) else (grants (db w))(uuid_str cid \<mapsto> token))
    | Inl _ \<Rightarrow> db w' = db w"
  using update_token_post [OF assms(1), of E s cid token] assms(2)
  by (auto simp: wp_def split: sum.splits)

theorem update_changes_one_grant_witness:
  "grants (db (snd (update_token sample_env database_defaults 8 None fresh_world)))
     = grants (db fresh_world)"
proof -
  let ?m = "update_token sample_env database_defaults 8 None fresh_world"
  have "fst ?m = Inr 0" by code_simp
  then have m: "?m = (Inr 0, snd ?m)" by (simp add: prod_eq_iff)
  from update_changes_one_grant [OF ready_fresh m] show ?thesis by simp
qed

lemma execute_post: "wp (execute E stmt) (\<lambda>a v'. stmt (db v) = (Inr a, db v')) (\<lambda>_ _. True) v"
  unfolding execute_wp
  by (rule wp_mono [OF sqlite_call_rule [OF faults_any]]) (auto split: prod.split sum.split)

lemma add_column_effect:
  assumes "sql_add_column c d = (Inr u, d')" and "database_ok d"
  shows "database_ok d'" "rows d' = rows d"
    "\<exists>cs. columns d = Some cs \<and> columns d' = Some (cs @ [c])"
  using assms stmt_ok(2) [OF assms(2), of c]
  by (auto simp: sql_add_column_def split: option.splits if_splits)

text \<open>
  Upgrading a database of an older version, one that lacks either or both of the timestamp
  columns, makes it usable and keeps every stored grant; on a usable database it changes nothing.
\<close>
theorem upgrade_keeps_grants:
  assumes "database_ok (db w)" and "has_columns [''client_id'', ''token''] (db w)"
    and "upgrade E s w = (Inr (), w')"
  shows "ready (db w') \<and> grants (db w') = grants (db w) \<and> (ready (db w) \<longrightarrow> db w' = db w)"
proof -
  obtain cs where cs: "columns (db w) = Some cs" "{''client_id'', ''token''} \<subseteq> set cs"
    using assms(2) by (auto simp: has_columns_def split: option.splits)
  let ?Q = "\<lambda>v. database_ok (db v) \<and> rows (db v) = rows (db w)
      \<and> (\<exists>cs'. columns (db v) = Some cs' \<and> set token_columns \<subseteq> set cs' \<and> (set token_columns \<subseteq> set cs \<longrightarrow> cs' = cs))"
  let ?R = "\<lambda>v. database_ok (db v) \<and> rows (db v) = rows (db w)
      \<and> columns (db v) = Some (cs @ (if ''created_at'' \<in> set cs then [] else [''created_at'']))"
  have step: "wp (if c \<notin> set cs then execute E (sql_add_column c) else returnA ())
      (\<lambda>_ v'. database_ok (db v') \<and> rows (db v') = rows (db v) \<and>
        columns (db v') = Some (cs'' @ (if c \<in> set cs then [] else [c]))) (\<lambda>_ _. True) v"
    if "database_ok (db v)" "columns (db v) = Some cs''" for c v cs''
    using that add_column_effect by (auto simp: wp_simps intro!: wp_mono [OF execute_post])
      (metis option.inject)+
  have "wp (upgrade E s) (\<lambda>_ v. ?Q v) (\<lambda>_ _. True) w"
    unfolding upgrade_def wp_seqA
  proof (rule wp_mono [OF get_rule [OF faults_any]], goal_cases)
    case (1 u v)
    show ?case
    proof (rule wp_mono [OF execute_post], goal_cases)
      case (1 cols v')
      then have v': "db v' = db w" "cols = cs" using \<open>db v = db w\<close> cs by (auto simp: sql_table_info_def)
      have "wp (if ''created_at'' \<notin> set cols then execute E (sql_add_column ''created_at'') else returnA ())
          (\<lambda>_ v. ?R v) (\<lambda>_ _. True) v'"
        using step [of v' cs "''created_at''"] assms(1) cs v' by simp
      then show ?case
      proof (rule wp_mono, goal_cases)
        case (1 u2 v2)
        then have "wp (if ''last_updated_at'' \<notin> set cs then execute E (sql_add_column ''last_updated_at'')
              else returnA ())
            (\<lambda>_ v'. database_ok (db v') \<and> rows (db v') = rows (db v2) \<and> columns (db v') =
              Some ((cs @ (if ''created_at'' \<in> set cs then [] else [''created_at'']))
                @ (if ''last_updated_at'' \<in> set cs then [] else [''last_updated_at'']))) (\<lambda>_ _. True) v2"
          by (intro step) auto
        then show ?case
          unfolding v' by (rule wp_mono) (use 1 cs in \<open>auto simp: token_columns_def\<close>)
      qed simp
    qed simp
  qed simp
  with assms(3) have Q: "?Q w'" by (simp add: wp_def)
  then have "ready (db w')" "grants (db w') = grants (db w)"
    by (auto simp: ready_def has_columns_def grants_def)
  moreover have "db w' = db w" if "ready (db w)"
  proof -
    have "columns (db w') = columns (db w)" using Q that cs by (auto simp: ready_def has_columns_def)
    with Q show ?thesis by (cases "db w'"; cases "db w") simp
  qed
  ultimately show ?thesis by blast
qed

definition old_world :: world where
  "old_world = initial_world\<lparr>db := \<lparr> columns = Some [''client_id'', ''token''],
     rows = [(''c'', \<lparr> row_token = Some ''t'', row_created_at = None, row_last_updated_at = None \<rparr>)] \<rparr>\<rparr>"

theorem upgrade_keeps_grants_witness:
  "\<not> ready (db old_world) \<and> ready (db (snd (upgrade sample_env database_defaults old_world)))
   \<and> grants (db (snd (upgrade sample_env database_defaults old_world))) ''c'' = Some (Some ''t'')"
proof -
  let ?m = "upgrade sample_env database_defaults old_world"
  have "fst ?m = Inr ()" by code_simp
  then have m: "?m = (Inr (), snd ?m)" by (simp add: prod_eq_iff)
  have "database_ok (db old_world)" "has_columns [''client_id'', ''token''] (db old_world)"
    and not: "\<not> ready (db old_world)" and g: "grants (db old_world) ''c'' = Some (Some ''t'')"
    by (simp_all add: old_world_def database_ok_def has_columns_def ready_def token_columns_def grants_def)
  from upgrade_keeps_grants [OF this(1,2) m] not g show ?thesis by simp
qed

text \<open>How the rows of a state are counted.\<close>

lemma card_rows:
  assumes "distinct (map fst rs)"
  shows "card {c. \<exists>r. map_of rs c = Some r \<and> P r} = length (filter (\<lambda>(_, r). P r) rs)"
proof -
  have "{c. \<exists>r. map_of rs c = Some r \<and> P r} = set (map fst (filter (\<lambda>(_, r). P r) rs))"
    using assms by (force simp: map_of_eq_Some_iff)
  also have "card \<dots> = length (filter (\<lambda>(_, r). P r) rs)"
    using distinct_card [OF distinct_map_filter [OF assms]] by simp
  finally show ?thesis .
qed

lemma count_split:
  "length (filter (\<lambda>(_, r). P r) rs) + length (filter (\<lambda>(_, r). \<not> P r) rs) = length rs"
  by (induction rs) auto

lemma sql_count_states_value:
  assumes "sql_count_states d = (Inr (p, q), d')"
  shows "(case p of None \<Rightarrow> 0 | Some n \<Rightarrow> n) = length (filter (\<lambda>(_, r). row_token r \<noteq> None) (rows d))"
    "(case q of None \<Rightarrow> 0 | Some n \<Rightarrow> n) = length (filter (\<lambda>(_, r). \<not> row_token r \<noteq> None) (rows d))"
  using assms by (auto simp: sql_count_states_def split: if_splits)

lemma token_state_counts_post:
  assumes ok: "database_ok (db w)" and nf: "faults_are E (\<lambda>e. e \<noteq> OperationalError NO_SUCH_TABLE)"
  shows "wp (token_state_counts E s) (\<lambda>(p, q) w'. db w' = db w
      \<and> p = length (filter (\<lambda>(_, r). row_token r \<noteq> None) (rows (db w)))
      \<and> q = length (filter (\<lambda>(_, r). \<not> row_token r \<noteq> None) (rows (db w)))) (\<lambda>_ _. True) w"
proof -
  let ?Q = "\<lambda>(p, q) w'. db w' = db w
      \<and> p = length (filter (\<lambda>(_, r). row_token r \<noteq> None) (rows (db w)))
      \<and> q = length (filter (\<lambda>(_, r). \<not> row_token r \<noteq> None) (rows (db w)))"
  let ?P = "\<lambda>row d. d = db w \<and> sql_count_states (db w) = (Inr row, db w)"
  let ?Y = "\<lambda>e. e = OperationalError NO_SUCH_TABLE \<longrightarrow> rows (db w) = []"
  have nf': "faults_are E ?Y" using nf by (auto simp: faults_are_def)
  have stmt: "sql_count_states (db w) = (r, d) \<Longrightarrow> d = db w" for r d
    using read_only(4) [of "db w"] by simp
  have missing: "sql_count_states (db w) = (Inl e, d) \<Longrightarrow> ?Y e" for e d
    using ok by (auto simp: sql_count_states_def missing_def NO_SUCH_TABLE_def database_ok_def
        split: option.splits if_splits)
  have exec: "wp (execute E sql_count_states) (\<lambda>a v'. ?P a (db v')) (\<lambda>e v'. ?Y e \<and> (False \<or> db v' = db w)) v"
    if v: "db v = db w" for v
  proof -
    have "wp (execute E sql_count_states) (\<lambda>a v'. ?P a (db v')) (\<lambda>e v'. ?Y e \<and> (False \<or> db v' = db v)) v"
      by (rule execute_rule [OF _ _ nf']) (use stmt missing v in auto)
    then show ?thesis using v by simp
  qed
  have cur: "wp (cursor E s name False own (execute E sql_count_states)) (\<lambda>a w'. ?P a (db w'))
      (\<lambda>e w'. ?Y e \<and> db w' = db w) v" if "db v = db w" for v name own
    using cursor_rule [of v "execute E sql_count_states" ?P ?Y False E s name own, OF _ nf'] exec that
    by simp
  have on: "wp (token_state_counts_on E s False) ?Q (\<lambda>_ _. True) v" if v: "db v = db w" for v
    unfolding token_state_counts_on_def wp_seqA wp_catchA
  proof (rule wp_mono [OF cur [OF v]], goal_cases)
    case (1 row w')
    then show ?case
      using sql_count_states_value [of "db w"] by (cases row) (auto simp: wp_simps)
  next
    case (2 e w')
    then show ?case by (auto simp: wp_simps)
  qed
  show ?thesis
    unfolding token_state_counts_def wp_seqA
    by (rule wp_mono [OF connect_rule [OF faults_any]], rule on) simp_all
qed

lemma state_cards:
  assumes "database_ok d"
  shows "card {c. \<exists>t. grants d c = Some (Some t)} = length (filter (\<lambda>(_, r). row_token r \<noteq> None) (rows d))"
    and "card {c. grants d c = Some None} = length (filter (\<lambda>(_, r). \<not> row_token r \<noteq> None) (rows d))"
proof -
  have dist: "distinct (map fst (rows d))" using assms by (simp add: database_ok_def)
  have "{c. \<exists>t. grants d c = Some (Some t)} = {c. \<exists>r. map_of (rows d) c = Some r \<and> row_token r \<noteq> None}"
    "{c. grants d c = Some None} = {c. \<exists>r. map_of (rows d) c = Some r \<and> \<not> row_token r \<noteq> None}"
    by (auto simp: grants_def)
  then show "card {c. \<exists>t. grants d c = Some (Some t)} = length (filter (\<lambda>(_, r). row_token r \<noteq> None) (rows d))"
    "card {c. grants d c = Some None} = length (filter (\<lambda>(_, r). \<not> row_token r \<noteq> None) (rows d))"
    by (simp_all only: card_rows [OF dist])
qed

text \<open>
  The token gauge partitions the table: the present and the revoked records that are counted
  are the clients with and without a stored token, they add up to all records, counting changes
  nothing, and a database without the table counts as empty.  (SQLite reports a missing table only
  when it is missing.)
\<close>
theorem token_counts_partition:
  assumes "database_ok (db w)" and "faults_are E (\<lambda>e. e \<noteq> OperationalError NO_SUCH_TABLE)"
    and "token_state_counts E s w = (Inr (present, revoked), w')"
  shows "present = card {c. \<exists>t. grants (db w) c = Some (Some t)}
    \<and> revoked = card {c. grants (db w) c = Some None}
    \<and> present + revoked = length (rows (db w)) \<and> db w' = db w"
  using wp_Inr [OF token_state_counts_post [OF assms(1,2)] assms(3)] state_cards [OF assms(1)]
    count_split [of "\<lambda>r. row_token r \<noteq> None" "rows (db w)"] by auto

theorem token_counts_partition_witness:
  "fst (token_state_counts sample_env database_defaults fresh_world) = Inr (0, 0)
   \<and> (0 :: nat) = card {c. grants (db fresh_world) c = Some None}"
proof -
  let ?m = "token_state_counts sample_env database_defaults fresh_world"
  have run: "fst ?m = Inr (0, 0)" by code_simp
  then have m: "?m = (Inr (0, 0), snd ?m)" by (simp add: prod_eq_iff)
  have "database_ok (db fresh_world)" using ready_fresh by (simp add: ready_def)
  moreover have "faults_are sample_env (\<lambda>e. e \<noteq> OperationalError NO_SUCH_TABLE)"
    by (simp add: faults_are_def sample_env_def)
  ultimately show ?thesis using token_counts_partition [OF _ _ m] run by blast
qed

end
