(* ===== verification/Background_Refresh.thy ===== *)
theory Background_Refresh
  imports Db_Access
begin

text \<open>
  \<open>utils/coalescing.py\<close>, \<open>telemetry/_refresh.py\<close> and the runtime services of \<open>__init__.py\<close>: the
  worker thread that refreshes metrics once for each burst of requests, as a step relation.

  Every block under the worker's condition variable is one step, and so is the work itself; the
  callers' operations (\<open>start\<close>, \<open>request\<close>, \<open>stop\<close>) may happen between any two steps of the thread.
  \<open>wait_for\<close> checks its predicate under the lock and at every wake-up, so it is a step that is only
  enabled when the predicate holds.  How long a wait takes is not modelled: it may end at any time.
  The ghost fields \<open>runs\<close> and \<open>spans\<close> count the work started and record what its span reports.
\<close>

section \<open>The worker\<close>

text \<open>Where the thread is: the number is the generation it read when it woke up.\<close>

datatype worker_pc = Not_Started | Startup_Wait | Waiting | Debouncing nat | Claiming nat
  | Working nat nat | Exited

record worker =
  generation :: nat
  handled_generation :: nat
  started :: bool
  stopped :: bool
  pc :: worker_pc
  runs :: nat
  spans :: "(nat \<times> nat \<times> nat) list"

definition new_worker :: worker where
  "new_worker = \<lparr> generation = 0, handled_generation = 0, started = False, stopped = False,
     pc = Not_Started, runs = 0, spans = [] \<rparr>"

definition start :: "worker \<Rightarrow> worker" where
  "start w = (if started w then w else w\<lparr>started := True, pc := Startup_Wait\<rparr>)"

definition request :: "worker \<Rightarrow> worker" where
  "request w = w\<lparr>generation := Suc (generation w)\<rparr>"

definition stop :: "worker \<Rightarrow> worker" where
  "stop w = w\<lparr>stopped := True\<rparr>"

text \<open>\<open>_wait\<close> ends with whether the worker may go on.\<close>

definition wait_result :: "worker \<Rightarrow> bool" where
  "wait_result w = (\<not> stopped w)"

text \<open>
  The next step of the thread, if it has one: \<open>None\<close> where it is blocked in \<open>wait_for\<close>, not started
  or gone.  The span attribute \<open>worker.coalesced_requests\<close> is the third component.
\<close>

fun thread_step :: "worker \<Rightarrow> worker option" where
  "thread_step w = (case pc w of
     Not_Started \<Rightarrow> None
   | Startup_Wait \<Rightarrow> Some (w\<lparr>pc := if wait_result w then Waiting else Exited\<rparr>)
   | Waiting \<Rightarrow>
       if stopped w then Some (w\<lparr>pc := Exited\<rparr>)
       else if generation w \<noteq> handled_generation w then Some (w\<lparr>pc := Debouncing (generation w)\<rparr>)
       else None
   | Debouncing g \<Rightarrow> Some (w\<lparr>pc := if wait_result w then Claiming g else Exited\<rparr>)
   | Claiming g \<Rightarrow>
       if stopped w then Some (w\<lparr>pc := Exited\<rparr>)
       else (let h = max g (generation w)
             in Some (w\<lparr>handled_generation := h, pc := Working g h, runs := Suc (runs w),
                        spans := spans w @ [(g, h, h - g + 1)]\<rparr>))
   | Working g h \<Rightarrow> Some (w\<lparr>pc := Waiting\<rparr>)
   | Exited \<Rightarrow> None)"

inductive worker_step :: "worker \<Rightarrow> worker \<Rightarrow> bool" where
  Start: "worker_step w (start w)"
| Request: "worker_step w (request w)"
| Stop: "worker_step w (stop w)"
| Thread: "thread_step w = Some w' \<Longrightarrow> worker_step w w'"
| Work_Raises: "pc w = Working g h \<Longrightarrow> worker_step w (w\<lparr>pc := Exited\<rparr>)"

inductive_cases worker_stepE: "worker_step w w'"

inductive worker_steps :: "worker \<Rightarrow> worker \<Rightarrow> bool" where
  Refl: "worker_steps w w"
| Step: "worker_steps w w' \<Longrightarrow> worker_step w' w'' \<Longrightarrow> worker_steps w w''"

lemmas worker_defs = start_def request_def stop_def wait_result_def Let_def

declare thread_step.simps [simp del]

section \<open>Invariant\<close>

definition worker_ok :: "worker \<Rightarrow> bool" where
  "worker_ok w \<longleftrightarrow> handled_generation w \<le> generation w \<and> runs w \<le> handled_generation w
     \<and> (started w \<longleftrightarrow> pc w \<noteq> Not_Started) \<and> length (spans w) = runs w
     \<and> (case pc w of
          Debouncing g \<Rightarrow> handled_generation w < g \<and> g \<le> generation w
        | Claiming g \<Rightarrow> handled_generation w < g \<and> g \<le> generation w
        | Working g h \<Rightarrow> g \<le> h \<and> h \<le> handled_generation w
        | _ \<Rightarrow> True)"

lemma worker_ok_new: "worker_ok new_worker"
  by (simp add: worker_ok_def new_worker_def)

lemma worker_ok_ops:
  "worker_ok w \<Longrightarrow> worker_ok (start w)" "worker_ok w \<Longrightarrow> worker_ok (request w)"
  "worker_ok w \<Longrightarrow> worker_ok (stop w)"
  by (auto simp: worker_ok_def worker_defs split: worker_pc.splits)

lemma worker_ok_thread: "worker_ok w \<Longrightarrow> thread_step w = Some w' \<Longrightarrow> worker_ok w'"
  by (auto simp: worker_ok_def thread_step.simps worker_defs split: worker_pc.splits if_splits)

lemma worker_ok_step: "worker_step w w' \<Longrightarrow> worker_ok w \<Longrightarrow> worker_ok w'"
  by (induction rule: worker_step.induct)
    (auto intro: worker_ok_ops worker_ok_thread simp: worker_ok_def [of "_\<lparr>pc := Exited\<rparr>"]
      dest: worker_ok_def [THEN iffD1])

lemma worker_ok_steps: "worker_steps w w' \<Longrightarrow> worker_ok w \<Longrightarrow> worker_ok w'"
  by (induction rule: worker_steps.induct) (auto intro: worker_ok_step)

text \<open>What a single step can do to the counters.\<close>

lemma step_monotone:
  assumes "worker_step w w'" and "worker_ok w"
  shows "generation w \<le> generation w'" "runs w \<le> runs w'" "stopped w \<longrightarrow> stopped w'"
    "handled_generation w \<le> handled_generation w'"
    "handled_generation w < handled_generation w' \<longrightarrow> runs w < runs w'"
    "stopped w \<longrightarrow> runs w' = runs w"
  using assms
  by (auto elim!: worker_stepE simp: worker_ok_def thread_step.simps worker_defs
      split: worker_pc.splits if_splits)

lemma steps_monotone:
  assumes "worker_steps w w'" and "worker_ok w"
  shows "generation w \<le> generation w' \<and> runs w \<le> runs w' \<and> (stopped w \<longrightarrow> stopped w')
    \<and> handled_generation w \<le> handled_generation w'
    \<and> (handled_generation w < handled_generation w' \<longrightarrow> runs w < runs w')
    \<and> (stopped w \<longrightarrow> runs w' = runs w)"
  using assms
proof (induction rule: worker_steps.induct)
  case (Step w w' w'')
  then show ?case
    using step_monotone [OF Step.hyps(2) worker_ok_steps [OF Step.hyps(1)]] by (auto; linarith)
qed simp

section \<open>Properties\<close>

text \<open>
  C34. Requests are coalesced: whatever the interleaving, the work has been started at most once
  per request, and never for requests that were not made.
\<close>
theorem coalescing_bound:
  assumes "worker_steps new_worker w"
  shows "runs w \<le> handled_generation w \<and> handled_generation w \<le> generation w"
  using worker_ok_steps [OF assms worker_ok_new] by (simp add: worker_ok_def)

text \<open>
  No request is lost: once the generation of a request counts as handled, work has been
  started after that request was made, so the work has seen what the request was about.
\<close>
theorem handled_request_was_served:
  assumes "worker_steps new_worker w" and "worker_steps (request w) w'"
    and "generation (request w) \<le> handled_generation w'"
  shows "runs w < runs w'"
proof -
  have ok: "worker_ok w" using assms(1) worker_ok_new by (rule worker_ok_steps)
  then have "handled_generation (request w) < handled_generation w'"
    using assms(3) by (simp add: worker_ok_def request_def)
  moreover have "runs (request w) = runs w" by (simp add: request_def)
  ultimately show ?thesis
    using steps_monotone [OF assms(2) worker_ok_ops(2) [OF ok]] by simp
qed

text \<open>
  After \<open>stop\<close> no work is started any more, whatever else is called.
\<close>
theorem no_work_after_stop:
  assumes "worker_steps new_worker w" and "worker_steps (stop w) w'"
  shows "runs w' = runs w"
proof -
  have "worker_ok (stop w)" using assms(1) worker_ok_new worker_ok_steps worker_ok_ops(3) by blast
  then show ?thesis using steps_monotone [OF assms(2)] by (simp add: stop_def)
qed

text \<open>The thread running on its own: at most \<open>n\<close> of its steps.\<close>

primrec thread_run :: "nat \<Rightarrow> worker \<Rightarrow> worker" where
  "thread_run 0 w = w"
| "thread_run (Suc n) w = (case thread_step w of None \<Rightarrow> w | Some w' \<Rightarrow> thread_run n w')"

text \<open>
  C35. The worker makes progress: in every reachable state of a started worker that was neither
  stopped nor killed by its work, at most seven steps of the thread bring it back to waiting with
  every request handled; it is never blocked while a request is pending.
\<close>
theorem pending_requests_are_handled:
  assumes "worker_steps new_worker w" and "started w" and "\<not> stopped w" and "pc w \<noteq> Exited"
  shows "handled_generation (thread_run 7 w) = generation w \<and> pc (thread_run 7 w) = Waiting"
proof -
  have ok: "worker_ok w" using assms(1) worker_ok_new by (rule worker_ok_steps)
  then show ?thesis
    using assms(2-4)
    by (cases "pc w"; cases "generation w = handled_generation w")
      (auto simp: worker_ok_def thread_step.simps worker_defs eval_nat_numeral)
qed

section \<open>Instances\<close>

datatype op = Op_Start | Op_Request | Op_Stop | Op_Thread

fun do_op :: "op \<Rightarrow> worker \<Rightarrow> worker" where
  "do_op Op_Start w = start w"
| "do_op Op_Request w = request w"
| "do_op Op_Stop w = stop w"
| "do_op Op_Thread w = (case thread_step w of None \<Rightarrow> w | Some w' \<Rightarrow> w')"

lemma do_op_steps: "worker_steps v w \<Longrightarrow> worker_steps v (do_op x w)"
  by (cases x; cases "thread_step w") (auto intro: worker_steps.Step worker_step.intros)

lemma do_ops_steps: "worker_steps v (foldl (\<lambda>w x. do_op x w) v xs)"
proof (induction xs rule: rev_induct)
  case Nil
  show ?case by (simp add: worker_steps.Refl)
next
  case (snoc x xs)
  then show ?case by (simp add: do_op_steps)
qed

text \<open>Started, two requests, and the thread up to its work.\<close>

definition busy_worker :: worker where
  "busy_worker = foldl (\<lambda>w x. do_op x w) new_worker
     [Op_Start, Op_Request, Op_Thread, Op_Thread, Op_Request, Op_Thread, Op_Thread]"

lemma busy_reachable: "worker_steps new_worker busy_worker"
  unfolding busy_worker_def by (rule do_ops_steps)

lemma busy_state:
  "busy_worker = \<lparr> generation = 2, handled_generation = 2, started = True, stopped = False,
     pc = Working 1 2, runs = 1, spans = [(1, 2, 2)] \<rparr>"
  by (simp add: busy_worker_def new_worker_def thread_step.simps worker_defs numeral_2_eq_2)

theorem coalescing_bound_witness: "runs busy_worker = 1 \<and> generation busy_worker = 2 \<and> 1 \<le> (2 :: nat)"
  using coalescing_bound [OF busy_reachable] by (simp add: busy_state)

theorem handled_request_was_served_witness:
  "let w' = foldl (\<lambda>w x. do_op x w) (request busy_worker) [Op_Thread, Op_Thread, Op_Thread, Op_Thread]
   in generation (request busy_worker) = 3 \<and> handled_generation w' = 3 \<and> runs busy_worker < runs w'"
proof -
  let ?w' = "foldl (\<lambda>w x. do_op x w) (request busy_worker) [Op_Thread, Op_Thread, Op_Thread, Op_Thread]"
  have gen: "generation (request busy_worker) = 3" "handled_generation ?w' = 3"
    by (simp_all add: busy_state thread_step.simps worker_defs eval_nat_numeral)
  have "worker_steps (request busy_worker) ?w'" by (rule do_ops_steps)
  from handled_request_was_served [OF busy_reachable this] gen show ?thesis by simp
qed

theorem no_work_after_stop_witness:
  "runs (foldl (\<lambda>w x. do_op x w) (stop busy_worker) [Op_Request, Op_Thread, Op_Thread]) = 1"
proof -
  have "worker_steps (stop busy_worker)
      (foldl (\<lambda>w x. do_op x w) (stop busy_worker) [Op_Request, Op_Thread, Op_Thread])"
    by (rule do_ops_steps)
  from no_work_after_stop [OF busy_reachable this] show ?thesis by (simp add: busy_state)
qed

theorem pending_requests_are_handled_witness:
  "handled_generation (thread_run 7 (request busy_worker)) = 3"
proof -
  have "worker_steps new_worker (request busy_worker)"
    using busy_reachable by (rule worker_steps.Step) (rule worker_step.Request)
  from pending_requests_are_handled [OF this] show ?thesis by (simp add: busy_state request_def)
qed

text \<open>
  The span attribute \<open>worker.coalesced_requests\<close> counts from the generation read at the wake-up.
  Requests that arrived while earlier work was running are not counted: here three requests are
  handled by one run, and the attribute says one.
\<close>

lemma coalesced_requests_undercounts:
  "let w = foldl (\<lambda>w x. do_op x w) (request (request (request busy_worker)))
       [Op_Thread, Op_Thread, Op_Thread, Op_Thread]
   in handled_generation w - handled_generation busy_worker = 3 \<and> last (spans w) = (5, 5, 1)"
  by (simp add: busy_state thread_step.simps worker_defs eval_nat_numeral)

section \<open>Refresh callbacks and runtime services of an application\<close>

text \<open>
  The entries of \<open>app.extensions\<close>.  A callback is a program of the world.  A worker that was
  stopped is dropped from the entries; its thread goes on by itself until it sees the flag.
\<close>

record app =
  refreshers :: "unit prog list"
  refresh_worker :: "worker option"
  services_started :: bool

definition add_refresher :: "unit prog \<Rightarrow> app \<Rightarrow> app" where
  "add_refresher r a = a\<lparr>refreshers := refreshers a @ [r]\<rparr>"

primrec run_refreshers :: "unit prog list \<Rightarrow> unit prog" where
  "run_refreshers [] = returnA ()"
| "run_refreshers (r # rs) = seqA r (\<lambda>_. run_refreshers rs)"

definition refresh_once :: "app \<Rightarrow> unit prog" where
  "refresh_once a = run_refreshers (refreshers a)"

definition request_refresh :: "app \<Rightarrow> app" where
  "request_refresh a = a\<lparr>refresh_worker := map_option request (refresh_worker a)\<rparr>"

definition start_background_refresh :: "app \<Rightarrow> app" where
  "start_background_refresh a =
     (if refresh_worker a \<noteq> None then a
      else if refreshers a = [] then a
      else a\<lparr>refresh_worker := Some (request (start new_worker))\<rparr>)"

text \<open>The stopped worker is returned beside the application.\<close>

definition stop_background_refresh :: "app \<Rightarrow> app \<times> worker option" where
  "stop_background_refresh a = (a\<lparr>refresh_worker := None\<rparr>, map_option stop (refresh_worker a))"

text \<open>\<open>_refresh_metrics_in_app\<close> logs what a callback raises, and closes the connection with its context.\<close>

definition refresh_metrics_in_app :: "app \<Rightarrow> unit prog" where
  "refresh_metrics_in_app a =
     catchA (seqA (refresh_once a) (\<lambda>_. close))
       (\<lambda>e. seqA close (\<lambda>_. emit (Logged LL_ERROR ''Metrics refresh failed'')))"

definition start_runtime_services :: "env \<Rightarrow> database_settings \<Rightarrow> app \<Rightarrow> app prog" where
  "start_runtime_services E s a =
     (if services_started a then returnA a
      else
        seqA (catchA (seqA (is_initialized E s) (\<lambda>b. seqA close (\<lambda>_. returnA b)))
               (\<lambda>e. seqA close (\<lambda>_. raiseA e))) (\<lambda>ready_db.
          if \<not> ready_db then raiseA RuntimeError
          else returnA ((request_refresh (start_background_refresh a))\<lparr>services_started := True\<rparr>)))"

definition stop_runtime_services :: "app \<Rightarrow> app \<times> worker option" where
  "stop_runtime_services a = (case stop_background_refresh a of
     (a', w) \<Rightarrow> (a'\<lparr>services_started := False\<rparr>, w))"

text \<open>The callback \<open>create_app\<close> registers: it sets the token gauge from the counts of the table.\<close>

definition app_with_refresher :: "env \<Rightarrow> settings \<Rightarrow> app" where
  "app_with_refresher E S = add_refresher
     (seqA (token_state_counts E (database S)) (\<lambda>(present, revoked). emit (TokenStates present revoked)))
     \<lparr> refreshers = [], refresh_worker = None, services_started = False \<rparr>"

lemma refresh_never_raises:
  "\<exists>w'. refresh_metrics_in_app a w = (Inr (), w')"
proof -
  have "wp (refresh_metrics_in_app a) (\<lambda>_ _. True) (\<lambda>_ _. False) w"
    unfolding refresh_metrics_in_app_def close_def
    by (simp add: wp_simps) (simp add: wp_def split: prod.split sum.split)
  then show ?thesis by (auto simp: wp_def split: prod.splits sum.splits)
qed

lemma is_initialized_rule:
  "wp (is_initialized E s) (\<lambda>b w'. b = (columns (db w) \<noteq> None) \<and> db w' = db w) (\<lambda>_ w'. db w' = db w) w"
proof -
  let ?P = "\<lambda>b d. b = (columns (db w) \<noteq> None) \<and> d = db w"
  have "wp (execute E sql_has_table) (\<lambda>a v'. ?P a (db v')) (\<lambda>_ v'. False \<or> db v' = db w) v"
    if "db v = db w" for v
    using execute_rule [of sql_has_table v ?P "\<lambda>_. True" False E] that by (simp add: sql_has_table_def)
  then show ?thesis
    unfolding is_initialized_def by (rule cursor_any)
qed

text \<open>
  Runtime services start on an initialised database only, exactly once until they are stopped:
  a successful start leaves one started worker with a request pending, starting again changes
  nothing, and stopping hands out that worker with its stop flag set.
\<close>
theorem runtime_services_lifecycle:
  assumes "start_runtime_services E s a w = (Inr a', w')"
    and "\<not> services_started a" and "refresh_worker a = None" and "refreshers a \<noteq> []"
  shows "columns (db w) \<noteq> None \<and> db w' = db w
    \<and> (\<exists>k. refresh_worker a' = Some k \<and> started k \<and> \<not> stopped k \<and> handled_generation k < generation k
          \<and> snd (stop_runtime_services a') = Some (stop k))
    \<and> start_runtime_services E s a' w' = (Inr a', w')
    \<and> refresh_worker (fst (stop_runtime_services a')) = None
    \<and> \<not> services_started (fst (stop_runtime_services a'))"
proof -
  let ?a = "(request_refresh (start_background_refresh a))\<lparr>services_started := True\<rparr>"
  have "wp (start_runtime_services E s a) (\<lambda>r w'. r = ?a \<and> columns (db w) \<noteq> None \<and> db w' = db w)
      (\<lambda>_ _. True) w"
    unfolding start_runtime_services_def close_def
    using assms(2) by (auto simp: wp_simps intro!: wp_mono [OF is_initialized_rule])
  with assms(1) have a': "a' = ?a" and cols: "columns (db w) \<noteq> None" "db w' = db w"
    by (auto simp: wp_def)
  then show ?thesis
    using assms(3,4)
    by (auto simp: start_background_refresh_def request_refresh_def stop_runtime_services_def
        stop_background_refresh_def start_runtime_services_def act_simps start_def request_def
        new_worker_def)
qed

theorem runtime_services_lifecycle_witness:
  "\<exists>a' w'. start_runtime_services sample_env database_defaults
         (app_with_refresher sample_env (settings_defaults [] (oauth_defaults [] [] [] []) [] False)) fresh_world
       = (Inr a', w') \<and> refresh_worker a' \<noteq> None \<and> start_runtime_services sample_env database_defaults a' w' = (Inr a', w')"
proof -
  let ?a = "app_with_refresher sample_env (settings_defaults [] (oauth_defaults [] [] [] []) [] False)"
  let ?a' = "(request_refresh (start_background_refresh ?a))\<lparr>services_started := True\<rparr>"
  let ?r = "start_runtime_services sample_env database_defaults ?a fresh_world"
  have a: "\<not> services_started ?a" "refresh_worker ?a = None" "refreshers ?a \<noteq> []"
    by (simp_all add: app_with_refresher_def add_refresher_def)
  have run: "?r = (Inr ?a', snd ?r)"
    using a(1) by (simp add: start_runtime_services_def is_initialized_def cursor_def transact_def execute_def
        get_connection_def connect_def sqlite_call_def rollback_def close_def database_defaults_def
        fresh_world_def initial_world_def sample_env_def sql_has_table_def act_simps)
  from runtime_services_lifecycle [OF run a] run show ?thesis by blast
qed

end
