(* ===== verification/Uri.thy ===== *)
theory Uri
  imports Json_Text
begin

text \<open>
  \<open>utils/uri.py\<close>, with the functions of \<open>urllib.parse\<close> (Python 3.12) that it uses: splitting and
  joining URLs, percent encoding, query strings.

  The check of a host in brackets and of compatibility characters in the network location is the
  argument \<open>netloc_ok\<close>.  Code points above 255, among them the replacement character, are outside
  the string model and stand as a question mark.
\<close>

section \<open>Percent encoding\<close>

definition is_alnum :: "char \<Rightarrow> bool" where
  "is_alnum c \<longleftrightarrow> (let n = (of_char c :: nat) in
     48 \<le> n \<and> n \<le> 57 \<or> 65 \<le> n \<and> n \<le> 90 \<or> 97 \<le> n \<and> n \<le> 122)"

definition unreserved :: "char \<Rightarrow> bool" where
  "unreserved c \<longleftrightarrow> is_alnum c \<or> c \<in> {CHR ''_'', CHR ''.'', CHR ''-'', CHR 0x7E}"

definition hex_upper :: "nat \<Rightarrow> char" where
  "hex_upper n = (if n < 10 then char_of (48 + n) else char_of (55 + n))"

definition quote_byte :: "string \<Rightarrow> char \<Rightarrow> string" where
  "quote_byte safe b = (let n = (of_char b :: nat) in
     if unreserved b \<or> b \<in> set safe then [b]
     else [CHR 0x25, hex_upper (n div 16), hex_upper (n mod 16)])"

definition quote :: "string \<Rightarrow> string \<Rightarrow> string" where
  "quote safe s = concat (map (quote_byte safe) (utf8_encode s))"

definition replace_char :: "char \<Rightarrow> char \<Rightarrow> string \<Rightarrow> string" where
  "replace_char a b s = map (\<lambda>c. if c = a then b else c) s"

definition quote_plus :: "string \<Rightarrow> string" where
  "quote_plus s = (if CHR '' '' \<in> set s then replace_char (CHR '' '') (CHR ''+'') (quote '' '' s)
     else quote [] s)"

fun unquote_bytes :: "string \<Rightarrow> string" where
  "unquote_bytes [] = []"
| "unquote_bytes (c # cs) =
     (case cs of
        h1 # h2 # r \<Rightarrow>
          (case (hex_digit_val h1, hex_digit_val h2) of
             (Some a, Some b) \<Rightarrow> if c = CHR 0x25 then char_of (16 * a + b) # unquote_bytes r
                                 else c # unquote_bytes cs
           | _ \<Rightarrow> c # unquote_bytes cs)
      | _ \<Rightarrow> c # unquote_bytes cs)"

definition utf8_lossy :: "string \<Rightarrow> string" where
  "utf8_lossy s = (case utf8_decode s of
     Some t \<Rightarrow> t
   | None \<Rightarrow> map (\<lambda>c. if (of_char c :: nat) < 128 then c else CHR 0x3F) s)"

definition is_ascii :: "char \<Rightarrow> bool" where
  "is_ascii c \<longleftrightarrow> (of_char c :: nat) < 128"

text \<open>Runs of ASCII characters are decoded, the others are kept.\<close>

function unquote_runs :: "string \<Rightarrow> string" where
  "unquote_runs s = (case s of
     [] \<Rightarrow> []
   | c # cs \<Rightarrow>
       if is_ascii c then utf8_lossy (unquote_bytes (takeWhile is_ascii s)) @ unquote_runs (dropWhile is_ascii s)
       else c # unquote_runs cs)"
  by pat_completeness auto
termination
  by (relation "measure length") (auto intro: le_imp_less_Suc length_dropWhile_le)

declare unquote_runs.simps [simp del]

definition unquote :: "string \<Rightarrow> string" where
  "unquote s = (if CHR 0x25 \<notin> set s then s else unquote_runs s)"

definition unquote_plus :: "string \<Rightarrow> string" where
  "unquote_plus s = unquote (replace_char (CHR ''+'') (CHR '' '') s)"

section \<open>Query strings\<close>

fun split_on :: "char \<Rightarrow> string \<Rightarrow> string list" where
  "split_on c [] = [[]]"
| "split_on c (x # xs) =
     (if x = c then [] # split_on c xs
      else (case split_on c xs of [] \<Rightarrow> [[x]] | y # ys \<Rightarrow> (x # y) # ys))"

text \<open>\<open>s.partition(c)\<close>: before and after the first \<open>c\<close>.\<close>

definition partition_at :: "char \<Rightarrow> string \<Rightarrow> string \<times> string" where
  "partition_at c s = (takeWhile (\<lambda>x. x \<noteq> c) s, tl (dropWhile (\<lambda>x. x \<noteq> c) s))"

definition query_field :: "string \<Rightarrow> (string \<times> string) list" where
  "query_field nv = (if nv = [] then [] else
     (case partition_at (CHR ''='') nv of (n, v) \<Rightarrow> [(unquote_plus n, unquote_plus v)]))"

text \<open>\<open>parse_qsl(qs, keep_blank_values=True)\<close>\<close>

definition parse_qsl :: "string \<Rightarrow> (string \<times> string) list" where
  "parse_qsl qs = (if qs = [] then [] else concat (map query_field (split_on (CHR ''&'') qs)))"

definition add_value :: "string \<times> string \<Rightarrow> string list dict \<Rightarrow> string list dict" where
  "add_value kv d = (case map_of d (fst kv) of
     None \<Rightarrow> AList.update (fst kv) [snd kv] d
   | Some vs \<Rightarrow> AList.update (fst kv) (vs @ [snd kv]) d)"

definition parse_qs :: "string \<Rightarrow> string list dict" where
  "parse_qs qs = fold add_value (parse_qsl qs) []"

fun join_with :: "string \<Rightarrow> string list \<Rightarrow> string" where
  "join_with sep [] = []"
| "join_with sep [s] = s"
| "join_with sep (s # t # ss) = s @ sep @ join_with sep (t # ss)"

definition urlencode :: "(string \<times> string) list \<Rightarrow> string" where
  "urlencode ps = join_with ''&'' (map (\<lambda>(k, v). quote_plus k @ ''='' @ quote_plus v) ps)"

section \<open>URLs\<close>

record url_parts =
  up_scheme :: string
  up_netloc :: string
  up_path :: string
  up_query :: string
  up_fragment :: string

definition scheme_char :: "char \<Rightarrow> bool" where
  "scheme_char c \<longleftrightarrow> is_alnum c \<or> c \<in> {CHR ''+'', CHR ''-'', CHR ''.''}"

definition is_alpha :: "char \<Rightarrow> bool" where
  "is_alpha c \<longleftrightarrow> (let n = (of_char c :: nat) in 65 \<le> n \<and> n \<le> 90 \<or> 97 \<le> n \<and> n \<le> 122)"

definition lower_ascii :: "char \<Rightarrow> char" where
  "lower_ascii c = (if 65 \<le> (of_char c :: nat) \<and> (of_char c :: nat) \<le> 90
     then char_of (of_char c + 32 :: nat) else c)"

definition split_scheme :: "string \<Rightarrow> string \<times> string" where
  "split_scheme url =
     (let s = takeWhile (\<lambda>c. c \<noteq> CHR '':'') url
      in if CHR '':'' \<in> set url \<and> s \<noteq> [] \<and> is_alpha (hd url) \<and> list_all scheme_char s
         then (map lower_ascii s, drop (Suc (length s)) url) else ([], url))"

definition split_netloc :: "string \<Rightarrow> string \<times> string" where
  "split_netloc url = (if take 2 url = ''//'' then
       (let stop = (\<lambda>c. c \<in> {CHR ''/'', CHR 0x3F, CHR 0x23})
        in (takeWhile (\<lambda>c. \<not> stop c) (drop 2 url), dropWhile (\<lambda>c. \<not> stop c) (drop 2 url)))
     else ([], url))"

text \<open>\<open>if c in url: url, rest = url.split(c, 1)\<close>\<close>

definition cut_at :: "char \<Rightarrow> string \<Rightarrow> string \<times> string" where
  "cut_at c url = (if c \<in> set url then partition_at c url else (url, []))"

definition urlsplit :: "(string \<Rightarrow> bool) \<Rightarrow> string \<Rightarrow> url_parts res" where
  "urlsplit netloc_ok url =
     (let url = filter (\<lambda>c. (of_char c :: nat) \<notin> {9, 10, 13}) (dropWhile (\<lambda>c. (of_char c :: nat) \<le> 32) url);
          (scheme, url) = split_scheme url;
          (netloc, url) = split_netloc url;
          (url, fragment) = cut_at (CHR 0x23) url;
          (url, query) = cut_at (CHR 0x3F) url
      in if (CHR ''['' \<in> set netloc) \<noteq> (CHR '']'' \<in> set netloc) \<or> \<not> netloc_ok netloc then Inl ValueError
         else Inr \<lparr> up_scheme = scheme, up_netloc = netloc, up_path = url, up_query = query,
                    up_fragment = fragment \<rparr>)"

definition uses_netloc :: "string list" where
  "uses_netloc = [[], ''ftp'', ''http'', ''gopher'', ''nntp'', ''telnet'', ''imap'', ''wais'', ''file'',
     ''mms'', ''https'', ''shttp'', ''snews'', ''prospero'', ''rtsp'', ''rtsps'', ''rtspu'', ''rsync'',
     ''svn'', ''svn+ssh'', ''sftp'', ''nfs'', ''git'', ''git+ssh'', ''ws'', ''wss'']"

definition urlunsplit :: "url_parts \<Rightarrow> string" where
  "urlunsplit p =
     (let url = up_path p;
          url = (if up_netloc p \<noteq> [] then
                   ''//'' @ up_netloc p @ (if url \<noteq> [] \<and> hd url \<noteq> CHR ''/'' then CHR ''/'' # url else url)
                 else if take 2 url = ''//'' then ''//'' @ url
                 else if up_scheme p \<noteq> [] \<and> up_scheme p \<in> set uses_netloc \<and> (url = [] \<or> hd url = CHR ''/'')
                 then ''//'' @ url else url);
          url = (if up_scheme p \<noteq> [] then up_scheme p @ '':'' @ url else url);
          url = (if up_query p \<noteq> [] then url @ [CHR 0x3F] @ up_query p else url)
      in if up_fragment p \<noteq> [] then url @ [CHR 0x23] @ up_fragment p else url)"

section \<open>The functions of the module\<close>

definition REDACTED_URL_VALUE :: string where
  "REDACTED_URL_VALUE = ''<REDACTED>''"

definition rewrite_query :: "string \<Rightarrow> string dict \<Rightarrow> string" where
  "rewrite_query original params =
     (let query = fold (\<lambda>(p, v) q. AList.update p [v] q) params (parse_qs original)
      in urlencode (concat (map (\<lambda>(q, vs). map (\<lambda>v. (q, v)) vs) query)))"

definition rewrite_uri :: "(string \<Rightarrow> bool) \<Rightarrow> string \<Rightarrow> string dict \<Rightarrow> string res" where
  "rewrite_uri netloc_ok uri params = bindR (urlsplit netloc_ok uri) (\<lambda>p.
     Inr (urlunsplit (p\<lparr>up_query := rewrite_query (up_query p) params\<rparr>)))"

definition sanitize_url :: "(string \<Rightarrow> bool) \<Rightarrow> string option \<Rightarrow> string option res" where
  "sanitize_url netloc_ok url = (case url of
     None \<Rightarrow> Inr None
   | Some u \<Rightarrow> bindR (urlsplit netloc_ok u) (\<lambda>parts.
       if up_query parts = [] then Inr (Some u)
       else Inr (Some (urlunsplit (parts\<lparr>up_query := join_with ''&''
              (map (\<lambda>(key, _). quote [] key @ ''='' @ REDACTED_URL_VALUE) (parse_qsl (up_query parts)))\<rparr>)))))"

section \<open>Round trips\<close>

lemma hex_digit_val_upper [simp]: "d < 16 \<Longrightarrow> hex_digit_val (hex_upper d) = Some d"
  by (auto simp: hex_digit_val_def hex_upper_def Let_def)

declare unquote_bytes.simps(2) [simp del]

lemma unquote_bytes_plain: "c \<noteq> CHR 0x25 \<Longrightarrow> unquote_bytes (c # cs) = c # unquote_bytes cs"
  by (subst unquote_bytes.simps(2)) (simp split: list.split option.split)

lemma unquote_bytes_escape:
  "hex_digit_val h1 = Some a \<Longrightarrow> hex_digit_val h2 = Some b
   \<Longrightarrow> unquote_bytes (CHR 0x25 # h1 # h2 # r) = char_of (16 * a + b) # unquote_bytes r"
  by (subst unquote_bytes.simps(2)) simp

lemma unquote_quote_byte:
  assumes "CHR 0x25 \<notin> set safe"
  shows "unquote_bytes (quote_byte safe b @ rest) = b # unquote_bytes rest"
proof (cases "unreserved b \<or> b \<in> set safe")
  case True
  then have "b \<noteq> CHR 0x25" using assms by (auto simp: unreserved_def is_alnum_def)
  with True show ?thesis by (simp add: quote_byte_def unquote_bytes_plain)
next
  case False
  define n where "n = (of_char b :: nat)"
  have n: "n < 256" "b = char_of n" by (simp_all add: n_def)
  then have d: "n div 16 < 16" "n mod 16 < 16" by auto
  have "unquote_bytes (CHR 0x25 # hex_upper (n div 16) # hex_upper (n mod 16) # rest)
      = char_of (16 * (n div 16) + n mod 16) # unquote_bytes rest"
    by (rule unquote_bytes_escape) (simp_all add: d)
  moreover have "quote_byte safe b = [CHR 0x25, hex_upper (n div 16), hex_upper (n mod 16)]"
    using False by (simp add: quote_byte_def n_def [symmetric])
  moreover have "char_of (16 * (n div 16) + n mod 16) = b" by (simp add: n_def)
  ultimately show ?thesis by simp
qed

lemma unquote_bytes_quote:
  "CHR 0x25 \<notin> set safe \<Longrightarrow> unquote_bytes (quote safe s) = utf8_encode s"
proof -
  assume safe: "CHR 0x25 \<notin> set safe"
  have "unquote_bytes (concat (map (quote_byte safe) bs)) = bs" for bs
    by (induction bs) (simp_all add: unquote_quote_byte [OF safe])
  then show ?thesis by (simp add: quote_def)
qed

lemma hex_upper_unreserved: "d < 16 \<Longrightarrow> unreserved (hex_upper d)"
  by (simp add: unreserved_def is_alnum_def hex_upper_def Let_def)

lemma quote_chars:
  assumes "c \<in> set (quote safe s)"
  shows "unreserved c \<or> c \<in> set safe \<or> c = CHR 0x25"
proof -
  from assms obtain b where "c \<in> set (quote_byte safe b)" by (auto simp: quote_def)
  moreover have "(of_char b :: nat) div 16 < 16" using nat_of_char_less_256 [of b] by linarith
  ultimately show ?thesis
    by (auto simp: quote_byte_def Let_def hex_upper_unreserved split: if_splits)
qed

lemma unreserved_props:
  assumes "unreserved c"
  shows "is_ascii c" "c \<noteq> CHR ''+''" "c \<noteq> CHR '' ''" "c \<noteq> CHR ''&''" "c \<noteq> CHR ''=''" "c \<noteq> CHR 0x25"
  using assms by (auto simp: unreserved_def is_alnum_def is_ascii_def Let_def)

lemma utf8_lossy_encode: "utf8_lossy (utf8_encode s) = s"
  by (simp add: utf8_lossy_def utf8_roundtrip)

lemma unquote_no_percent: "CHR 0x25 \<notin> set s \<Longrightarrow> unquote_bytes s = s"
proof (induction s)
  case (Cons c s)
  then show ?case using unquote_bytes_plain [of c s] by auto
qed simp

lemma utf8_ascii: "\<forall>c \<in> set s. is_ascii c \<Longrightarrow> utf8_decode s = Some s"
  by (induction s) (simp_all add: is_ascii_def)

lemma unquote_ascii:
  assumes "\<forall>c \<in> set s. is_ascii c"
  shows "unquote s = utf8_lossy (unquote_bytes s)"
proof (cases "CHR 0x25 \<in> set s")
  case True
  have "takeWhile is_ascii s = s" "dropWhile is_ascii s = []" using assms by simp_all
  moreover obtain c cs where s: "s = c # cs" using True by (cases s) auto
  moreover have tw: "takeWhile is_ascii cs = cs" "dropWhile is_ascii cs = []" using assms s by simp_all
  ultimately show ?thesis
    using True assms by (simp add: unquote_def unquote_runs.simps [of "c # cs"] unquote_runs.simps [of "[]"] tw)
next
  case False
  with assms show ?thesis
    by (simp add: unquote_def unquote_no_percent utf8_lossy_def utf8_ascii)
qed

lemma plus_space_quote:
  assumes "set safe \<subseteq> {CHR '' ''}"
  shows "replace_char (CHR ''+'') (CHR '' '') (replace_char (CHR '' '') (CHR ''+'') (quote safe s)) = quote safe s"
    and "CHR '' '' \<notin> set safe \<Longrightarrow> replace_char (CHR ''+'') (CHR '' '') (quote safe s) = quote safe s"
proof -
  have "c \<noteq> CHR ''+''" if "c \<in> set (quote safe s)" for c
    using quote_chars [OF that] assms unreserved_props(2) by auto
  then show "replace_char (CHR ''+'') (CHR '' '') (replace_char (CHR '' '') (CHR ''+'') (quote safe s)) = quote safe s"
    and "CHR '' '' \<notin> set safe \<Longrightarrow> replace_char (CHR ''+'') (CHR '' '') (quote safe s) = quote safe s"
    by (auto simp: replace_char_def comp_def map_idI intro!: map_idI)
qed

lemma unquote_plus_quote_plus [simp]: "unquote_plus (quote_plus s) = s"
proof -
  have "unquote (quote safe s) = s" if "set safe \<subseteq> {CHR '' ''}" for safe
  proof -
    have "\<forall>c \<in> set (quote safe s). is_ascii c"
      using quote_chars unreserved_props(1) that by (fastforce simp: is_ascii_def)
    moreover have "CHR 0x25 \<notin> set safe" using that by auto
    ultimately show ?thesis
      by (simp add: unquote_ascii unquote_bytes_quote utf8_lossy_encode)
  qed
  then show ?thesis
    using plus_space_quote [of "'' ''" s] plus_space_quote(2) [of "[]" s]
    by (simp add: unquote_plus_def quote_plus_def)
qed

lemma quote_plus_chars:
  assumes "c \<in> set (quote_plus s)"
  shows "c \<noteq> CHR ''&'' \<and> c \<noteq> CHR ''=''"
  using assms quote_chars [of _ _ s] unreserved_props(4,5)
  by (auto simp: quote_plus_def replace_char_def split: if_splits dest!: quote_chars)

lemma split_on_absent: "c \<notin> set s \<Longrightarrow> split_on c s = [s]"
  by (induction s) auto

lemma split_on_append: "c \<notin> set s \<Longrightarrow> split_on c (s @ c # t) = s # split_on c t"
  by (induction s) auto

lemma split_on_join:
  "ss \<noteq> [] \<Longrightarrow> \<forall>s \<in> set ss. c \<notin> set s \<Longrightarrow> split_on c (join_with [c] ss) = ss"
  by (induction "[c]" ss rule: join_with.induct) (auto simp: split_on_absent split_on_append)

lemma partition_at_append: "c \<notin> set a \<Longrightarrow> partition_at c (a @ c # b) = (a, b)"
  by (simp add: partition_at_def takeWhile_append2 dropWhile_append2)
    (metis (mono_tags, lifting) dropWhile_append2 dropWhile.simps(2) list.sel(3) takeWhile_append2
      takeWhile.simps(2) append_Nil2)

lemma parse_qsl_urlencode: "parse_qsl (urlencode ps) = ps"
proof (cases "ps = []")
  case True
  then show ?thesis by (simp add: urlencode_def parse_qsl_def)
next
  case False
  let ?f = "\<lambda>(k, v). quote_plus k @ ''='' @ quote_plus v"
  have sep: "\<forall>s \<in> set (map ?f ps). CHR ''&'' \<notin> set s"
    using quote_plus_chars by fastforce
  have field: "query_field (?f p) = [p]" for p
  proof (cases p)
    case (Pair k v)
    have "CHR ''='' \<notin> set (quote_plus k)" using quote_plus_chars by blast
    then show ?thesis by (simp add: Pair query_field_def partition_at_append)
  qed
  have "urlencode ps \<noteq> []"
    using False by (cases ps; cases "tl ps") (auto simp: urlencode_def split: prod.splits)
  moreover have "concat (map query_field (map ?f ps)) = ps"
    using field by (induction ps) (auto simp del: append.simps)
  ultimately show ?thesis
    using split_on_join [OF _ sep] False by (simp add: parse_qsl_def urlencode_def)
qed

text \<open>Grouping the fields of a dictionary of lists gives the dictionary back.\<close>

definition flatten :: "string list dict \<Rightarrow> (string \<times> string) list" where
  "flatten d = concat (map (\<lambda>(q, vs). map (\<lambda>v. (q, v)) vs) d)"

lemma update_at_end: "k \<notin> fst ` set d \<Longrightarrow> AList.update k v (d @ [(k, u)]) = d @ [(k, v)]"
  by (induction d) auto

lemma fold_add_more:
  "k \<notin> fst ` set d \<Longrightarrow> fold add_value (map (\<lambda>v. (k, v)) vs) (d @ [(k, us)]) = d @ [(k, us @ vs)]"
proof (induction vs arbitrary: us)
  case (Cons v vs)
  have "map_of (d @ [(k, us)]) k = Some us"
    using Cons.prems by (induction d) auto
  then have "add_value (k, v) (d @ [(k, us)]) = d @ [(k, us @ [v])]"
    using Cons.prems by (simp add: add_value_def update_at_end)
  then show ?case using Cons.IH [of "us @ [v]"] Cons.prems by simp
qed simp

lemma update_new: "k \<notin> fst ` set d \<Longrightarrow> AList.update k v d = d @ [(k, v)]"
  by (induction d) auto

text \<open>Dictionaries as \<open>parse_qs\<close> makes them: distinct keys, no empty list.\<close>

definition fields_ok :: "string list dict \<Rightarrow> bool" where
  "fields_ok d \<longleftrightarrow> distinct (map fst d) \<and> list_all (\<lambda>kv. snd kv \<noteq> []) d"

lemma update_nonempty: "list_all (\<lambda>kv. snd kv \<noteq> []) d \<Longrightarrow> vs \<noteq> [] \<Longrightarrow> list_all (\<lambda>kv. snd kv \<noteq> []) (AList.update k vs d)"
  by (induction d) auto

lemma fields_ok_update: "fields_ok d \<Longrightarrow> vs \<noteq> [] \<Longrightarrow> fields_ok (AList.update k vs d)"
  by (simp add: fields_ok_def distinct_update update_nonempty)

lemma fold_add_flatten:
  assumes "distinct (map fst (d @ e))" and "list_all (\<lambda>kv. snd kv \<noteq> []) e"
  shows "fold add_value (flatten e) d = d @ e"
  using assms
proof (induction e arbitrary: d)
  case (Cons kv e)
  obtain k v vs where kv: "kv = (k, v # vs)" using Cons.prems(2) by (cases kv; cases "snd kv") auto
  have k: "k \<notin> fst ` set d" using Cons.prems(1) by (auto simp: kv)
  then have "map_of d k = None" by (simp add: map_of_eq_None_iff)
  then have "add_value (k, v) d = d @ [(k, [v])]"
    using k by (simp add: add_value_def update_new)
  then have "fold add_value (map (\<lambda>v. (k, v)) (v # vs)) d = d @ [(k, v # vs)]"
    using fold_add_more [OF k, of vs "[v]"] by simp
  moreover have "fold add_value (flatten e) (d @ [(k, v # vs)]) = (d @ [(k, v # vs)]) @ e"
    using Cons.prems by (intro Cons.IH) (auto simp: kv)
  ultimately show ?case by (simp add: flatten_def kv)
qed (simp add: flatten_def)

lemma fields_ok_add: "fields_ok d \<Longrightarrow> fields_ok (add_value kv d)"
  by (simp add: add_value_def fields_ok_update split: option.split)

lemma fields_ok_parse: "fields_ok (parse_qs q)"
proof -
  have "fields_ok d \<Longrightarrow> fields_ok (fold add_value ps d)" for ps d
    by (induction ps arbitrary: d) (simp_all add: fields_ok_add)
  then show ?thesis by (simp add: parse_qs_def fields_ok_def)
qed

definition override :: "string dict \<Rightarrow> string list dict \<Rightarrow> string list dict" where
  "override ps d = fold (\<lambda>(p, v) q. AList.update p [v] q) ps d"

lemma override_Cons: "override ((p, v) # ps) d = override ps (AList.update p [v] d)"
  by (simp add: override_def)

lemma fields_ok_override: "fields_ok d \<Longrightarrow> fields_ok (override ps d)"
proof (induction ps arbitrary: d)
  case (Cons p ps)
  then show ?case by (cases p) (simp add: override_Cons fields_ok_update)
qed (simp add: override_def)

lemma map_of_override:
  "dict_ok ps \<Longrightarrow> map_of (override ps d) k = (case map_of ps k of Some v \<Rightarrow> Some [v] | None \<Rightarrow> map_of d k)"
proof (induction ps arbitrary: d)
  case (Cons p ps)
  obtain k' v where p: "p = (k', v)" by (cases p)
  have ok: "dict_ok ps" and new: "map_of ps k' = None"
    using Cons.prems by (auto simp: dict_ok_def p map_of_eq_None_iff)
  show ?case
    using Cons.IH [OF ok] new by (simp add: p override_Cons update_conv split: option.split)
qed (simp add: override_def)

lemma parse_rewrite_query: "parse_qs (rewrite_query q ps) = override ps (parse_qs q)"
proof -
  have "rewrite_query q ps = urlencode (flatten (override ps (parse_qs q)))"
    by (simp add: rewrite_query_def override_def flatten_def Let_def)
  moreover have "fold add_value (flatten (override ps (parse_qs q))) [] = [] @ override ps (parse_qs q)"
    using fields_ok_override [OF fields_ok_parse, of ps q]
    by (intro fold_add_flatten) (simp_all add: fields_ok_def)
  ultimately show ?thesis
    by (simp add: parse_qs_def [of "urlencode (flatten (override ps (parse_qs q)))"] parse_qsl_urlencode)
qed

section \<open>Properties\<close>

text \<open>
  C36. Rewriting a query sets each given parameter to exactly its value, replacing all values it
  had, and leaves every other parameter with the values it had, in their order.
\<close>
theorem rewrite_query_overrides:
  assumes "dict_ok params"
  shows "map_of (parse_qs (rewrite_query q params)) k =
    (case map_of params k of Some v \<Rightarrow> Some [v] | None \<Rightarrow> map_of (parse_qs q) k)"
  unfolding parse_rewrite_query by (rule map_of_override [OF assms])

theorem rewrite_query_overrides_witness:
  "map_of (parse_qs (rewrite_query ''state=x&scope=a+b'' [(''state'', ''&=%'')])) ''state'' = Some [''&=%'']"
  using rewrite_query_overrides [of "[(''state'', ''&=%'')]" "''state=x&scope=a+b''" "''state''"]
  by (simp add: dict_ok_def)

lemma sanitize_same:
  assumes "urlsplit ok u = Inr p" and "urlsplit ok u' = Inr p'"
    and "p' = p\<lparr>up_query := up_query p'\<rparr>" and "up_query p \<noteq> []" and "up_query p' \<noteq> []"
    and "map fst (parse_qsl (up_query p)) = map fst (parse_qsl (up_query p'))"
  shows "sanitize_url ok (Some u) = sanitize_url ok (Some u')"
proof -
  let ?f = "\<lambda>key. quote [] key @ ''='' @ REDACTED_URL_VALUE"
  have keys: "map (\<lambda>(key, _). ?f key) kvs = map ?f (map fst kvs)" for kvs :: "(string \<times> string) list"
    by (auto simp: case_prod_beta)
  have same: "map (\<lambda>(key, _). ?f key) (parse_qsl (up_query p)) = map (\<lambda>(key, _). ?f key) (parse_qsl (up_query p'))"
    unfolding keys assms(6) ..
  have "p'\<lparr>up_query := x\<rparr> = p\<lparr>up_query := x\<rparr>" for x
    by (subst assms(3)) simp
  then show ?thesis
    using assms(1,2,4,5) same by (simp add: sanitize_url_def)
qed

text \<open>
  A sanitised URL says nothing about the values of the query: two URLs that differ only in
  the values of their query parameters are sanitised to the same text.
\<close>
theorem sanitize_url_hides_values:
  assumes "urlsplit ok u = Inr p" and "urlsplit ok u' = Inr p'"
    and "p' = p\<lparr>up_query := up_query p'\<rparr>" and "up_query p \<noteq> []" and "up_query p' \<noteq> []"
    and "map fst (parse_qsl (up_query p)) = map fst (parse_qsl (up_query p'))"
  shows "sanitize_url ok (Some u) = sanitize_url ok (Some u')"
  using assms by (rule sanitize_same)

theorem sanitize_url_hides_values_witness:
  "sanitize_url (\<lambda>_. True) (Some ''https://b/callback?code=secret'')
     = sanitize_url (\<lambda>_. True) (Some ''https://b/callback?code=other'')"
proof -
  let ?p = "\<lambda>q. \<lparr> up_scheme = ''https'', up_netloc = ''b'', up_path = ''/callback'', up_query = q, up_fragment = [] \<rparr>"
  have s: "urlsplit (\<lambda>_. True) ''https://b/callback?code=secret'' = Inr (?p ''code=secret'')"
    "urlsplit (\<lambda>_. True) ''https://b/callback?code=other'' = Inr (?p ''code=other'')"
    by code_simp+
  have k: "map fst (parse_qsl ''code=secret'') = map fst (parse_qsl ''code=other'')"
    by code_simp
  show ?thesis by (rule sanitize_url_hides_values [OF s]) (simp_all add: k)
qed

end
