(* ===== verification/Web_Base.thy ===== *)
theory Web_Base
  imports Background_Refresh Uri "HOL-Library.Char_ord" "HOL-Library.List_Lexorder"
begin

text \<open>
  Requests, responses, sessions and exceptions of the web layer, and the functions of
  \<open>oauth/_core.py\<close> and \<open>views.py\<close> that make responses: the error handlers, \<open>nocache\<close>,
  \<open>redirect\<close>, \<open>_render\<close>, \<open>_error\<close>, and the filters for token payloads and log output.

  Flask is not part of the program.  A request is the record of what the views read from it; a
  rendered page is represented by the template and the variables handed to it; header values that
  are numbers are written as text.
\<close>

section \<open>Requests and responses\<close>

record web_auth =
  wa_type :: string
  wa_username :: "string option"
  wa_password :: "string option"

text \<open>\<open>wr_authorization\<close> is an exception where decoding the header raises it.\<close>

record web_request =
  wr_args :: "(string \<times> string) list"
  wr_form :: "(string \<times> string) list"
  wr_authorization :: "web_auth option res"
  wr_authorization_header :: "string option"
  wr_user_agent :: string

record web_session =
  ses_client_state :: "string option"
  ses_state :: "string option"

definition empty_session :: web_session where
  "empty_session = \<lparr> ses_client_state = None, ses_state = None \<rparr>"

record page =
  pg_client_id :: "string option"
  pg_client_secret :: "string option"
  pg_state :: "string option"
  pg_error :: "string option"
  pg_description :: "string option"

datatype body = Json_Body json | Page string page | Metrics_Body | No_Body

record web_response =
  rsp_status :: http_status
  rsp_headers :: "string dict"
  rsp_body :: body

definition set_header :: "string \<Rightarrow> string \<Rightarrow> web_response \<Rightarrow> web_response" where
  "set_header k v r = r\<lparr>rsp_headers := AList.update k v (rsp_headers r)\<rparr>"

definition jsonify :: "json \<Rightarrow> web_response" where
  "jsonify v = \<lparr> rsp_status = 200, rsp_headers = [(''Content-Type'', ''application/json'')], rsp_body = Json_Body v \<rparr>"

section \<open>Exceptions and handlers\<close>

text \<open>The fields come from the provider's JSON, so they may be any value.\<close>

record oauth_exn =
  oe_error :: oauth_error
  oe_description :: json
  oe_uri :: json
  oe_retry_after :: json

datatype web_exn = Raised pyexn | Oauth oauth_exn

text \<open>A view works on the world and on the session of its client.\<close>

type_synonym 'a handler = "(world \<times> web_session, web_exn, 'a) act"

definition in_world :: "'a prog \<Rightarrow> 'a handler" where
  "in_world m = (\<lambda>(w, s). case m w of (Inl e, w') \<Rightarrow> (Inl (Raised e), (w', s)) | (Inr a, w') \<Rightarrow> (Inr a, (w', s)))"

definition try_res :: "'a res \<Rightarrow> 'a handler" where
  "try_res r = in_world (liftA r)"

definition report :: "event \<Rightarrow> unit handler" where
  "report e = in_world (emit e)"

lemma wp_in_world [wp_simps]:
  "wp (in_world m) Q X = (\<lambda>(w, s). wp m (\<lambda>a w'. Q a (w', s)) (\<lambda>e w'. X (Raised e) (w', s)) w)"
  by (simp add: wp_def in_world_def fun_eq_iff split: prod.split sum.split)

lemma wp_try_res [wp_simps]:
  "wp (try_res r) Q X = (\<lambda>ws. case r of Inl e \<Rightarrow> X (Raised e) ws | Inr a \<Rightarrow> Q a ws)"
  by (simp add: try_res_def wp_simps fun_eq_iff split: sum.split)

lemma wp_report [wp_simps]:
  "wp (report e) Qu X = (\<lambda>(w, s). Qu () (w\<lparr>trace := trace w @ [e]\<rparr>, s))"
  by (simp add: report_def wp_simps fun_eq_iff)

lemma in_world_run [act_simps]:
  "in_world m (w, s) = (case m w of (Inl e, w') \<Rightarrow> (Inl (Raised e), (w', s)) | (Inr a, w') \<Rightarrow> (Inr a, (w', s)))"
  by (simp add: in_world_def)

lemma try_res_run [act_simps]:
  "try_res r ws = (case r of Inl e \<Rightarrow> (Inl (Raised e), ws) | Inr a \<Rightarrow> (Inr a, ws))"
  by (cases ws) (simp add: try_res_def act_simps split: sum.split)

lemma report_run [act_simps]: "report e (w, s) = (Inr (), (w\<lparr>trace := trace w @ [e]\<rparr>, s))"
  by (simp add: report_def act_simps)

text \<open>\<open>raise oauth.Error(...)\<close>: the constructor fills in a missing description.\<close>

definition raise_oauth :: "oauth_error \<Rightarrow> json \<Rightarrow> json \<Rightarrow> json \<Rightarrow> 'a handler" where
  "raise_oauth e description uri retry_after =
     seqA (try_res (or_description description e)) (\<lambda>d.
       raiseA (Oauth \<lparr> oe_error = e, oe_description = d, oe_uri = uri, oe_retry_after = retry_after \<rparr>))"

abbreviation raise_error :: "oauth_error \<Rightarrow> string \<Rightarrow> 'a handler" where
  "raise_error e d \<equiv> raise_oauth e (JStr d) JNull JNull"

definition error_handler :: "settings \<Rightarrow> oauth_exn \<Rightarrow> web_response prog" where
  "error_handler S e =
     (let result = JObj ([(''error'', JStr (error_value (oe_error e))),
                          (''error_description'', oe_description e)]
                         @ (if oe_uri e \<noteq> JNull then [(''error_uri'', oe_uri e)] else []));
          response = jsonify result
      in
      seqA (if oe_error e = INVALID_CLIENT then
              returnA (set_header ''WWW-Authenticate''
                (''Basic realm='' @ [CHR 0x22] @ bridge_auth_realm S @ [CHR 0x22])
                (response\<lparr>rsp_status := 401\<rparr>))
            else if oe_error e = TEMPORARILY_UNAVAILABLE then
              (if oe_retry_after e \<noteq> JNull
               then seqA (liftA (py_int (oe_retry_after e))) (\<lambda>i.
                      returnA (set_header ''Retry-After'' (int_str i) (response\<lparr>rsp_status := 503\<rparr>)))
               else returnA (response\<lparr>rsp_status := 503\<rparr>))
            else returnA (response\<lparr>rsp_status := 400\<rparr>)) (\<lambda>response.
      seqA (emit (ServerError (rsp_status response) (error_value (oe_error e)))) (\<lambda>_.
        returnA response)))"

definition fallback_error_handler :: "web_response prog" where
  "fallback_error_handler =
     seqA (emit (ServerError 500 (error_value SERVER_ERROR))) (\<lambda>_.
     seqA (liftA (error_json SERVER_ERROR JNull)) (\<lambda>v.
       returnA ((jsonify v)\<lparr>rsp_status := 500\<rparr>)))"

definition nocache :: "web_response \<Rightarrow> web_response" where
  "nocache r = (if \<not> dict_has (rsp_headers r) ''Cache-Control''
     then set_header ''Pragma'' ''no-cache'' (set_header ''Cache-Control'' ''no-store'' r) else r)"

section \<open>Token payloads\<close>

definition scrub_refresh_token :: "json dict \<Rightarrow> json dict" where
  "scrub_refresh_token token =
     filter (\<lambda>(k, _). k \<notin> {''access_token'', ''expires_in'', ''token_type''}) token"

definition ALLOWED_LOG_FIELDS :: "string list" where
  "ALLOWED_LOG_FIELDS = [''client_id'', ''error'', ''error_description'', ''error_uri'', ''retry_after'']"

definition REDACTED_LOG_VALUE :: string where
  "REDACTED_LOG_VALUE = ''<REDACTED>''"

definition sanitize_for_logging :: "json dict \<Rightarrow> json dict" where
  "sanitize_for_logging payload =
     map (\<lambda>(k, v). (k, if k \<in> set ALLOWED_LOG_FIELDS then v else JStr REDACTED_LOG_VALUE)) payload"

text \<open>The methods of a dictionary on a value of unknown shape.\<close>

definition as_dict :: "json \<Rightarrow> json dict res" where
  "as_dict v = (case v of JObj d \<Rightarrow> Inr d | _ \<Rightarrow> Inl AttributeError)"

lemma as_dict_JObj [simp]: "as_dict (JObj d) = Inr d"
  by (simp add: as_dict_def)

section \<open>Pages and redirects\<close>

definition redirect :: "(string \<Rightarrow> bool) \<Rightarrow> string \<Rightarrow> string dict \<Rightarrow> web_response res" where
  "redirect netloc_ok uri params = bindR (rewrite_uri netloc_ok uri params) (\<lambda>location.
     Inr \<lparr> rsp_status = 302, rsp_headers = [(''Location'', location)], rsp_body = No_Body \<rparr>)"

definition set_callback_security_headers :: "web_response \<Rightarrow> string option \<Rightarrow> web_response" where
  "set_callback_security_headers response csp =
     (let r = set_header ''Permissions-Policy'' ''geolocation=(), microphone=(), camera=()''
                (set_header ''X-Content-Type-Options'' ''nosniff''
                  (set_header ''Referrer-Policy'' ''no-referrer'' response))
      in case csp of
           None \<Rightarrow> r
         | Some policy \<Rightarrow> if policy \<noteq> [] then set_header ''Content-Security-Policy'' policy r else r)"

definition render :: "settings \<Rightarrow> page \<Rightarrow> web_response" where
  "render S variables = set_callback_security_headers
     \<lparr> rsp_status = 200, rsp_headers = [(''Content-Type'', ''text/html; charset=UTF-8'')],
       rsp_body = Page (bridge_callback_template S) variables \<rparr>
     (bridge_callback_content_security_policy S)"

text \<open>
  The error argument is an \<open>OAuthError\<close> or a text; \<open>OAuthError\<close> is a \<open>StrEnum\<close>, so a comparison
  is one of texts.  A description that is false (\<open>None\<close> or empty) is looked up for an
  \<open>OAuthError\<close> only.
\<close>

datatype error_arg = Known oauth_error | Text string

fun error_code_of :: "error_arg \<Rightarrow> string" where
  "error_code_of (Known e) = error_value e"
| "error_code_of (Text s) = s"

definition full_description :: "error_arg \<Rightarrow> string option \<Rightarrow> string option res" where
  "full_description e description = (case e of
     Known k \<Rightarrow> (case description of
        Some (c # cs) \<Rightarrow> Inr description
      | _ \<Rightarrow> bindR (error_description k) (\<lambda>d. Inr (Some d)))
   | Text _ \<Rightarrow> Inr description)"

definition error_page :: "settings \<Rightarrow> error_arg \<Rightarrow> string option \<Rightarrow> string option \<Rightarrow> json \<Rightarrow> web_response prog" where
  "error_page S e description client_state retry_after =
     (let status = (if error_code_of e = error_value INVALID_CLIENT then 401
                    else if error_code_of e = error_value TEMPORARILY_UNAVAILABLE then 503 else 400)
      in
      seqA (liftA (full_description e description)) (\<lambda>description.
      seqA (emit (SpanEvent ''error'' (JStr (error_code_of e)))) (\<lambda>_.
      seqA (emit (ServerError status (error_code_of e))) (\<lambda>_.
      let response = (render S \<lparr> pg_client_id = None, pg_client_secret = None, pg_state = client_state,
            pg_error = Some (error_code_of e), pg_description = description \<rparr>)\<lparr>rsp_status := status\<rparr>
      in if retry_after \<noteq> JNull \<and> status = 503
         then seqA (liftA (py_int retry_after)) (\<lambda>i.
                returnA (set_header ''Retry-After'' (int_str i) response))
         else returnA response))))"

end
