(* ===== verification/Views.thy ===== *)
theory Views
  imports Web_Base Provider_Fetch
begin

text \<open>
  \<open>views.py\<close>: the four routes, and the request cycle of \<open>__init__.py\<close> around them (metrics before
  and after, error handlers, \<open>nocache\<close>, closing the connection).

  The long views are cut at their natural joints: \<open>callback\<close> into the checks of the query, the
  exchange of the code and the storing of the token; \<open>token\<close> into the credentials, the lookup and
  the two ends of a refresh.
\<close>

section \<open>Authorize\<close>

fun split_spaces :: "string \<Rightarrow> string list" where
  "split_spaces [] = [[]]"
| "split_spaces (x # xs) =
     (if is_space x then [] # split_spaces xs
      else (case split_spaces xs of [] \<Rightarrow> [[x]] | y # ys \<Rightarrow> (x # y) # ys))"

text \<open>\<open>s.split()\<close>\<close>

definition split_ws :: "string \<Rightarrow> string list" where
  "split_ws s = filter (\<lambda>w. w \<noteq> []) (split_spaces s)"

definition requested_scope_is_allowed :: "string \<Rightarrow> string list option \<Rightarrow> bool" where
  "requested_scope_is_allowed requested allowed =
     (case allowed of None \<Rightarrow> True | Some al \<Rightarrow> set (split_ws requested) \<subseteq> set al)"

definition set_session :: "web_session \<Rightarrow> unit handler" where
  "set_session s = (\<lambda>(w, _). (Inr (), (w, s)))"

lemma wp_set_session [wp_simps]: "wp (set_session s) Q X = (\<lambda>(w, _). Q () (w, s))"
  by (simp add: wp_def set_session_def fun_eq_iff)

lemma set_session_run [act_simps]: "set_session s (w, s') = (Inr (), (w, s))"
  by (simp add: set_session_def)

definition authorize :: "env \<Rightarrow> settings \<Rightarrow> web_request \<Rightarrow> web_response handler" where
  "authorize E S rq =
     (let redirect_uri = map_of (wr_args rq) ''redirect_uri'';
          default_scope = join_with '' '' (oauth_scopes (oauth S));
          scope = (case map_of (wr_args rq) ''scope'' of None \<Rightarrow> default_scope | Some s \<Rightarrow> s)
      in
      if redirect_uri \<noteq> None \<and> redirect_uri \<noteq> Some [] \<and> redirect_uri \<noteq> Some (oauth_redirect_uri (oauth S))
      then in_world (error_page S (Known INVALID_REQUEST) (Some ''Wrong redirect_uri.'') None JNull)
      else if \<not> requested_scope_is_allowed scope (oauth_allowed_scopes (oauth S))
      then in_world (error_page S (Known INVALID_SCOPE) (Some ''Requested scope is not allowed.'') None JNull)
      else
        seqA (in_world (generate_key E)) (\<lambda>state.
        seqA (set_session \<lparr> ses_client_state = map_of (wr_args rq) ''state'', ses_state = Some state \<rparr>) (\<lambda>_.
          try_res (redirect (netloc_valid E) (oauth_authorization_uri (oauth S))
            [(''client_id'', oauth_client_id (oauth S)), (''response_type'', ''code''),
             (''redirect_uri'', oauth_redirect_uri (oauth S)), (''scope'', scope), (''state'', state)]))))"

section \<open>Callback\<close>

text \<open>The checks of the query; the state is the one popped from the session.\<close>

definition callback_error :: "settings \<Rightarrow> web_request \<Rightarrow> string option \<Rightarrow> (oauth_error \<times> string) option res" where
  "callback_error S rq state =
     (let args = wr_args rq in
      if args = [] then Inr (Some (INVALID_REQUEST, ''No arguments provided, request is invalid.''))
      else if state = None
      then Inr (Some (INVALID_STATE, ''State is not set, this page was probably refreshed.''))
      else if state \<noteq> map_of args ''state''
      then Inr (Some (INVALID_STATE, ''State does not match callback state.''))
      else (case map_of args ''error'' of
        Some code \<Rightarrow>
          bindR (normalize_error (JStr code) AUTHORIZATION_ERRORS SERVER_ERROR
                   (fetch_error_types (fetch_cfg S))) (\<lambda>e.
          bindR (error_description e) (\<lambda>d. Inr (Some (e, d))))
      | None \<Rightarrow>
          if map_of args ''code'' = None \<or> map_of args ''code'' = Some []
          then Inr (Some (INVALID_REQUEST, ''Authorization code missing from provider callback.''))
          else Inr None))"

definition error_level :: "settings \<Rightarrow> string \<Rightarrow> log_level" where
  "error_level S code = (case map_of (bridge_error_levels S) code of None \<Rightarrow> LL_ERROR | Some l \<Rightarrow> l)"

definition callback_message :: "web_request \<Rightarrow> oauth_error \<Rightarrow> string \<Rightarrow> string" where
  "callback_message rq e desc = ''Callback failed '' @ error_value e @ '': '' @ desc
     @ (if e = INVALID_SCOPE
        then '' - '' @ (case map_of (wr_args rq) ''scope'' of None \<Rightarrow> ''None'' | Some s \<Rightarrow> py_repr_str s)
        else [])"

definition token_result_error :: "settings \<Rightarrow> json \<Rightarrow> (error_arg \<times> string) option res" where
  "token_result_error S result =
     bindR (py_in ''error'' result) (\<lambda>has_error.
       if has_error then
         bindR (py_item result ''error'') (\<lambda>e.
         bindR (normalize_error e TOKEN_ERRORS SERVER_ERROR (fetch_error_types (fetch_cfg S))) (\<lambda>n.
         bindR (error_description n) (\<lambda>d. Inr (Some (Known n, d)))))
       else
         bindR (validate_token result) (\<lambda>valid.
           Inr (if valid then None else Some (Text ''invalid_response'', ''Invalid response from provider.''))))"

definition sorted_keys :: "json dict \<Rightarrow> json" where
  "sorted_keys d = JArr (map JStr (sort (dict_keys d)))"

definition store_token :: "env \<Rightarrow> settings \<Rightarrow> json \<Rightarrow> string option \<Rightarrow> web_response handler" where
  "store_token E S result client_state =
     seqA (try_res (as_dict result)) (\<lambda>d.
     let d = (if dict_has d ''refresh_token'' then scrub_refresh_token d else d) in
     seqA (in_world (generate_key E)) (\<lambda>client_secret.
     seqA (in_world (crypto_dumps E client_secret (JObj d))) (\<lambda>token.
     seqA (in_world (generate_id E)) (\<lambda>client_id.
     seqA (report (ClientIdSet (uuid_str client_id))) (\<lambda>_.
     seqA (report (LoggedWith LL_WARNING ''Inserting token'' (sorted_keys d))) (\<lambda>_.
     seqA (report (SpanEvent ''Inserting token'' (sorted_keys d))) (\<lambda>_.
     seqA (catchA (seqA (in_world (insert_token E (database S) client_id token)) (\<lambda>_. returnA True))
             (\<lambda>e. if e = Raised IntegrityError then returnA False else raiseA e)) (\<lambda>inserted.
       if inserted
       then returnA (render S \<lparr> pg_client_id = Some (uuid_str client_id), pg_client_secret = Some client_secret,
              pg_state = client_state, pg_error = None, pg_description = None \<rparr>)
       else
         seqA (report (Logged LL_WARNING ''Could not get unique client id.'')) (\<lambda>_.
           in_world (error_page S (Text ''integrity_error'') (Some ''Database integrity error.'')
             client_state JNull))))))))))"

definition exchange_code :: "env \<Rightarrow> settings \<Rightarrow> web_request \<Rightarrow> string option \<Rightarrow> web_response handler" where
  "exchange_code E S rq client_state =
     seqA (in_world (fetch E (fetch_cfg S) (oauth_token_uri (oauth S)) ''token'' None
        [(''client_id'', JStr (oauth_client_id (oauth S))),
         (''client_secret'', JStr (oauth_client_secret (oauth S))),
         (''code'', case map_of (wr_args rq) ''code'' of None \<Rightarrow> JNull | Some c \<Rightarrow> JStr c),
         (''grant_type'', JStr ''authorization_code''),
         (''redirect_uri'', JStr (oauth_redirect_uri (oauth S)))])) (\<lambda>result.
     seqA (try_res (token_result_error S result)) (\<lambda>err.
       case err of
         None \<Rightarrow> store_token E S result client_state
       | Some (e, desc) \<Rightarrow>
           seqA (try_res (as_dict result)) (\<lambda>d.
           let sanitized_result = JObj (sanitize_for_logging d) in
           seqA (report (LoggedWith LL_WARNING ''Retrieving token failed'' sanitized_result)) (\<lambda>_.
           seqA (report (SpanEvent ''token_error'' sanitized_result)) (\<lambda>_.
           seqA (try_res (py_get result ''retry_after'' JNull)) (\<lambda>retry_after.
             in_world (error_page S e (Some desc) client_state retry_after)))))))"

definition callback :: "env \<Rightarrow> settings \<Rightarrow> web_request \<Rightarrow> web_response handler" where
  "callback E S rq =
     seqA (getsA snd) (\<lambda>session.
     seqA (set_session empty_session) (\<lambda>_.
     seqA (try_res (callback_error S rq (ses_state session))) (\<lambda>err.
       case err of
         Some (e, desc) \<Rightarrow>
           seqA (report (Logged (error_level S (error_value e)) (callback_message rq e desc))) (\<lambda>_.
             in_world (error_page S (Known e) (Some desc) (ses_client_state session) JNull))
       | None \<Rightarrow> exchange_code E S rq (ses_client_state session))))"

section \<open>Token\<close>

definition request_credentials :: "env \<Rightarrow> web_request \<Rightarrow> client_credentials handler" where
  "request_credentials E rq =
     (let form = wr_form rq in
      if map_of form ''grant_type'' \<noteq> Some ''client_credentials''
      then raise_error UNSUPPORTED_GRANT_TYPE
        (''Only '' @ [CHR 0x22] @ ''client_credentials'' @ [CHR 0x22] @ '' is supported.'')
      else if dict_has form ''scope'' then raise_error INVALID_SCOPE ''Setting scope is not supported.''
      else
        seqA (try_res (if wr_authorization rq = Inl ValueError then Inr None else wr_authorization rq))
          (\<lambda>authorization.
        if authorization \<noteq> None \<and> wa_type (the authorization) \<noteq> ''basic''
        then raise_error INVALID_CLIENT ''Only Basic Auth is supported.''
        else
          let form_id = map_of form ''client_id''; form_secret = map_of form ''client_secret'' in
          if (nonempty form_id \<noteq> None \<or> nonempty form_secret \<noteq> None) \<and> authorization \<noteq> None
          then raise_error INVALID_REQUEST ''More than one mechanism for authenticating set.''
          else
            let (client_id, client_secret) = (case authorization of
                  None \<Rightarrow> (form_id, form_secret) | Some a \<Rightarrow> (wa_username a, wa_password a))
            in (case validate_credentials E client_id client_secret of
                  Inl ClientIdValidationError \<Rightarrow>
                    seqA (case client_id of None \<Rightarrow> returnA () | Some i \<Rightarrow> report (InvalidClientIdSeen i))
                      (\<lambda>_. raise_error INVALID_CLIENT ''Malformed client_id.'')
                | Inl ClientSecretValidationError \<Rightarrow> raise_error INVALID_CLIENT ''Client not known.''
                | Inl (CredentialValidationError msg) \<Rightarrow> raise_error INVALID_CLIENT msg
                | Inr c \<Rightarrow> seqA (report (ClientIdSet (uuid_str (cc_client_id c)))) (\<lambda>_. returnA c))))"

definition observe_token_grant_age :: "env \<Rightarrow> int option \<Rightarrow> unit prog" where
  "observe_token_grant_age E created_at = (case created_at of
     None \<Rightarrow> returnA ()
   | Some t \<Rightarrow> seqA (wall_time E) (\<lambda>now. emit (GrantAge (now - of_int t))))"

definition revoked_grant_workaround_response :: "env \<Rightarrow> settings \<Rightarrow> web_request \<Rightarrow> json option res" where
  "revoked_grant_workaround_response E S rq =
     (case nonempty (bridge_revoked_grant_workaround_user_agents S) of
        None \<Rightarrow> Inr None
      | Some user_agents \<Rightarrow>
          if wr_user_agent rq = [] then Inr None
          else bindR (re_search E user_agents (wr_user_agent rq)) (\<lambda>found.
            Inr (if \<not> found then None else Some (JObj
              [(''access_token'', JStr (bridge_revoked_grant_workaround_access_token S)),
               (''token_type'', JStr ''Bearer''),
               (''expires_in'', JInt (bridge_revoked_grant_workaround_expires_in S))]))))"

definition revoked_grant :: "env \<Rightarrow> settings \<Rightarrow> web_request \<Rightarrow> web_response handler" where
  "revoked_grant E S rq =
     seqA (try_res (revoked_grant_workaround_response E S rq)) (\<lambda>workaround.
     case workaround of
       None \<Rightarrow> raise_error INVALID_GRANT ''Grant has been revoked.''
     | Some token \<Rightarrow>
         seqA (report (Logged LL_WARNING ''Serving revoked grant workaround token'')) (\<lambda>_.
         seqA (report (WorkaroundServed ''revoked_grant'')) (\<lambda>_.
         seqA (report (SpanEvent ''Served revoked grant workaround token'' JNull)) (\<lambda>_.
           returnA (jsonify token)))))"

definition updated_fields :: "json dict \<Rightarrow> json dict \<Rightarrow> string list" where
  "updated_fields original modified =
     (let value = (\<lambda>d k. case map_of d k of None \<Rightarrow> JNull | Some v \<Rightarrow> v)
      in sort (filter (\<lambda>k. \<not> py_eq (value original k) (value modified k))
                (remdups (dict_keys original @ dict_keys modified))))"

definition refresh_failed ::
    "env \<Rightarrow> settings \<Rightarrow> client_id \<Rightarrow> json \<Rightarrow> token_endpoint_outcome \<Rightarrow> web_response handler" where
  "refresh_failed E S client_id refresh_result outcome =
     (let e = (case normalized_error outcome of None \<Rightarrow> SERVER_ERROR | Some e \<Rightarrow> e);
          log_failure = (\<lambda>level. seqA (try_res (as_dict refresh_result)) (\<lambda>d.
            report (LoggedWith level ''Token refresh failed'' (JObj (sanitize_for_logging d)))))
      in
      seqA (if invalidate_refresh_token outcome then
              seqA (in_world (update_token E (database S) client_id None)) (\<lambda>_.
              seqA (report (TokenInvalidated (error_value e))) (\<lambda>_.
                report (Logged LL_WARNING ''Revoking stored token after upstream invalid_grant'')))
            else if e = TEMPORARILY_UNAVAILABLE then log_failure LL_WARNING
            else log_failure LL_ERROR) (\<lambda>_.
      seqA (try_res (as_dict refresh_result)) (\<lambda>d.
      seqA (report (SpanEvent ''refresh_error'' (JObj (sanitize_for_logging d)))) (\<lambda>_.
      seqA (try_res (py_get refresh_result ''error_description'' JNull)) (\<lambda>description.
      seqA (try_res (py_get refresh_result ''error_uri'' JNull)) (\<lambda>uri.
      seqA (try_res (py_get refresh_result ''retry_after'' JNull)) (\<lambda>retry_after.
        raise_oauth e description uri retry_after)))))))"

text \<open>What to answer and what to keep: the payload for the client and the one to store.\<close>

definition merge_refresh :: "json dict \<Rightarrow> json dict \<Rightarrow> json dict \<times> json dict" where
  "merge_refresh result refresh_result =
     (let answer = (if \<not> dict_has refresh_result ''scope'' then
                      (case map_of result ''scope'' of
                         None \<Rightarrow> refresh_result | Some s \<Rightarrow> AList.update ''scope'' s refresh_result)
                    else refresh_result);
          modified = scrub_refresh_token result
      in case map_of answer ''refresh_token'' of
           None \<Rightarrow> (answer, modified)
         | Some t \<Rightarrow> (dict_del ''refresh_token'' answer, AList.update ''refresh_token'' t modified))"

definition refresh_succeeded ::
    "env \<Rightarrow> settings \<Rightarrow> client_credentials \<Rightarrow> token_record \<Rightarrow> json \<Rightarrow> json \<Rightarrow> web_response handler" where
  "refresh_succeeded E S c record result refresh_result =
     seqA (try_res (validate_token refresh_result)) (\<lambda>valid.
     if \<not> valid then raise_error INVALID_REQUEST ''Invalid response from provider.''
     else
       seqA (try_res (as_dict refresh_result)) (\<lambda>rd.
       seqA (try_res (as_dict result)) (\<lambda>d.
       let (answer, modified) = merge_refresh d rd in
       seqA (if \<not> py_eq (JObj d) (JObj modified) then
               let fields = JArr (map JStr (updated_fields d modified)) in
               seqA (report (LoggedWith LL_WARNING ''Updating token'' fields)) (\<lambda>_.
               seqA (report (SpanEvent ''Updating token'' fields)) (\<lambda>_.
               seqA (in_world (crypto_dumps E (cc_client_secret c) (JObj modified))) (\<lambda>token.
               seqA (in_world (update_token E (database S) (cc_client_id c) (Some token))) (\<lambda>_.
                 returnA ()))))
             else returnA ()) (\<lambda>_.
       seqA (in_world (observe_token_grant_age E (tr_created_at record))) (\<lambda>_.
         returnA (jsonify (JObj answer)))))))"

definition refresh_grant ::
    "env \<Rightarrow> settings \<Rightarrow> client_credentials \<Rightarrow> token_record \<Rightarrow> json \<Rightarrow> web_response handler" where
  "refresh_grant E S c record result =
     seqA (try_res (py_item result ''refresh_token'')) (\<lambda>refresh_token.
     seqA (in_world (fetch E (fetch_cfg S)
        (case nonempty (oauth_refresh_uri (oauth S)) of None \<Rightarrow> oauth_token_uri (oauth S) | Some u \<Rightarrow> u)
        ''refresh'' None
        [(''client_id'', JStr (oauth_client_id (oauth S))),
         (''client_secret'', JStr (oauth_client_secret (oauth S))),
         (''grant_type'', JStr (oauth_grant_type (oauth S))),
         (''refresh_token'', refresh_token)])) (\<lambda>refresh_result.
     seqA (try_res (py_in ''error'' refresh_result)) (\<lambda>has_error.
     seqA (try_res (token_endpoint_outcome False (Some (if has_error then 400 else 200)) refresh_result
        (fetch_retry_status_codes (fetch_cfg S)) (fetch_error_types (fetch_cfg S)))) (\<lambda>(_, outcome).
       if has_error then refresh_failed E S (cc_client_id c) refresh_result outcome
       else refresh_succeeded E S c record result refresh_result))))"

definition lookup_grant :: "env \<Rightarrow> settings \<Rightarrow> client_id \<Rightarrow> token_record handler" where
  "lookup_grant E S client_id =
     catchA (in_world (lookup_token E (database S) client_id))
       (\<lambda>e. if e = Raised LookupError \<or> e = Raised KeyError
            then raise_error INVALID_CLIENT ''Client not known.'' else raiseA e)"

definition decrypt_grant :: "env \<Rightarrow> client_credentials \<Rightarrow> string \<Rightarrow> json handler" where
  "decrypt_grant E c encrypted =
     catchA (try_res (crypto_loads E (cc_client_secret c) encrypted))
       (\<lambda>e. if e = Raised InvalidToken \<or> e = Raised TypeError \<or> e = Raised ValueError
            then raise_error INVALID_CLIENT ''Client not known.'' else raiseA e)"

definition token :: "env \<Rightarrow> settings \<Rightarrow> web_request \<Rightarrow> web_response handler" where
  "token E S rq =
     seqA (request_credentials E rq) (\<lambda>c.
     seqA (lookup_grant E S (cc_client_id c)) (\<lambda>record.
     case tr_encrypted_token record of
       None \<Rightarrow> revoked_grant E S rq
     | Some encrypted \<Rightarrow>
         seqA (decrypt_grant E c encrypted) (\<lambda>result.
         seqA (try_res (py_in ''refresh_token'' result)) (\<lambda>refreshable.
           if \<not> refreshable
           then seqA (in_world (observe_token_grant_age E (tr_created_at record))) (\<lambda>_. returnA (jsonify result))
           else refresh_grant E S c record result))))"

section \<open>Metrics\<close>

text \<open>\<open>hmac.compare_digest\<close> refuses texts with other than ASCII characters.\<close>

definition compare_digest :: "string \<Rightarrow> string \<Rightarrow> bool res" where
  "compare_digest a b = (if ascii_ok a \<and> ascii_ok b then Inr (a = b) else Inl TypeError)"

definition metrics :: "settings \<Rightarrow> web_request \<Rightarrow> web_response handler" where
  "metrics S rq =
     (if \<not> bridge_metrics_enabled S
      then returnA \<lparr> rsp_status = 404, rsp_headers = [], rsp_body = No_Body \<rparr>
      else
        seqA (case bridge_metrics_token S of
                None \<Rightarrow> returnA True
              | Some t \<Rightarrow> try_res (compare_digest
                  (case wr_authorization_header rq of None \<Rightarrow> [] | Some h \<Rightarrow> h) (''Bearer '' @ t))) (\<lambda>authorized.
          if \<not> authorized
          then returnA \<lparr> rsp_status = 401, rsp_headers = [(''WWW-Authenticate'', ''Bearer'')], rsp_body = No_Body \<rparr>
          else returnA \<lparr> rsp_status = 200, rsp_headers = [], rsp_body = Metrics_Body \<rparr>))"

section \<open>The request cycle\<close>

datatype route = R_Authorize | R_Callback | R_Token | R_Metrics

fun view :: "env \<Rightarrow> settings \<Rightarrow> route \<Rightarrow> web_request \<Rightarrow> web_response handler" where
  "view E S R_Authorize rq = authorize E S rq"
| "view E S R_Callback rq = callback E S rq"
| "view E S R_Token rq = token E S rq"
| "view E S R_Metrics rq = metrics S rq"

definition handle_exception :: "settings \<Rightarrow> web_exn \<Rightarrow> web_response handler" where
  "handle_exception S e = (case e of
     Oauth x \<Rightarrow> catchA (in_world (error_handler S x)) (\<lambda>_. in_world fallback_error_handler)
   | Raised x \<Rightarrow> in_world fallback_error_handler)"

text \<open>
  \<open>after_request\<close> functions run in the reverse order of their registration: the metrics first, then
  \<open>nocache\<close>.  The connection is closed when the application context ends.
\<close>

definition handle :: "env \<Rightarrow> settings \<Rightarrow> route \<Rightarrow> web_request \<Rightarrow> web_response handler" where
  "handle E S route rq =
     seqA (in_world (wall_time E)) (\<lambda>start_time.
     seqA (catchA (view E S route rq) (handle_exception S)) (\<lambda>response.
     seqA (in_world (wall_time E)) (\<lambda>_.
     seqA (report (RequestMeasured (rsp_status response))) (\<lambda>_.
     seqA (in_world close) (\<lambda>_.
       returnA (nocache response))))))"

section \<open>Concrete settings and requests\<close>

definition sample_settings :: settings where
  "sample_settings = settings_defaults ''page''
     (oauth_defaults ''cid'' ''csecret'' ''https://p/authorize'' ''https://p/token'') ''1'' True"

definition query_request :: "(string \<times> string) list \<Rightarrow> web_request" where
  "query_request args = \<lparr> wr_args = args, wr_form = [], wr_authorization = Inr None,
     wr_authorization_header = None, wr_user_agent = [] \<rparr>"

text \<open>A token request of a client with its credentials in the form.\<close>

definition token_request :: "string \<Rightarrow> string \<Rightarrow> web_request" where
  "token_request client_id client_secret =
     \<lparr> wr_args = [], wr_form = [(''grant_type'', ''client_credentials''), (''client_id'', client_id),
         (''client_secret'', client_secret)],
       wr_authorization = Inr None, wr_authorization_header = None, wr_user_agent = [] \<rparr>"

end
