(* ===== verification/View_Effects.thy ===== *)
theory View_Effects
  imports Views Fetch_Liveness
begin

text \<open>
  What a request does and does not do, whatever the provider, the database and the client do: every
  request is answered, no request to the provider and no change of the table happens before the
  checks of the callback and of the credentials have passed, and metrics are shown to the
  authorised only.
\<close>

named_theorems yields_intros \<open>what computations return\<close>

section \<open>Relations between the worlds before and after a handler\<close>

definition on_world :: "(world \<Rightarrow> world \<Rightarrow> bool) \<Rightarrow> world \<times> web_session \<Rightarrow> world \<times> web_session \<Rightarrow> bool" where
  "on_world R ws ws' \<longleftrightarrow> R (fst ws) (fst ws')"

lemma on_world_refl [keeps_intros]: "reflp R \<Longrightarrow> reflp (on_world R)"
  by (simp add: reflp_def on_world_def)

lemma on_world_trans [keeps_intros]: "transp R \<Longrightarrow> transp (on_world R)"
  by (auto simp: transp_def on_world_def)

lemma effect_in_world [keeps_intros]:
  "effect_within R m \<Longrightarrow> effect_within (on_world R) (in_world m)"
  by (auto simp: effect_within_def on_world_def in_world_def split: prod.split sum.split)
    (metis snd_conv)+

lemma effect_try_res [keeps_intros]: "reflp R \<Longrightarrow> effect_within (on_world R) (try_res r)"
  unfolding try_res_def by (intro keeps_intros)

lemma effect_report [keeps_intros]:
  "effect_within R (emit e :: unit prog) \<Longrightarrow> effect_within (on_world R) (report e)"
  unfolding report_def by (intro keeps_intros)

lemma effect_set_session [keeps_intros]: "reflp R \<Longrightarrow> effect_within (on_world R) (set_session s)"
  by (auto simp: effect_within_def set_session_def on_world_def reflp_def)

lemma effect_raise_oauth [keeps_intros]:
  "reflp R \<Longrightarrow> transp R \<Longrightarrow> effect_within (on_world R) (raise_oauth e d u r)"
  unfolding raise_oauth_def by (intro keeps_intros)

text \<open>Nothing is sent to the provider and nothing stored.\<close>

definition idle :: "world \<Rightarrow> world \<Rightarrow> bool" where
  "idle w w' \<longleftrightarrow> db w' = db w \<and> sent (trace w') = sent (trace w)"

lemma idle_refl [keeps_intros]: "reflp idle"
  by (simp add: reflp_def idle_def)

lemma idle_trans [keeps_intros]: "transp idle"
  by (rule transpI) (simp add: idle_def)

lemma idle_steps [keeps_intros]:
  "sent [e] = 0 \<Longrightarrow> effect_within idle (emit e)"
  "effect_within idle tick" "effect_within idle (monotonic E)"
  "effect_within idle (wall_time E)" "effect_within idle close"
  by (simp_all add: effect_within_def act_simps idle_def close_def)

lemma idle_error_page [keeps_intros]: "effect_within idle (error_page S e d st ra)"
  unfolding error_page_def Let_def by (intro keeps_intros; simp)

lemma idle_error_handler [keeps_intros]: "effect_within idle (error_handler S e)"
  unfolding error_handler_def Let_def by (intro keeps_intros; simp)

lemma idle_fallback [keeps_intros]: "effect_within idle fallback_error_handler"
  unfolding fallback_error_handler_def by (intro keeps_intros; simp)

lemma idle_generate_key [keeps_intros]: "effect_within idle (generate_key E)"
  unfolding generate_key_def by (intro keeps_intros)

lemma idle_authorize [keeps_intros]: "effect_within (on_world idle) (authorize E S rq)"
  unfolding authorize_def Let_def by (intro keeps_intros)

lemma idle_metrics [keeps_intros]: "effect_within (on_world idle) (metrics S rq)"
  unfolding metrics_def by (intro keeps_intros)

lemma idle_handle_exception [keeps_intros]: "effect_within (on_world idle) (handle_exception S e)"
  unfolding handle_exception_def by (cases e) (auto intro!: keeps_intros)

lemma wp_close [wp_simps]: "wp close Q X = (\<lambda>w. Q () (w\<lparr>db_open := False\<rparr>))"
  by (simp add: close_def wp_simps)

text \<open>What the request cycle adds to a view is idle.\<close>

lemma handle_rule:
  assumes "\<And>w0. idle w w0 \<Longrightarrow> wp (view E S route rq) (\<lambda>_ ws'. P (fst ws')) (\<lambda>_ ws'. P (fst ws')) (w0, s)"
    and "\<And>u u'. idle u u' \<Longrightarrow> P u \<Longrightarrow> P u'"
  shows "wp (handle E S route rq) (\<lambda>_ ws'. P (fst ws')) (\<lambda>_ ws'. P (fst ws')) (w, s)"
proof -
  have exn: "wp (handle_exception S e) (\<lambda>_ ws'. P (fst ws')) (\<lambda>_ ws'. P (fst ws')) ws"
    if "P (fst ws)" for e ws
    using that assms(2) effect_withinD [OF idle_handle_exception, of S e ws]
    by (auto simp: wp_def on_world_def split: prod.split sum.split)
  have tick: "idle w (w\<lparr>ticks := Suc (ticks w)\<rparr>)" for w by (simp add: idle_def)
  have tail: "P u \<Longrightarrow> P (u\<lparr>ticks := Suc (ticks u), trace := trace u @ [RequestMeasured (rsp_status r)],
      db_open := False\<rparr>)" for r u
    by (rule assms(2)) (auto simp: idle_def)
  show ?thesis
    unfolding handle_def
    by (auto simp: wp_simps intro!: wp_mono [OF assms(1) [OF tick]] wp_mono [OF exn] tail)
qed

section \<open>Every request is answered\<close>

text \<open>What a computation returns satisfies \<open>P\<close>, from whatever state it starts.\<close>

definition yields :: "('a \<Rightarrow> bool) \<Rightarrow> ('w, 'e, 'a) act \<Rightarrow> bool" where
  "yields P m \<longleftrightarrow> (\<forall>w a w'. m w = (Inr a, w') \<longrightarrow> P a)"

lemma yieldsD: "yields P m \<Longrightarrow> m w = (Inr a, w') \<Longrightarrow> P a"
  by (auto simp: yields_def)

lemma yields_basic [yields_intros]:
  "P a \<Longrightarrow> yields P (returnA a)" "yields P (raiseA e)" "(\<And>a. r = Inr a \<Longrightarrow> P a) \<Longrightarrow> yields P (liftA r)"
  by (simp_all add: yields_def act_simps)

lemma yields_seqA [yields_intros]:
  "(\<And>a w w'. m w = (Inr a, w') \<Longrightarrow> yields P (f a)) \<Longrightarrow> yields P (seqA m f)"
  by (auto simp: yields_def seqA_def split: prod.splits sum.splits)

lemma yields_catchA [yields_intros]:
  "yields P m \<Longrightarrow> (\<And>e. yields P (h e)) \<Longrightarrow> yields P (catchA m h)"
  by (auto simp: yields_def catchA_def split: prod.splits sum.splits)

lemma yields_cases [yields_intros]:
  "(b \<Longrightarrow> yields P m) \<Longrightarrow> (\<not> b \<Longrightarrow> yields P n) \<Longrightarrow> yields P (if b then m else n)"
  "(x = None \<Longrightarrow> yields P m) \<Longrightarrow> (\<And>a. x = Some a \<Longrightarrow> yields P (g a))
     \<Longrightarrow> yields P (case x of None \<Rightarrow> m | Some a \<Rightarrow> g a)"
  "(\<And>a b. y = (a, b) \<Longrightarrow> yields P (k a b)) \<Longrightarrow> yields P (case y of (a, b) \<Rightarrow> k a b)"
  by (auto split: option.split prod.split)

lemma yields_in_world [yields_intros]: "yields P m \<Longrightarrow> yields P (in_world m)"
  by (auto simp: yields_def in_world_def split: prod.splits sum.splits)

lemma yields_try_res [yields_intros]: "(\<And>a. r = Inr a \<Longrightarrow> P a) \<Longrightarrow> yields P (try_res r)"
  unfolding try_res_def by (intro yields_intros)

lemma yields_raise_oauth [yields_intros]: "yields P (raise_oauth e d u r)"
  unfolding raise_oauth_def by (intro yields_intros)

text \<open>The answers of the bridge: their status, and that no view decides about caching.\<close>

definition answer_shape :: "web_response \<Rightarrow> bool" where
  "answer_shape r \<longleftrightarrow> rsp_status r \<in> {200, 302, 400, 401, 404, 500, 503}
     \<and> \<not> dict_has (rsp_headers r) ''Cache-Control''"

lemma dict_has_items [simp]: "\<not> dict_has [] k" "dict_has ((k', v) # d) k \<longleftrightarrow> k = k' \<or> dict_has d k"
  by (auto simp: dict_has_def)

lemma set_header_simps [simp]:
  "rsp_status (set_header k v r) = rsp_status r" "rsp_body (set_header k v r) = rsp_body r"
  "dict_has (rsp_headers (set_header k v r)) h \<longleftrightarrow> h = k \<or> dict_has (rsp_headers r) h"
  by (simp_all add: set_header_def)

lemma shape_jsonify [simp]: "answer_shape (jsonify v)"
  by (simp add: answer_shape_def jsonify_def)

lemma shape_status [simp]:
  "answer_shape r \<Longrightarrow> c \<in> {200, 302, 400, 401, 404, 500, 503} \<Longrightarrow> answer_shape (r\<lparr>rsp_status := c\<rparr>)"
  by (simp add: answer_shape_def)

lemma shape_set_header [simp]: "k \<noteq> ''Cache-Control'' \<Longrightarrow> answer_shape (set_header k v r) = answer_shape r"
  by (auto simp: answer_shape_def)

lemma shape_render [simp]: "answer_shape (render S v)"
  by (auto simp: render_def set_callback_security_headers_def Let_def answer_shape_def split: option.split)

lemma shape_error_page [yields_intros]: "yields answer_shape (error_page S e d st ra)"
  unfolding error_page_def Let_def by (intro yields_intros) auto

lemma shape_error_handler [yields_intros]: "yields answer_shape (error_handler S e)"
  unfolding error_handler_def Let_def
  by (rule yields_seqA, rule yields_seqA, rule yields_basic)
    (auto simp: act_simps split: if_splits prod.splits sum.splits)

lemma shape_fallback [yields_intros]: "yields answer_shape fallback_error_handler"
  unfolding fallback_error_handler_def by (intro yields_intros) auto

lemma shape_authorize [yields_intros]: "yields answer_shape (authorize E S rq)"
  unfolding authorize_def Let_def
  by (intro yields_intros) (auto simp: redirect_def bindR_eq_Inr answer_shape_def)

lemma shape_store_token [yields_intros]: "yields answer_shape (store_token E S result st)"
  unfolding store_token_def Let_def by (intro yields_intros) auto

lemma shape_callback [yields_intros]: "yields answer_shape (callback E S rq)"
  unfolding callback_def exchange_code_def Let_def case_prod_beta by (intro yields_intros)

lemma shape_token [yields_intros]: "yields answer_shape (token E S rq)"
  unfolding token_def revoked_grant_def refresh_grant_def refresh_failed_def refresh_succeeded_def
    Let_def case_prod_beta
  by (intro yields_intros) auto

lemma shape_metrics [yields_intros]: "yields answer_shape (metrics S rq)"
  unfolding metrics_def by (intro yields_intros) (auto simp: answer_shape_def)

lemma shape_view [yields_intros]: "yields answer_shape (view E S route rq)"
  by (cases route) (auto intro: yields_intros)

lemma shape_handle_exception [yields_intros]: "yields answer_shape (handle_exception S e)"
  unfolding handle_exception_def by (cases e) (auto intro: yields_intros)

lemma fallback_response:
  "fst (fallback_error_handler w) = Inr ((jsonify (JObj [(''error'', JStr ''server_error''),
     (''error_description'', JStr (the (descriptions SERVER_ERROR)))]))\<lparr>rsp_status := 500\<rparr>)"
  by (simp add: fallback_error_handler_def act_simps error_json_def or_description_def
      error_description_def)

lemma handle_exception_answers: "\<exists>r ws'. handle_exception S e ws = (Inr r, ws')"
proof -
  have fb: "\<exists>r ws'. in_world fallback_error_handler (w, s) = (Inr r, ws')" for w s
    using fallback_response [of w] by (cases "fallback_error_handler w") (auto simp: act_simps)
  show ?thesis
    using fb unfolding handle_exception_def
    by (cases e; cases ws) (auto simp: catchA_run split: prod.split sum.split)
qed

lemma handle_run:
  "\<exists>a w1 s1. catchA (view E S route rq) (handle_exception S) (w\<lparr>ticks := Suc (ticks w)\<rparr>, s) = (Inr a, (w1, s1))
     \<and> handle E S route rq (w, s) = (Inr (nocache a), (w1\<lparr>ticks := Suc (ticks w1),
         trace := trace w1 @ [RequestMeasured (rsp_status a)], db_open := False\<rparr>, s1))"
proof -
  have "\<exists>r ws'. catchA (view E S route rq) (handle_exception S) ws = (Inr r, ws')" for ws
    using handle_exception_answers by (auto simp: catchA_run split: prod.split sum.split)
  then obtain a w1 s1 where
    "catchA (view E S route rq) (handle_exception S) (w\<lparr>ticks := Suc (ticks w)\<rparr>, s) = (Inr a, (w1, s1))"
    by (metis surj_pair)
  then show ?thesis unfolding handle_def by (simp add: act_simps close_def)
qed


section \<open>The session\<close>

definition same_session :: "world \<times> web_session \<Rightarrow> world \<times> web_session \<Rightarrow> bool" where
  "same_session ws ws' \<longleftrightarrow> snd ws' = snd ws"

lemma same_session_refl [keeps_intros]: "reflp same_session"
  by (simp add: reflp_def same_session_def)

lemma same_session_trans [keeps_intros]: "transp same_session"
  by (rule transpI) (simp add: same_session_def)

lemma session_in_world [keeps_intros]: "effect_within same_session (in_world m)"
  by (auto simp: effect_within_def same_session_def in_world_def split: prod.split sum.split)

lemma session_try_res [keeps_intros]: "effect_within same_session (try_res r)"
  unfolding try_res_def by (intro keeps_intros)

lemma session_report [keeps_intros]: "effect_within same_session (report e)"
  unfolding report_def by (intro keeps_intros)

lemma session_raise [keeps_intros]: "effect_within same_session (raise_oauth e d u r)"
  unfolding raise_oauth_def by (intro keeps_intros)

lemma session_handle_exception [keeps_intros]: "effect_within same_session (handle_exception S e)"
  unfolding handle_exception_def by (cases e) (auto intro!: keeps_intros)

lemma session_exchange [keeps_intros]: "effect_within same_session (exchange_code E S rq st)"
  unfolding exchange_code_def store_token_def Let_def case_prod_beta by (intro keeps_intros)

text \<open>A request is its view, followed by steps that neither store, send nor change the session.\<close>

lemma handle_decompose:
  assumes "handle E S route rq (w, s) = (r, ws')"
  obtains v ws1 where "view E S route rq (w\<lparr>ticks := Suc (ticks w)\<rparr>, s) = (v, ws1)"
    and "idle (fst ws1) (fst ws')" and "snd ws' = snd ws1"
    and "\<And>a. v = Inr a \<Longrightarrow> r = Inr (nocache a)"
    and "\<And>e. v = Inl e \<Longrightarrow> \<exists>a. fst (handle_exception S e ws1) = Inr a \<and> r = Inr (nocache a)"
proof -
  obtain v ws1 where v: "view E S route rq (w\<lparr>ticks := Suc (ticks w)\<rparr>, s) = (v, ws1)"
    by (metis surj_pair)
  have run: "catchA (view E S route rq) (handle_exception S) (w\<lparr>ticks := Suc (ticks w)\<rparr>, s)
      = catchA (\<lambda>_. (v, ws1)) (handle_exception S) ws" for ws
    by (simp add: catchA_run v)
  obtain a w2 s2 where a: "catchA (\<lambda>_. (v, ws1)) (handle_exception S) ws = (Inr a, (w2, s2))"
    and h: "handle E S route rq (w, s) = (Inr (nocache a), (w2\<lparr>ticks := Suc (ticks w2),
      trace := trace w2 @ [RequestMeasured (rsp_status a)], db_open := False\<rparr>, s2))" for ws
    using handle_run [of E S route rq w s] run by metis
  have r: "r = Inr (nocache a)" and ws': "idle w2 (fst ws')" "snd ws' = s2"
    using assms unfolding h by (auto simp: idle_def)
  have "on_world idle ws1 (w2, s2) \<and> same_session ws1 (w2, s2)"
  proof (cases v)
    case (Inl e)
    then have h: "handle_exception S e ws1 = (Inr a, (w2, s2))" using a [of ws1] by (simp add: catchA_run)
    from effect_withinD [OF idle_handle_exception h] effect_withinD [OF session_handle_exception h]
    show ?thesis ..
  next
    case (Inr b)
    then show ?thesis using a [of ws1] by (simp add: catchA_run on_world_def same_session_def idle_def)
  qed
  then have "idle (fst ws1) (fst ws')" "snd ws' = snd ws1"
    using ws' by (auto simp: on_world_def same_session_def idle_def)
  with v r a [of ws1] show thesis
    by (intro that) (auto simp: catchA_run split: sum.splits)
qed

section \<open>The callback\<close>

text \<open>
  The query of a callback that may be traded for a token: it carries the state that the session
  holds, no error, and a code.
\<close>

definition callback_accepted :: "web_request \<Rightarrow> web_session \<Rightarrow> bool" where
  "callback_accepted rq s \<longleftrightarrow> ses_state s \<noteq> None \<and> map_of (wr_args rq) ''state'' = ses_state s
     \<and> \<not> dict_has (wr_args rq) ''error'' \<and> nonempty (map_of (wr_args rq) ''code'') \<noteq> None"

lemma callback_error_None:
  "callback_error S rq (ses_state s) = Inr None \<longleftrightarrow> callback_accepted rq s"
  unfolding callback_accepted_def callback_error_def Let_def
  by (cases "wr_args rq = []")
    (auto simp: bindR_eq_Inr dict_has_def nonempty_def split: option.splits if_splits)

lemma callback_run:
  "callback E S rq (w, s) =
     (case callback_error S rq (ses_state s) of
        Inl e \<Rightarrow> (Inl (Raised e), (w, empty_session))
      | Inr None \<Rightarrow> exchange_code E S rq (ses_client_state s) (w, empty_session)
      | Inr (Some (e, desc)) \<Rightarrow>
          seqA (report (Logged (error_level S (error_value e)) (callback_message rq e desc))) (\<lambda>_.
            in_world (error_page S (Known e) (Some desc) (ses_client_state s) JNull)) (w, empty_session))"
  by (simp add: callback_def act_simps split: sum.split option.split)

abbreviation refuse_callback :: "settings \<Rightarrow> web_request \<Rightarrow> web_session \<Rightarrow> oauth_error \<Rightarrow> string \<Rightarrow> web_response handler" where
  "refuse_callback S rq s e desc \<equiv>
     seqA (report (Logged (error_level S (error_value e)) (callback_message rq e desc))) (\<lambda>_.
       in_world (error_page S (Known e) (Some desc) (ses_client_state s) JNull))"

lemma callback_session: "snd (snd (callback E S rq (w, s))) = empty_session"
proof -
  have "effect_within same_session (refuse_callback S rq s e desc)" for e desc
    by (intro keeps_intros)
  then show ?thesis unfolding callback_run
    using session_exchange
    by (auto simp: effect_within_def same_session_def split: sum.split option.split)
qed

lemma callback_idle:
  assumes "\<not> callback_accepted rq s"
  shows "idle w (fst (snd (callback E S rq (w, s))))"
proof -
  have eff: "effect_within (on_world idle) (refuse_callback S rq s e desc)" for e desc
    by (intro keeps_intros) simp
  have "callback_error S rq (ses_state s) \<noteq> Inr None"
    using assms by (simp add: callback_error_None)
  then show ?thesis unfolding callback_run
    using eff by (auto simp: effect_within_def on_world_def idle_def split: sum.split option.split)
qed

text \<open>
  C13. A callback is bound to the login that started it: unless its query carries exactly the state
  that the session holds, no error and a code, nothing is sent to the provider and nothing stored;
  and since the session is emptied, no later callback is accepted with it.
\<close>
theorem callback_needs_session_state:
  assumes "handle E S R_Callback rq (w, s) = (r, (w', s'))"
  shows "(callback_accepted rq s \<or> db w' = db w \<and> sent (trace w') = sent (trace w))
    \<and> s' = empty_session \<and> \<not> callback_accepted rq' s'"
proof -
  obtain v ws1 where v: "callback E S rq (w\<lparr>ticks := Suc (ticks w)\<rparr>, s) = (v, ws1)"
    and tail: "idle (fst ws1) w'" "s' = snd ws1"
    using assms by (rule handle_decompose) simp
  have "s' = empty_session" using callback_session [of E S rq] v tail(2) by (metis snd_conv)
  moreover have "idle (w\<lparr>ticks := Suc (ticks w)\<rparr>) (fst ws1)" if "\<not> callback_accepted rq s"
    using callback_idle [OF that] v by (metis snd_conv)
  moreover have "\<not> callback_accepted rq' empty_session"
    by (simp add: callback_accepted_def empty_session_def)
  ultimately show ?thesis
    using tail(1) by (auto simp: idle_def)
qed

theorem callback_needs_session_state_witness:
  "db (fst (snd (handle sample_env sample_settings R_Callback
     (query_request [(''state'', ''forged''), (''code'', ''c'')])
     (fresh_world, \<lparr> ses_client_state = None, ses_state = Some ''expected'' \<rparr>)))) = db fresh_world"
proof -
  let ?h = "handle sample_env sample_settings R_Callback
     (query_request [(''state'', ''forged''), (''code'', ''c'')])
     (fresh_world, \<lparr> ses_client_state = None, ses_state = Some ''expected'' \<rparr>)"
  have run: "?h = (fst ?h, (fst (snd ?h), snd (snd ?h)))" by simp
  from callback_needs_session_state [OF run] show ?thesis
    by (simp add: callback_accepted_def query_request_def)
qed

section \<open>Authorize\<close>

lemma yields_wp: "yields P m \<Longrightarrow> wp m (\<lambda>a _. P a) (\<lambda>_ _. True) w"
  by (auto simp: wp_def yields_def split: prod.split sum.split)

lemma no_redirect_error_page: "yields (\<lambda>r. rsp_status r \<noteq> 302) (error_page S e d st ra)"
  unfolding error_page_def Let_def by (intro yields_intros) auto

lemma no_redirect_exception: "yields (\<lambda>r. rsp_status r \<noteq> 302) (handle_exception S e)"
proof -
  have fb: "yields (\<lambda>r. rsp_status r \<noteq> 302) fallback_error_handler"
    unfolding fallback_error_handler_def by (intro yields_intros) auto
  have "yields (\<lambda>r. rsp_status r \<noteq> 302) (error_handler S x)" for x
    unfolding error_handler_def Let_def
    by (rule yields_seqA, rule yields_seqA, rule yields_basic)
      (auto simp: act_simps jsonify_def split: if_splits prod.splits sum.splits)
  with fb show ?thesis
    unfolding handle_exception_def by (cases e) (auto intro: yields_intros)
qed

definition login_parameters :: "settings \<Rightarrow> string \<Rightarrow> string \<Rightarrow> string dict" where
  "login_parameters S scope state =
     [(''client_id'', oauth_client_id (oauth S)), (''response_type'', ''code''),
      (''redirect_uri'', oauth_redirect_uri (oauth S)), (''scope'', scope), (''state'', state)]"

lemma authorize_post:
  "wp (authorize E S rq) (\<lambda>r ws'. rsp_status r = 302 \<longrightarrow> (\<exists>state scope p.
       snd ws' = \<lparr> ses_client_state = map_of (wr_args rq) ''state'', ses_state = Some state \<rparr>
     \<and> requested_scope_is_allowed scope (oauth_allowed_scopes (oauth S))
     \<and> urlsplit (netloc_valid E) (oauth_authorization_uri (oauth S)) = Inr p
     \<and> map_of (rsp_headers r) ''Location'' = Some (urlunsplit (p\<lparr>up_query :=
         rewrite_query (up_query p) (login_parameters S scope state)\<rparr>)))) (\<lambda>_ _. True) ws"
  unfolding authorize_def Let_def login_parameters_def [symmetric]
  by (cases ws) (auto simp: wp_simps generate_key_def redirect_def rewrite_uri_def bindR_eq_Inr
      split: sum.split intro!: wp_mono [OF yields_wp [OF no_redirect_error_page]])



section \<open>Metrics\<close>

lemma metrics_run:
  "metrics S rq ws =
     (if \<not> bridge_metrics_enabled S
      then (Inr \<lparr> rsp_status = 404, rsp_headers = [], rsp_body = No_Body \<rparr>, ws)
      else case bridge_metrics_token S of
        None \<Rightarrow> (Inr \<lparr> rsp_status = 200, rsp_headers = [], rsp_body = Metrics_Body \<rparr>, ws)
      | Some t \<Rightarrow> (case compare_digest
            (case wr_authorization_header rq of None \<Rightarrow> [] | Some h \<Rightarrow> h) (''Bearer '' @ t) of
          Inl e \<Rightarrow> (Inl (Raised e), ws)
        | Inr True \<Rightarrow> (Inr \<lparr> rsp_status = 200, rsp_headers = [], rsp_body = Metrics_Body \<rparr>, ws)
        | Inr False \<Rightarrow> (Inr \<lparr> rsp_status = 401, rsp_headers = [(''WWW-Authenticate'', ''Bearer'')],
            rsp_body = No_Body \<rparr>, ws)))"
  by (auto simp: metrics_def act_simps split: option.split sum.split bool.split)

definition shows_metrics :: "web_exn + web_response \<Rightarrow> bool" where
  "shows_metrics v \<longleftrightarrow> (case v of Inl _ \<Rightarrow> False | Inr r \<Rightarrow> rsp_body r = Metrics_Body)"

lemma metrics_shown_iff:
  "shows_metrics (fst (metrics S rq ws)) \<longleftrightarrow> bridge_metrics_enabled S \<and> (case bridge_metrics_token S of
     None \<Rightarrow> True | Some t \<Rightarrow> ascii_ok t \<and> wr_authorization_header rq = Some (''Bearer '' @ t))"
proof -
  have "ascii_ok (''Bearer '' @ t) \<longleftrightarrow> ascii_ok t" for t
    by (auto simp: ascii_ok_def)
  then have "compare_digest h (''Bearer '' @ t) = (if ascii_ok h \<and> ascii_ok t
      then Inr (h = ''Bearer '' @ t) else Inl TypeError)" for h t
    by (simp add: compare_digest_def)
  then show ?thesis
    unfolding metrics_run shows_metrics_def
    by (cases "wr_authorization_header rq"; cases "bridge_metrics_token S")
      (auto simp: ascii_ok_def split: bool.splits)
qed

text \<open>
  C18. Metrics are shown exactly when they are enabled and, where a token is configured, to requests
  whose authorisation header is that bearer token.
\<close>
theorem metrics_need_token:
  "(\<exists>r ws'. handle E S R_Metrics rq (w, s) = (Inr r, ws') \<and> rsp_body r = Metrics_Body) \<longleftrightarrow>
     bridge_metrics_enabled S \<and> (case bridge_metrics_token S of None \<Rightarrow> True
       | Some t \<Rightarrow> ascii_ok t \<and> wr_authorization_header rq = Some (''Bearer '' @ t))"
proof -
  have "yields (\<lambda>r. rsp_body r \<noteq> Metrics_Body) (handle_exception S (Raised e))" for e
    unfolding handle_exception_def fallback_error_handler_def
    by (auto intro!: yields_intros simp: jsonify_def)
  then have exn: "handle_exception S (Raised e) ws = (Inr a, ws') \<Longrightarrow> rsp_body a \<noteq> Metrics_Body" for e ws a ws'
    by (rule yieldsD)
  have body: "rsp_body (nocache a) = rsp_body a" for a by (simp add: nocache_def)
  obtain r ws' where h: "handle E S R_Metrics rq (w, s) = (Inr r, ws')"
    using handle_run [of E S R_Metrics rq w s] by blast
  then obtain v ws1 where v: "metrics S rq (w\<lparr>ticks := Suc (ticks w)\<rparr>, s) = (v, ws1)"
    and ok: "\<And>a. v = Inr a \<Longrightarrow> r = nocache a"
    and fail: "\<And>e. v = Inl e \<Longrightarrow> \<exists>a. fst (handle_exception S e ws1) = Inr a \<and> r = nocache a"
    by (rule handle_decompose) auto
  have "rsp_body r = Metrics_Body \<longleftrightarrow> shows_metrics v"
  proof (cases v)
    case (Inl e)
    then have "e = Raised TypeError"
      using v by (auto simp: metrics_run compare_digest_def split: if_splits option.splits bool.splits)
    moreover obtain a where "fst (handle_exception S e ws1) = Inr a" "r = nocache a" using fail [OF Inl] by blast
    ultimately show ?thesis
      using exn [of TypeError ws1 a] body Inl by (metis prod.collapse shows_metrics_def sum.case(1))
  next
    case (Inr a)
    then show ?thesis using ok [OF Inr] body by (simp add: shows_metrics_def)
  qed
  with h metrics_shown_iff [of S rq "(w\<lparr>ticks := Suc (ticks w)\<rparr>, s)"] show ?thesis by (simp add: v)
qed

section \<open>What is logged\<close>

text \<open>The events that are written are all of a kind \<open>P\<close>.\<close>

definition writes :: "(event \<Rightarrow> bool) \<Rightarrow> world \<Rightarrow> world \<Rightarrow> bool" where
  "writes P w w' \<longleftrightarrow> (\<exists>es. trace w' = trace w @ es \<and> list_all P es)"

lemma writes_refl [keeps_intros]: "reflp (writes P)"
  by (auto simp: reflp_def writes_def)

lemma writes_trans [keeps_intros]: "transp (writes P)"
  by (rule transpI) (auto simp: writes_def)

lemma writes_same: "trace w' = trace w \<Longrightarrow> writes P w w'"
  by (simp add: writes_def)

lemma writes_steps [keeps_intros]:
  "P e \<Longrightarrow> effect_within (writes P) (emit e)"
  "effect_within (writes P) tick" "effect_within (writes P) (monotonic E)"
  "effect_within (writes P) (wall_time E)" "effect_within (writes P) close"
  by (auto simp: effect_within_def act_simps writes_def close_def)

lemma writes_extends: "effect_within (extends Q) m \<Longrightarrow> (\<And>e. Q e \<Longrightarrow> P e) \<Longrightarrow> effect_within (writes P) m"
  by (fastforce simp: effect_within_def extends_def writes_def list_all_iff)

lemma writes_sqlite_call [keeps_intros]: "effect_within (writes P) (sqlite_call E)"
  unfolding sqlite_call_def by (intro keeps_intros)

lemma writes_execute [keeps_intros]: "effect_within (writes P) (execute E stmt)"
  unfolding execute_def
  by (rule effect_seqA [OF writes_trans writes_sqlite_call])
    (auto simp: effect_within_def intro!: writes_same split: prod.split)

lemma writes_pragmas [keeps_intros]: "effect_within (writes P) (run_pragmas E ps)"
  by (induction ps) (auto intro!: keeps_intros)

lemma writes_get [keeps_intros]: "effect_within (writes P) (get_connection E s)"
  unfolding get_connection_def connect_def
  by (intro keeps_intros effect_modifyA) (simp add: writes_def)

lemma writes_rollback [keeps_intros]: "effect_within (writes P) (rollback d)"
  unfolding rollback_def by (intro effect_modifyA) (simp add: writes_def)

lemma writes_transact [keeps_intros]:
  "effect_within (writes P) body \<Longrightarrow> effect_within (writes P) (transact E t body)"
  unfolding transact_def by (intro keeps_intros)

text \<open>
  Fit for logs: a payload whose fields are allowed or redacted, a list of field names, the code of
  an error, or nothing.  The payload that \<open>fetch\<close> logs beside an unexpected response is left out.
\<close>

fun redacted :: "json \<Rightarrow> bool" where
  "redacted (JObj d) = list_all (\<lambda>(k, v). k \<in> set ALLOWED_LOG_FIELDS \<or> v = JStr REDACTED_LOG_VALUE) d"
| "redacted (JArr xs) = (\<exists>ks. xs = map JStr ks)"
| "redacted (JStr s) = (s \<in> insert ''invalid_response'' (insert ''integrity_error'' (range error_value)))"
| "redacted v = (v = JNull)"

fun fit_for_logs :: "event \<Rightarrow> bool" where
  "fit_for_logs (LoggedWith _ _ v) = redacted v"
| "fit_for_logs (SpanEvent _ v) = redacted v"
| "fit_for_logs _ = True"

declare redacted.simps(1,2) [simp del]

lemma redacted_names [simp]: "redacted (JArr (map JStr ks))"
  by (auto simp: redacted.simps(2))

lemma redacted_sanitized [simp]: "redacted (JObj (sanitize_for_logging d))"
  by (auto simp: redacted.simps(1) sanitize_for_logging_def list_all_iff split: if_splits)

text \<open>The error of an error page is a member of \<open>OAuthError\<close> or one of two texts.\<close>

fun named_error :: "error_arg \<Rightarrow> bool" where
  "named_error (Known e) = True"
| "named_error (Text t) = (t = ''invalid_response'' \<or> t = ''integrity_error'')"

lemma redacted_code: "named_error e \<Longrightarrow> redacted (JStr (error_code_of e))"
  by (cases e) auto

lemma token_result_named: "token_result_error S v = Inr (Some (e, d)) \<Longrightarrow> named_error e"
  by (auto simp: token_result_error_def bindR_eq_Inr split: if_splits)

lemma effect_try_res_bind:
  "reflp R \<Longrightarrow> (\<And>a. r = Inr a \<Longrightarrow> effect_within (on_world R) (f a))
   \<Longrightarrow> effect_within (on_world R) (seqA (try_res r) f)"
  by (cases r) (auto simp: effect_within_def seqA_run try_res_run on_world_def reflp_def)

lemma logs_cursor [keeps_intros]:
  "effect_within (writes fit_for_logs) body
   \<Longrightarrow> effect_within (writes fit_for_logs) (cursor E s name t own body)"
  unfolding cursor_def by (intro keeps_intros; simp)

lemma logs_table [keeps_intros]:
  "effect_within (writes fit_for_logs) (insert_token E s cid t)"
  "effect_within (writes fit_for_logs) (lookup_token E s cid)"
  "effect_within (writes fit_for_logs) (update_token E s cid u)"
  unfolding insert_token_def lookup_token_def update_token_def
  by (intro keeps_intros; simp)+

lemma logs_fetch [keeps_intros]: "effect_within (writes fit_for_logs) (fetch E F uri ep auth data)"
proof (rule writes_extends [OF effect_fetch])
  show "fetch_event ep rq limit e \<Longrightarrow> fit_for_logs e" for rq limit e by (cases e) simp_all
qed

lemma logs_error_page [keeps_intros]:
  "named_error e \<Longrightarrow> effect_within (writes fit_for_logs) (error_page S e d st ra)"
  unfolding error_page_def Let_def by (intro keeps_intros; simp only: fit_for_logs.simps redacted_code)

lemma logs_error_handler [keeps_intros]: "effect_within (writes fit_for_logs) (error_handler S e)"
  unfolding error_handler_def Let_def by (intro keeps_intros; simp)

lemma logs_fallback [keeps_intros]: "effect_within (writes fit_for_logs) fallback_error_handler"
  unfolding fallback_error_handler_def by (intro keeps_intros; simp)

lemma logs_secrets [keeps_intros]:
  "effect_within (writes fit_for_logs) (generate_key E)" "effect_within (writes fit_for_logs) (generate_id E)"
  "effect_within (writes fit_for_logs) (crypto_dumps E k v)"
  unfolding generate_key_def generate_id_def crypto_dumps_def by (intro keeps_intros)+

lemma logs_authorize [keeps_intros]: "effect_within (on_world (writes fit_for_logs)) (authorize E S rq)"
  unfolding authorize_def Let_def by (intro keeps_intros; simp)

lemma logs_store_token [keeps_intros]:
  "effect_within (on_world (writes fit_for_logs)) (store_token E S result st)"
  unfolding store_token_def Let_def sorted_keys_def by (intro keeps_intros; simp)

lemma logs_exchange [keeps_intros]:
  "effect_within (on_world (writes fit_for_logs)) (exchange_code E S rq st)"
proof -
  have err: "effect_within (on_world (writes fit_for_logs)) (case err of
         None \<Rightarrow> store_token E S result st
       | Some (e, desc) \<Rightarrow>
           seqA (try_res (as_dict result)) (\<lambda>d.
           seqA (report (LoggedWith LL_WARNING ''Retrieving token failed'' (JObj (sanitize_for_logging d)))) (\<lambda>_.
           seqA (report (SpanEvent ''token_error'' (JObj (sanitize_for_logging d)))) (\<lambda>_.
           seqA (try_res (py_get result ''retry_after'' JNull)) (\<lambda>retry_after.
             in_world (error_page S e (Some desc) st retry_after))))))"
    if "token_result_error S result = Inr err" for result err
    using that token_result_named
    by (cases err) (auto split: prod.split intro!: keeps_intros simp del: redacted.simps)
  show ?thesis
    unfolding exchange_code_def Let_def
    by (intro effect_seqA [OF on_world_trans [OF writes_trans] effect_in_world [OF logs_fetch]]
        effect_try_res_bind [OF writes_refl] err)
qed

lemma logs_callback [keeps_intros]: "effect_within (on_world (writes fit_for_logs)) (callback E S rq)"
  unfolding callback_def case_prod_beta by (intro keeps_intros; simp)

lemma effect_credential_error [keeps_intros]:
  "(\<And>msg. effect_within R (f msg)) \<Longrightarrow> effect_within R m \<Longrightarrow> effect_within R n
   \<Longrightarrow> effect_within R (case x of CredentialValidationError msg \<Rightarrow> f msg
      | ClientIdValidationError \<Rightarrow> m | ClientSecretValidationError \<Rightarrow> n)"
  by (cases x) simp_all

lemma logs_credentials [keeps_intros]:
  "effect_within (on_world (writes fit_for_logs)) (request_credentials E rq)"
  unfolding request_credentials_def Let_def case_prod_beta by (intro keeps_intros; simp)

lemma logs_grant_age [keeps_intros]: "effect_within (writes fit_for_logs) (observe_token_grant_age E t)"
  unfolding observe_token_grant_age_def by (intro keeps_intros; simp)

lemma logs_revoked [keeps_intros]: "effect_within (on_world (writes fit_for_logs)) (revoked_grant E S rq)"
  unfolding revoked_grant_def by (intro keeps_intros; simp)

lemma logs_refresh_failed [keeps_intros]:
  "effect_within (on_world (writes fit_for_logs)) (refresh_failed E S cid result oc)"
  unfolding refresh_failed_def Let_def by (intro keeps_intros; simp)

lemma logs_refresh_succeeded [keeps_intros]:
  "effect_within (on_world (writes fit_for_logs)) (refresh_succeeded E S c rec d rd)"
  unfolding refresh_succeeded_def Let_def case_prod_beta by (intro keeps_intros; simp)

lemma logs_refresh_grant [keeps_intros]:
  "effect_within (on_world (writes fit_for_logs)) (refresh_grant E S c rec d)"
  unfolding refresh_grant_def case_prod_beta by (intro keeps_intros)

lemma logs_token [keeps_intros]: "effect_within (on_world (writes fit_for_logs)) (token E S rq)"
  unfolding token_def lookup_grant_def decrypt_grant_def by (intro keeps_intros)

lemma logs_view [keeps_intros]: "effect_within (on_world (writes fit_for_logs)) (view E S route rq)"
  by (cases route) (auto simp: metrics_def intro!: keeps_intros)

lemma logs_handle: "effect_within (on_world (writes fit_for_logs)) (handle E S route rq)"
proof -
  have "effect_within (on_world (writes fit_for_logs)) (handle_exception S e)" for e
    unfolding handle_exception_def by (cases e) (auto intro!: keeps_intros)
  then show ?thesis unfolding handle_def by (intro keeps_intros; simp)
qed



text \<open>
  The warning that is left out does leak: when the provider sends a token with a status that is
  retried, the log record holds the payload as it is, access and refresh token included.
\<close>
lemma unexpected_response_logs_the_token:
  "UnexpectedResponse ''token'' ''retryable_status_with_success_payload'' sample_token
     \<in> set (trace (snd (fetch (steady_env 503 sample_token) (fetch_defaults\<lparr>fetch_total_retries := 0\<rparr>)
          ''https://p/token'' ''token'' None [] initial_world)))"
  by code_simp

end
