(* ===== verification/Grant_Safety.thy ===== *)
theory Grant_Safety
  imports View_Effects
begin

text \<open>
  What the token endpoint does to the table of grants: who can change a grant, what revokes one,
  and what a refresh stores.
\<close>

section \<open>Who is asking\<close>

text \<open>The client id and secret a token request presents, in the header or else in the form.\<close>

definition presents :: "web_request \<Rightarrow> string option \<Rightarrow> string option \<Rightarrow> bool" where
  "presents rq cid secret \<longleftrightarrow> (case wr_authorization rq of
     Inr (Some a) \<Rightarrow> cid = wa_username a \<and> secret = wa_password a
   | _ \<Rightarrow> cid = map_of (wr_form rq) ''client_id'' \<and> secret = map_of (wr_form rq) ''client_secret'')"

definition authenticated_as :: "env \<Rightarrow> web_request \<Rightarrow> client_credentials \<Rightarrow> bool" where
  "authenticated_as E rq c \<longleftrightarrow>
     (\<exists>cid secret. presents rq cid secret \<and> validate_credentials E cid secret = Inr c)"

lemma authenticated_unique: "authenticated_as E rq c \<Longrightarrow> authenticated_as E rq c' \<Longrightarrow> c' = c"
  by (auto simp: authenticated_as_def presents_def split: sum.splits option.splits)

lemma wp_effect_yields:
  "effect_within R m \<Longrightarrow> yields P m \<Longrightarrow> wp m (\<lambda>a w'. R w w' \<and> P a) (\<lambda>_ w'. R w w') w"
  by (auto simp: wp_def effect_within_def yields_def split: prod.split sum.split) (metis snd_conv)+

lemma credentials_same_db [keeps_intros]: "effect_within (on_world same_db) (request_credentials E rq)"
  unfolding request_credentials_def Let_def case_prod_beta by (intro keeps_intros)

lemma yields_sum [yields_intros]:
  "(\<And>a. x = Inl a \<Longrightarrow> yields P (f a)) \<Longrightarrow> (\<And>b. x = Inr b \<Longrightarrow> yields P (g b))
   \<Longrightarrow> yields P (case x of Inl a \<Rightarrow> f a | Inr b \<Rightarrow> g b)"
  by (cases x) simp_all

lemma yields_credential_error [yields_intros]:
  "(\<And>msg. yields P (f msg)) \<Longrightarrow> yields P m \<Longrightarrow> yields P n
   \<Longrightarrow> yields P (case x of CredentialValidationError msg \<Rightarrow> f msg
      | ClientIdValidationError \<Rightarrow> m | ClientSecretValidationError \<Rightarrow> n)"
  by (cases x) simp_all

lemma credentials_yield [yields_intros]: "yields (authenticated_as E rq) (request_credentials E rq)"
  unfolding request_credentials_def Let_def case_prod_beta
  by (intro yields_intros; force simp: authenticated_as_def presents_def act_simps split: sum.splits option.splits if_splits)

lemma wp_raise_oauth: "(\<And>e. X e ws) \<Longrightarrow> wp (raise_oauth e d u r) Q X ws"
  unfolding raise_oauth_def by (cases ws) (simp add: wp_simps split: sum.split)

text \<open>The request for a fresh access token.\<close>

definition refresh_request :: "settings \<Rightarrow> json \<Rightarrow> http_request" where
  "refresh_request S refresh_token =
     \<lparr> rq_uri = (case nonempty (oauth_refresh_uri (oauth S)) of
         None \<Rightarrow> oauth_token_uri (oauth S) | Some u \<Rightarrow> u),
       rq_auth = None,
       rq_data = [(''client_id'', JStr (oauth_client_id (oauth S))),
         (''client_secret'', JStr (oauth_client_secret (oauth S))),
         (''grant_type'', JStr (oauth_grant_type (oauth S))),
         (''refresh_token'', refresh_token)] \<rparr>"

section \<open>Steps that leave the table alone\<close>

lemma fetch_same_db [keeps_intros]: "effect_within same_db (fetch E F uri ep auth data)"
  using effect_fetch by (fastforce simp: effect_within_def extends_def same_db_def)

lemma handlers_same_db [keeps_intros]:
  "effect_within same_db (error_page S e d st ra)" "effect_within same_db (error_handler S x)"
  "effect_within same_db fallback_error_handler" "effect_within same_db (observe_token_grant_age E t)"
  unfolding error_page_def error_handler_def fallback_error_handler_def observe_token_grant_age_def Let_def
  by (intro keeps_intros)+

lemma frame_rule:
  assumes "effect_within (on_world same_db) m" and "D (db (fst ws))"
  shows "wp m (\<lambda>_ ws'. D (db (fst ws'))) (\<lambda>_ ws'. D (db (fst ws'))) ws"
  by (rule wp_mono [OF wp_effect_yields [OF assms(1), of "\<lambda>_. True"]])
    (use assms(2) in \<open>auto simp: yields_def on_world_def same_db_def\<close>)

lemma frame_yields_rule:
  assumes "effect_within (on_world same_db) m" and "yields P m" and "D (db (fst ws))"
  shows "wp m (\<lambda>a ws'. D (db (fst ws')) \<and> P a) (\<lambda>_ ws'. D (db (fst ws'))) ws"
  by (rule wp_mono [OF wp_effect_yields [OF assms(1,2)]])
    (use assms(3) in \<open>auto simp: on_world_def same_db_def\<close>)

text \<open>What a fetch for this bridge returns: an object of the provider's or an error of its own.\<close>

definition fetched :: "env \<Rightarrow> settings \<Rightarrow> http_request \<Rightarrow> json \<Rightarrow> bool" where
  "fetched E S rq v \<longleftrightarrow> is_obj v \<and> (\<exists>u. annotated u v \<and> (server_error_body u
     \<or> temporarily_unavailable_body u \<or> provider_answered E (fetch_cfg S) rq u))"

lemma fetch_yields:
  "yields (fetched E S \<lparr> rq_uri = uri, rq_auth = auth, rq_data = data \<rparr>) (fetch E (fetch_cfg S) uri ep auth data)"
  unfolding yields_def fetched_def by (intro allI impI) (rule wp_Inr [OF fetch_source_rule])

section \<open>The two ends of a refresh\<close>

lemma refresh_failed_post:
  assumes "ready (db w)"
  shows "wp (refresh_failed E S cid v oc) (\<lambda>_ _. False)
     (\<lambda>_ ws'. db (fst ws') = db w \<or> invalidate_refresh_token oc \<and> ready (db (fst ws'))
        \<and> grants (db (fst ws')) = (if grants (db w) (uuid_str cid) = None then grants (db w)
            else (grants (db w))(uuid_str cid \<mapsto> None))) (w, s)"
proof -
  define D where "D = (\<lambda>d. d = db w \<or> invalidate_refresh_token oc \<and> ready d
        \<and> grants d = (if grants (db w) (uuid_str cid) = None then grants (db w)
            else (grants (db w))(uuid_str cid \<mapsto> None)))"
  define e where "e = (case normalized_error oc of None \<Rightarrow> SERVER_ERROR | Some e \<Rightarrow> e)"
  define tail :: "web_response handler" where "tail =
      seqA (try_res (as_dict v)) (\<lambda>d.
      seqA (report (SpanEvent ''refresh_error'' (JObj (sanitize_for_logging d)))) (\<lambda>_.
      seqA (try_res (py_get v ''error_description'' JNull)) (\<lambda>description.
      seqA (try_res (py_get v ''error_uri'' JNull)) (\<lambda>uri.
      seqA (try_res (py_get v ''retry_after'' JNull)) (\<lambda>retry_after.
        raise_oauth e description uri retry_after)))))"
  have upd: "wp (update_token E (database S) cid None) (\<lambda>_ w'. D (db w')) (\<lambda>_ w'. D (db w')) w"
    if "invalidate_refresh_token oc"
    by (rule wp_mono [OF update_token_post [OF assms]]) (use that in \<open>auto simp: D_def\<close>)
  have tail: "wp tail (\<lambda>_ _. False) (\<lambda>_ ws'. D (db (fst ws'))) ws" if "D (db (fst ws))" for ws
  proof -
    have eff: "effect_within (on_world same_db) tail" unfolding tail_def by (intro keeps_intros)
    have "yields (\<lambda>_. False) (raise_oauth e d u r :: web_response handler)" for d u r
      by (intro yields_intros)
    then have "yields (\<lambda>_. False) tail" unfolding tail_def by (intro yields_seqA)
    from frame_yields_rule [of tail _ D, OF eff this that] show ?thesis by (rule wp_mono) auto
  qed
  have "D (db w)" by (simp add: D_def)
  then have "wp (refresh_failed E S cid v oc) (\<lambda>_ _. False) (\<lambda>_ ws'. D (db (fst ws'))) (w, s)"
    unfolding refresh_failed_def Let_def e_def [symmetric] tail_def [symmetric]
    using tail by (auto simp: wp_simps split: sum.split intro!: wp_mono [OF upd])
  then show ?thesis by (simp add: D_def)
qed

text \<open>An encryption of \<open>m\<close>, and a table in which it is the grant of \<open>c\<close>.\<close>

definition encrypts :: "env \<Rightarrow> string \<Rightarrow> json \<Rightarrow> string \<Rightarrow> bool" where
  "encrypts E key m t \<longleftrightarrow> ascii_ok key \<and> fernet_accepts E key
     \<and> (\<exists>n. t = fernet_encrypt E key n (utf8_encode (json_dumps m)))"

lemma dumps_encrypts: "crypto_dumps E key m w = (Inr t, w') \<Longrightarrow> encrypts E key m t"
  by (auto simp: encrypts_def crypto_dumps_def fernet_for_def act_simps split: if_splits)

lemma encrypts_loads:
  assumes "fernet_ok E" and "json_ok (float_repr E) m" and "encrypts E key m t"
    and "normalize_base64_padding key' = key"
  shows "crypto_loads E key' t = Inr m"
  using assms loads_encrypted [of E key' m] by (auto simp: encrypts_def)

definition stored_for :: "env \<Rightarrow> client_credentials \<Rightarrow> json \<Rightarrow> database \<Rightarrow> database \<Rightarrow> bool" where
  "stored_for E c m d d' \<longleftrightarrow> ready d' \<and> (if grants d (uuid_str (cc_client_id c)) = None then grants d' = grants d
     else \<exists>t. encrypts E (cc_client_secret c) m t \<and> grants d' = (grants d)(uuid_str (cc_client_id c) \<mapsto> Some t))"

lemma wp_self:
  "(\<And>a w'. m w = (Inr a, w') \<Longrightarrow> Q a w') \<Longrightarrow> (\<And>e w'. m w = (Inl e, w') \<Longrightarrow> X e w') \<Longrightarrow> wp m Q X w"
  by (auto simp: wp_def split: prod.split sum.split)

lemma store_post:
  assumes "ready (db u)" and "db u = db w"
  shows "wp (crypto_dumps E (cc_client_secret c) m)
     (\<lambda>t. wp (update_token E s (cc_client_id c) (Some t)) (\<lambda>_ w'. stored_for E c m (db w) (db w'))
        (\<lambda>_ w'. db w' = db w)) (\<lambda>_ w'. db w' = db w) u"
proof (rule wp_self)
  fix t w'
  assume d: "crypto_dumps E (cc_client_secret c) m u = (Inr t, w')"
  then have db: "db w' = db w"
    using effect_withinD [OF same_db_dumps d] assms(2) by (simp add: same_db_def)
  with assms have "ready (db w')" by simp
  from update_token_post [OF this]
  show "wp (update_token E s (cc_client_id c) (Some t)) (\<lambda>_ w'. stored_for E c m (db w) (db w'))
        (\<lambda>_ w'. db w' = db w) w'"
    by (rule wp_mono) (use dumps_encrypts [OF d] db in \<open>auto simp: stored_for_def split: if_splits\<close>)
next
  fix e w'
  assume "crypto_dumps E (cc_client_secret c) m u = (Inl e, w')"
  then show "db w' = db w"
    using effect_withinD [OF same_db_dumps] assms(2) by (simp add: same_db_def)
qed

text \<open>A refresh that succeeds: what is answered, and what is stored if the payload changed.\<close>

definition refreshed ::
    "env \<Rightarrow> client_credentials \<Rightarrow> json \<Rightarrow> json \<Rightarrow> web_response \<Rightarrow> database \<Rightarrow> database \<Rightarrow> bool" where
  "refreshed E c v rv r d d' \<longleftrightarrow> (\<exists>old new. v = JObj old \<and> rv = JObj new \<and> validate_token rv = Inr True
     \<and> r = jsonify (JObj (fst (merge_refresh old new)))
     \<and> (if py_eq v (JObj (snd (merge_refresh old new))) then d' = d
        else stored_for E c (JObj (snd (merge_refresh old new))) d d'))"

lemma seqA_try_res [simp]:
  "seqA (try_res (Inr a)) f = f a" "seqA (try_res (Inl e)) f = raiseA (Raised e)"
  by (simp_all add: fun_eq_iff seqA_run try_res_run raiseA_def split_paired_all)

lemma validate_token_Inr: "validate_token v = Inr b \<Longrightarrow> \<exists>d. v = JObj d"
  by (cases v) (auto simp: validate_token_def py_get_def)

lemma refresh_succeeded_post:
  assumes "ready (db w)"
  shows "wp (refresh_succeeded E S c rec v rv) (\<lambda>r ws'. refreshed E c v rv r (db w) (db (fst ws')))
     (\<lambda>_ ws'. db (fst ws') = db w) (w, s)"
proof (cases "validate_token rv")
  case (Inl e)
  then show ?thesis by (simp add: refresh_succeeded_def wp_simps)
next
  case (Inr b)
  then obtain new where rv: "rv = JObj new" using validate_token_Inr by blast
  show ?thesis
  proof (cases "b \<and> is_obj v")
    case False
    have "refresh_succeeded E S c rec v rv = raise_error INVALID_REQUEST ''Invalid response from provider.''
        \<or> refresh_succeeded E S c rec v rv = raiseA (Raised AttributeError)"
      using False Inr rv by (cases v; cases b) (simp_all add: refresh_succeeded_def as_dict_def)
    then show ?thesis by (auto simp: wp_simps intro!: wp_raise_oauth)
  next
    case True
    then obtain old where b: "validate_token (JObj new) = Inr True" and v: "v = JObj old"
      using Inr rv by (auto elim: is_objE)
    obtain answer modified where m: "merge_refresh old new = (answer, modified)" by fastforce
    define same where "same = py_eq (JObj old) (JObj modified)"
    have post: "refreshed E c v rv (jsonify (JObj answer)) d d' \<longleftrightarrow>
        (if same then d' = d else stored_for E c (JObj modified) d d')" for d d'
      using b by (simp add: refreshed_def v rv m same_def del: py_eq.simps)
    have store: "ready (db u) \<Longrightarrow> db u = db w \<Longrightarrow> wp (crypto_dumps E (cc_client_secret c) (JObj modified))
        (\<lambda>t. wp (update_token E (database S) (cc_client_id c) (Some t)) (\<lambda>_ w'. stored_for E c (JObj modified) (db w) (db w'))
        (\<lambda>_ w'. db w' = db w)) (\<lambda>_ w'. db w' = db w) u" for u
      by (rule store_post)
    define keep where "keep = (if \<not> same then
        let fields = JArr (map JStr (updated_fields old modified)) in
        seqA (report (LoggedWith LL_WARNING ''Updating token'' fields)) (\<lambda>_.
        seqA (report (SpanEvent ''Updating token'' fields)) (\<lambda>_.
        seqA (in_world (crypto_dumps E (cc_client_secret c) (JObj modified))) (\<lambda>token.
        seqA (in_world (update_token E (database S) (cc_client_id c) (Some token))) (\<lambda>_. returnA ()))))
      else returnA ())"
    have run: "refresh_succeeded E S c rec v rv = seqA keep (\<lambda>_.
        seqA (in_world (observe_token_grant_age E (tr_created_at rec))) (\<lambda>_. returnA (jsonify (JObj answer))))"
      using b by (simp add: refresh_succeeded_def v rv m keep_def same_def Let_def del: py_eq.simps)
    have "wp keep (\<lambda>_ ws'. if same then db (fst ws') = db w else stored_for E c (JObj modified) (db w) (db (fst ws')))
        (\<lambda>_ ws'. db (fst ws') = db w) (w, s)"
      unfolding keep_def Let_def
      by (cases same) (auto simp: wp_simps assms intro!: wp_mono [OF store] elim!: wp_mono)
    then show ?thesis
      unfolding run wp_seqA
      by (rule wp_mono) (auto simp: wp_simps post observe_token_grant_age_def split: option.split if_splits)
  qed
qed

section \<open>The whole view\<close>

text \<open>The two ways a token request changes the table, with their causes.\<close>

definition revoked ::
    "env \<Rightarrow> settings \<Rightarrow> client_credentials \<Rightarrow> json \<Rightarrow> database \<Rightarrow> database \<Rightarrow> bool" where
  "revoked E S c v d d' \<longleftrightarrow> ready d'
     \<and> grants d' = (if grants d (uuid_str (cc_client_id c)) = None then grants d
         else (grants d)(uuid_str (cc_client_id c) \<mapsto> None))
     \<and> (\<exists>t rd e. py_item v ''refresh_token'' = Inr t \<and> fetched E S (refresh_request S t) (JObj rd)
         \<and> map_of rd ''error'' = Some e \<and> means_invalid_grant (fetch_error_types (fetch_cfg S)) e)"

definition rotated ::
    "env \<Rightarrow> settings \<Rightarrow> client_credentials \<Rightarrow> json \<Rightarrow> web_response \<Rightarrow> database \<Rightarrow> database \<Rightarrow> bool" where
  "rotated E S c v r d d' \<longleftrightarrow> (\<exists>t rd. py_item v ''refresh_token'' = Inr t
     \<and> fetched E S (refresh_request S t) (JObj rd) \<and> \<not> dict_has rd ''error''
     \<and> refreshed E c v (JObj rd) r d d')"

lemma refresh_grant_post:
  assumes "ready (db w)"
  shows "wp (refresh_grant E S c rec v) (\<lambda>r ws'. rotated E S c v r (db w) (db (fst ws')))
     (\<lambda>_ ws'. db (fst ws') = db w \<or> revoked E S c v (db w) (db (fst ws'))) (w, s)"
proof (cases "py_item v ''refresh_token''")
  case (Inl e)
  then show ?thesis by (simp add: refresh_grant_def wp_simps)
next
  case (Inr t)
  let ?X = "\<lambda>_ ws'. db (fst ws') = db w \<or> revoked E S c v (db w) (db (fst ws'))"
  have after: "wp (seqA (try_res (py_in ''error'' rv)) (\<lambda>has_error.
     seqA (try_res (token_endpoint_outcome False (Some (if has_error then 400 else 200)) rv
        (fetch_retry_status_codes (fetch_cfg S)) (fetch_error_types (fetch_cfg S)))) (\<lambda>(_, outcome).
       if has_error then refresh_failed E S (cc_client_id c) rv outcome
       else refresh_succeeded E S c rec v rv))) (\<lambda>r ws'. rotated E S c v r (db w) (db (fst ws'))) ?X (u, s)"
    if fetched: "fetched E S (refresh_request S t) rv" and db: "db u = db w" for rv u
  proof -
    from fetched obtain rd where rv: "rv = JObj rd" by (auto simp: fetched_def elim: is_objE)
    have r: "ready (db u)" using assms db by simp
    have failed: "wp (refresh_failed E S (cc_client_id c) rv oc) (\<lambda>r ws'. rotated E S c v r (db w) (db (fst ws'))) ?X (u, s)"
      if "dict_has rd ''error''" and oc: "token_endpoint_outcome False (Some 400) rv
        (fetch_retry_status_codes (fetch_cfg S)) (fetch_error_types (fetch_cfg S)) = Inr (i, oc)" for i oc
    proof -
      have "invalidate_refresh_token oc \<Longrightarrow> \<exists>e. map_of rd ''error'' = Some e
          \<and> means_invalid_grant (fetch_error_types (fetch_cfg S)) e"
        using oc classify_invalidate [of "Some 400" rv _ _ oc]
        by (auto simp: rv token_endpoint_outcome_def bindR_eq_Inr)
      then show ?thesis
        by (intro wp_mono [OF refresh_failed_post [OF r]])
          (use db Inr fetched rv in \<open>auto simp: revoked_def\<close>)
    qed
    have succeeded: "wp (refresh_succeeded E S c rec v rv) (\<lambda>r ws'. rotated E S c v r (db w) (db (fst ws'))) ?X (u, s)"
      if "\<not> dict_has rd ''error''"
      by (rule wp_mono [OF refresh_succeeded_post [OF r]])
        (use that db Inr fetched rv in \<open>auto simp: rotated_def\<close>)
    show ?thesis
      using failed succeeded db unfolding rv
      by (auto simp: wp_simps split: sum.split)
  qed
  show ?thesis
    unfolding refresh_grant_def Inr seqA_try_res wp_seqA [of "in_world _"] wp_in_world split_conv
    by (rule wp_mono [OF wp_effect_yields [OF fetch_same_db fetch_yields]])
      (use after in \<open>auto simp: refresh_request_def same_db_def\<close>)
qed

text \<open>The ways a token request is answered with a token.\<close>

definition token_answered ::
    "env \<Rightarrow> settings \<Rightarrow> web_request \<Rightarrow> web_response \<Rightarrow> database \<Rightarrow> database \<Rightarrow> bool" where
  "token_answered E S rq r d d' \<longleftrightarrow> (\<exists>c g. authenticated_as E rq c
     \<and> grants d (uuid_str (cc_client_id c)) = Some g
     \<and> (nonempty g = None \<and> d' = d
          \<and> (\<exists>v. revoked_grant_workaround_response E S rq = Inr (Some v) \<and> r = jsonify v)
        \<or> (\<exists>enc v. g = Some enc \<and> crypto_loads E (cc_client_secret c) enc = Inr v
          \<and> (py_in ''refresh_token'' v = Inr False \<and> d' = d \<and> r = jsonify v
             \<or> rotated E S c v r d d'))))"

definition token_refused :: "env \<Rightarrow> settings \<Rightarrow> web_request \<Rightarrow> database \<Rightarrow> database \<Rightarrow> bool" where
  "token_refused E S rq d d' \<longleftrightarrow> d' = d \<or> (\<exists>c enc v. authenticated_as E rq c
     \<and> grants d (uuid_str (cc_client_id c)) = Some (Some enc)
     \<and> crypto_loads E (cc_client_secret c) enc = Inr v \<and> revoked E S c v d d')"

lemma lookup_same_db: "ready (db u) \<Longrightarrow> wp (lookup_grant E S cid)
     (\<lambda>r ws'. db (fst ws') = db u \<and> (\<exists>g. grants (db u) (uuid_str cid) = Some g
        \<and> tr_encrypted_token r = nonempty g)) (\<lambda>_ ws'. db (fst ws') = db u) (u, s)"
  unfolding lookup_grant_def wp_catchA wp_in_world
  by (auto simp: wp_simps intro!: wp_mono [OF lookup_token_post] wp_raise_oauth)

lemma nonempty_SomeD: "Some t = nonempty g \<Longrightarrow> g = Some t"
  by (auto simp: nonempty_def split: option.splits if_splits)

lemma revoked_grant_yields:
  "yields (\<lambda>r. \<exists>v. revoked_grant_workaround_response E S rq = Inr (Some v) \<and> r = jsonify v)
     (revoked_grant E S rq)"
  unfolding revoked_grant_def by (intro yields_intros) (auto simp: try_res_run split: sum.splits)

lemma decrypt_rule:
  "wp (decrypt_grant E c enc) (\<lambda>v ws'. ws' = ws \<and> crypto_loads E (cc_client_secret c) enc = Inr v)
     (\<lambda>_ ws'. db (fst ws') = db (fst ws)) ws"
  unfolding decrypt_grant_def by (auto simp: wp_simps split: sum.split intro!: wp_raise_oauth)

lemma token_post:
  assumes "ready (db w)"
  shows "wp (token E S rq) (\<lambda>r ws'. token_answered E S rq r (db w) (db (fst ws')))
     (\<lambda>_ ws'. token_refused E S rq (db w) (db (fst ws'))) (w, s)"
proof -
  let ?Q = "\<lambda>r ws'. token_answered E S rq r (db w) (db (fst ws'))"
  let ?X = "\<lambda>_ ws'. token_refused E S rq (db w) (db (fst ws'))"
  have same: "d = db w \<Longrightarrow> token_refused E S rq (db w) d" for d by (simp add: token_refused_def)
  have revoked: "wp (revoked_grant E S rq) ?Q ?X (u, s')"
    if "authenticated_as E rq c" "grants (db w) (uuid_str (cc_client_id c)) = Some g" "nonempty g = None"
      "db u = db w" for c g u s'
  proof -
    have "effect_within (on_world same_db) (revoked_grant E S rq)"
      unfolding revoked_grant_def by (intro keeps_intros)
    from wp_effect_yields [OF this revoked_grant_yields] show ?thesis
      by (rule wp_mono) (use that same in \<open>auto simp: token_answered_def on_world_def same_db_def\<close>)
  qed
  have valid: "wp (seqA (try_res (py_in ''refresh_token'' v)) (\<lambda>refreshable.
           if \<not> refreshable
           then seqA (in_world (observe_token_grant_age E (tr_created_at rec))) (\<lambda>_. returnA (jsonify v))
           else refresh_grant E S c rec v)) ?Q ?X (u, s')"
    if c: "authenticated_as E rq c" "grants (db w) (uuid_str (cc_client_id c)) = Some (Some enc)"
      "crypto_loads E (cc_client_secret c) enc = Inr v" and db: "db u = db w" for c enc v rec u s'
  proof -
    have r: "ready (db u)" using assms db by simp
    have refresh: "wp (refresh_grant E S c rec v) ?Q ?X (u, s')"
      by (rule wp_mono [OF refresh_grant_post [OF r]])
        (use c db in \<open>auto simp: token_answered_def token_refused_def\<close>)
    show ?thesis
      using c db refresh
      by (cases "py_in ''refresh_token'' v")
        (auto simp: wp_simps observe_token_grant_age_def token_answered_def token_refused_def split: option.split)
  qed
  have decrypt: "wp (seqA (decrypt_grant E c enc) (\<lambda>v. seqA (try_res (py_in ''refresh_token'' v)) (\<lambda>refreshable.
           if \<not> refreshable
           then seqA (in_world (observe_token_grant_age E (tr_created_at rec))) (\<lambda>_. returnA (jsonify v))
           else refresh_grant E S c rec v))) ?Q ?X (u, s')"
    if "authenticated_as E rq c" "grants (db w) (uuid_str (cc_client_id c)) = Some (Some enc)"
      "db u = db w" for c enc rec u s'
    unfolding wp_seqA [of "decrypt_grant E c enc"]
    by (rule wp_mono [OF decrypt_rule]) (use that same valid in auto)
  have lookup: "wp (seqA (lookup_grant E S (cc_client_id c)) (\<lambda>record. case tr_encrypted_token record of
       None \<Rightarrow> revoked_grant E S rq
     | Some enc \<Rightarrow> seqA (decrypt_grant E c enc) (\<lambda>v. seqA (try_res (py_in ''refresh_token'' v)) (\<lambda>refreshable.
           if \<not> refreshable
           then seqA (in_world (observe_token_grant_age E (tr_created_at record))) (\<lambda>_. returnA (jsonify v))
           else refresh_grant E S c record v)))) ?Q ?X (u, s')"
    if "authenticated_as E rq c" "db u = db w" for c u s'
    unfolding wp_seqA [of "lookup_grant E S _"]
    by (rule wp_mono [OF lookup_same_db])
      (use assms that same revoked decrypt in \<open>auto split: option.split dest!: nonempty_SomeD\<close>)
  show ?thesis
    unfolding token_def wp_seqA [of "request_credentials E rq"]
    by (rule wp_mono [OF wp_effect_yields [OF credentials_same_db credentials_yield]])
      (use lookup same in \<open>auto simp: on_world_def same_db_def\<close>)
qed

lemma handle_token_post:
  assumes "ready (db w)" and "handle E S R_Token rq (w, s) = (r, (w', s'))"
  shows "(\<exists>a. r = Inr (nocache a) \<and> token_answered E S rq a (db w) (db w'))
    \<or> token_refused E S rq (db w) (db w')"
proof -
  obtain v ws1 where v: "token E S rq (w\<lparr>ticks := Suc (ticks w)\<rparr>, s) = (v, ws1)"
    and db: "db w' = db (fst ws1)" and ok: "\<And>a. v = Inr a \<Longrightarrow> r = Inr (nocache a)"
    using assms(2) by (rule handle_decompose) (auto simp: idle_def)
  have "wp (token E S rq) (\<lambda>r ws'. token_answered E S rq r (db w) (db (fst ws')))
     (\<lambda>_ ws'. token_refused E S rq (db w) (db (fst ws'))) (w\<lparr>ticks := Suc (ticks w)\<rparr>, s)"
    using token_post [of "w\<lparr>ticks := Suc (ticks w)\<rparr>"] assms(1) by simp
  then show ?thesis using v db ok by (cases v) (auto simp: wp_def)
qed

text \<open>How the entry of a client can change.\<close>

lemma token_change:
  assumes "ready (db w)" and "handle E S R_Token rq (w, s) = (r, (w', s'))"
    and "grants (db w') i \<noteq> grants (db w) i"
  obtains c enc v where "authenticated_as E rq c" and "i = uuid_str (cc_client_id c)"
    and "grants (db w) i = Some (Some enc)" and "crypto_loads E (cc_client_secret c) enc = Inr v"
    and "revoked E S c v (db w) (db w') \<or> (\<exists>a. r = Inr (nocache a) \<and> rotated E S c v a (db w) (db w'))"
proof -
  have upd: "i = uuid_str (cc_client_id c)"
    if "revoked E S c v (db w) (db w') \<or> rotated E S c v a (db w) (db w')" for c v a
    using that assms(3)
    by (auto simp: revoked_def rotated_def refreshed_def stored_for_def fun_upd_def split: if_splits)
  from handle_token_post [OF assms(1,2)]
  have "\<exists>c enc v. authenticated_as E rq c \<and> grants (db w) (uuid_str (cc_client_id c)) = Some (Some enc)
      \<and> crypto_loads E (cc_client_secret c) enc = Inr v
      \<and> (revoked E S c v (db w) (db w') \<or> (\<exists>a. r = Inr (nocache a) \<and> rotated E S c v a (db w) (db w')))"
    (is "\<exists>c enc v. ?P c enc v")
  proof
    assume "\<exists>a. r = Inr (nocache a) \<and> token_answered E S rq a (db w) (db w')"
    then show ?thesis using assms(3) unfolding token_answered_def by metis
  next
    assume "token_refused E S rq (db w) (db w')"
    then show ?thesis using assms(3) unfolding token_refused_def by metis
  qed
  then obtain c enc v where "?P c enc v" by blast
  moreover from this have "i = uuid_str (cc_client_id c)" using upd by blast
  ultimately show thesis using that by metis
qed

section \<open>What a refresh keeps\<close>

lemma merge_refresh_facts:
  "merge_refresh old new = (answer, modified) \<Longrightarrow>
     \<not> dict_has answer ''refresh_token''
     \<and> map_of answer ''access_token'' = map_of new ''access_token''
     \<and> map_of modified ''refresh_token'' = (case map_of new ''refresh_token'' of
         None \<Rightarrow> map_of old ''refresh_token'' | Some t \<Rightarrow> Some t)
     \<and> \<not> dict_has modified ''access_token''"
  by (auto simp: merge_refresh_def Let_def scrub_refresh_token_def map_of_filter_keys dict_has_def
      update_conv split: option.splits if_splits)

lemma json_ok_filter: "json_ok fl (JObj d) \<Longrightarrow> json_ok fl (JObj (filter P d))"
  by (auto simp: list_all_iff)

lemma set_update_subset: "set (AList.update k v d) \<subseteq> insert (k, v) (set d)"
  by (induction d) auto

lemma json_ok_update:
  "json_ok fl (JObj d) \<Longrightarrow> json_ok fl v \<Longrightarrow> json_ok fl (JObj (AList.update k v d))"
  using set_update_subset [of k v d] by (fastforce simp: dict_ok_update list_all_iff)

lemma json_ok_item: "json_ok fl (JObj d) \<Longrightarrow> map_of d k = Some v \<Longrightarrow> json_ok fl v"
  by (auto simp: list_all_iff dest!: map_of_SomeD)

lemma merge_refresh_ok:
  assumes "json_ok fl (JObj old)" and "json_ok fl (JObj new)"
  shows "json_ok fl (JObj (snd (merge_refresh old new)))"
proof -
  have scrub: "json_ok fl (JObj (scrub_refresh_token old))"
    unfolding scrub_refresh_token_def by (rule json_ok_filter [OF assms(1)])
  have "json_ok fl t" if "map_of (if \<not> dict_has new ''scope'' then
      (case map_of old ''scope'' of None \<Rightarrow> new | Some s \<Rightarrow> AList.update ''scope'' s new) else new)
      ''refresh_token'' = Some t" for t
    using that json_ok_item [OF assms(2)] by (auto simp: update_conv split: if_splits option.splits)
  then show ?thesis
    using scrub json_ok_update unfolding merge_refresh_def Let_def
    by (auto split: option.split simp del: json_ok.simps)
qed

lemma validated_secret: "authenticated_as E rq c \<Longrightarrow> normalize_base64_padding (cc_client_secret c) = cc_client_secret c"
  by (auto simp: authenticated_as_def validate_credentials_Inr validate_key_Inr)

text \<open>The texts of the bridge's own errors are not configured to mean \<open>invalid_grant\<close>.\<close>

definition own_errors_ok :: "settings \<Rightarrow> bool" where
  "own_errors_ok S \<longleftrightarrow> map_of (fetch_error_types (fetch_cfg S)) ''server_error'' \<noteq> Some INVALID_GRANT
     \<and> map_of (fetch_error_types (fetch_cfg S)) ''temporarily_unavailable'' \<noteq> Some INVALID_GRANT"

lemma fetched_invalid_grant:
  assumes "own_errors_ok S" and "fetched E S rq (JObj rd)" and "map_of rd ''error'' = Some e"
    and "means_invalid_grant (fetch_error_types (fetch_cfg S)) e"
  obtains u where "provider_answered E (fetch_cfg S) rq (JObj u)" and "map_of u ''error'' = Some e"
proof -
  obtain u where u: "annotated u (JObj rd)" and src: "server_error_body u
     \<or> temporarily_unavailable_body u \<or> provider_answered E (fetch_cfg S) rq u"
    using assms(2) by (auto simp: fetched_def)
  obtain d where d: "u = JObj d" "map_of d ''error'' = Some e"
    using annotated_error [OF u] assms(3) by auto
  have "\<not> server_error_body u" "\<not> temporarily_unavailable_body u"
    using assms(1,4) d by (auto simp: server_error_body_def temporarily_unavailable_body_def
        means_invalid_grant_def own_errors_ok_def)
  with src d that show thesis by blast
qed

lemma fetched_token:
  assumes "fetched E S rq (JObj v)" and "\<not> dict_has v ''error''"
  shows "provider_answered E (fetch_cfg S) rq (JObj v)"
proof -
  obtain u where u: "annotated u (JObj v)" and src: "server_error_body u
     \<or> temporarily_unavailable_body u \<or> provider_answered E (fetch_cfg S) rq u"
    using assms(1) by (auto simp: fetched_def)
  have "u = JObj v" using u assms(2) by (auto simp: annotated_def dict_has_def update_conv)
  with src assms(2) show ?thesis
    by (auto simp: server_error_body_def temporarily_unavailable_body_def dict_has_def)
qed

section \<open>Properties\<close>

text \<open>
  C1. Only its owner changes a grant: if a token request changes the entry of a client in any way,
  it presented that client's id and a secret that decrypts the stored token; so requests without
  the secret neither revoke nor replace a grant, and no request makes a client unknown.
\<close>
theorem only_the_owner_changes_a_grant:
  assumes "ready (db w)" and "handle E S R_Token rq (w, s) = (r, (w', s'))"
    and "grants (db w') i \<noteq> grants (db w) i"
  shows "\<exists>cid secret c enc v. presents rq cid secret \<and> validate_credentials E cid secret = Inr c
    \<and> i = uuid_str (cc_client_id c) \<and> grants (db w) i = Some (Some enc)
    \<and> crypto_loads E (cc_client_secret c) enc = Inr v \<and> grants (db w') i \<noteq> None"
  using assms
proof (rule token_change)
  fix c enc v
  assume c: "authenticated_as E rq c" "i = uuid_str (cc_client_id c)"
    "grants (db w) i = Some (Some enc)" "crypto_loads E (cc_client_secret c) enc = Inr v"
    and "revoked E S c v (db w) (db w') \<or> (\<exists>a. r = Inr (nocache a) \<and> rotated E S c v a (db w) (db w'))"
  then have "grants (db w') i \<noteq> None"
    by (auto simp: revoked_def rotated_def refreshed_def stored_for_def split: if_splits)
  with c show ?thesis unfolding authenticated_as_def by blast
qed

text \<open>
  C2. A grant is revoked for one reason only: the provider itself answered the request with this
  client's decrypted refresh token by an error that means \<open>invalid_grant\<close>, with a status that is
  not retried.  Timeouts, connection failures, retried statuses, bodies that are not JSON, an empty
  retry budget and every other error leave the stored token in place.
\<close>
theorem revoked_only_by_invalid_grant:
  assumes "own_errors_ok S" and "ready (db w)"
    and "handle E S R_Token rq (w, s) = (r, (w', s'))"
    and "grants (db w) i = Some (Some enc)" and "grants (db w') i = Some None"
  shows "\<exists>c v t u e. authenticated_as E rq c \<and> i = uuid_str (cc_client_id c)
    \<and> crypto_loads E (cc_client_secret c) enc = Inr v \<and> py_item v ''refresh_token'' = Inr t
    \<and> provider_answered E (fetch_cfg S) (refresh_request S t) (JObj u)
    \<and> map_of u ''error'' = Some e \<and> means_invalid_grant (fetch_error_types (fetch_cfg S)) e"
proof -
  have "grants (db w') i \<noteq> grants (db w) i" using assms(4,5) by simp
  with assms(2,3) obtain c enc' v where c: "authenticated_as E rq c" "i = uuid_str (cc_client_id c)"
    and v: "grants (db w) i = Some (Some enc')" "crypto_loads E (cc_client_secret c) enc' = Inr v"
    and change: "revoked E S c v (db w) (db w') \<or> (\<exists>a. r = Inr (nocache a) \<and> rotated E S c v a (db w) (db w'))"
    by (rule token_change)
  have "revoked E S c v (db w) (db w')"
    using change assms(4,5) c(2)
    by (auto simp: rotated_def refreshed_def stored_for_def split: if_splits)
  then obtain t rd e where "py_item v ''refresh_token'' = Inr t"
    and rd: "fetched E S (refresh_request S t) (JObj rd)" "map_of rd ''error'' = Some e"
    and e: "means_invalid_grant (fetch_error_types (fetch_cfg S)) e"
    by (auto simp: revoked_def)
  moreover from fetched_invalid_grant [OF assms(1) rd e] obtain u where
    "provider_answered E (fetch_cfg S) (refresh_request S t) (JObj u)" "map_of u ''error'' = Some e" .
  moreover have "enc' = enc" using v(1) assms(4) by simp
  ultimately show ?thesis using c v(2) by blast
qed

text \<open>
  C10. Refresh token rotation loses nothing: when a token request replaces a stored grant by another
  one, the new grant decrypts with the same secret to a payload that holds the refresh token the
  provider has just issued, or the old one if it issued none, and no access token.
\<close>
theorem rotated_grant_is_usable:
  assumes "fernet_ok E" and "ready (db w)"
    and "handle E S R_Token rq (w, s) = (r, (w', s'))" and "authenticated_as E rq c"
    and "grants (db w) (uuid_str (cc_client_id c)) = Some (Some enc)"
    and "crypto_loads E (cc_client_secret c) enc = Inr (JObj old)" and "json_ok (float_repr E) (JObj old)"
    and "\<And>t v. provider_answered E (fetch_cfg S) (refresh_request S t) v \<Longrightarrow> json_ok (float_repr E) v"
    and "grants (db w') (uuid_str (cc_client_id c)) = Some (Some enc')" and "enc' \<noteq> enc"
  shows "\<exists>t new m. map_of old ''refresh_token'' = Some t \<and> provider_answered E (fetch_cfg S) (refresh_request S t) (JObj new)
    \<and> crypto_loads E (cc_client_secret c) enc' = Inr (JObj m)
    \<and> map_of m ''refresh_token'' = (case map_of new ''refresh_token'' of None \<Rightarrow> Some t | Some t' \<Rightarrow> Some t')
    \<and> \<not> dict_has m ''access_token''"
proof -
  let ?i = "uuid_str (cc_client_id c)"
  have "grants (db w') ?i \<noteq> grants (db w) ?i" using assms(5,9,10) by simp
  with assms(2,3) obtain c' enc'' v where c': "authenticated_as E rq c'"
    and v: "grants (db w) ?i = Some (Some enc'')" "crypto_loads E (cc_client_secret c') enc'' = Inr v"
    and change: "revoked E S c' v (db w) (db w') \<or> (\<exists>a. r = Inr (nocache a) \<and> rotated E S c' v a (db w) (db w'))"
    by (rule token_change)
  have c: "c' = c" "v = JObj old" using authenticated_unique [OF assms(4) c'] v assms(5,6) by auto
  have "\<not> revoked E S c v (db w) (db w')" using assms(5,9) by (auto simp: revoked_def)
  then obtain a t new where t: "map_of old ''refresh_token'' = Some t"
    and fetched: "fetched E S (refresh_request S t) (JObj new)" "\<not> dict_has new ''error''"
    and ref: "refreshed E c v (JObj new) a (db w) (db w')"
    using change c by (auto simp: rotated_def split: option.splits)
  note new = fetched_token [OF fetched]
  define m where "m = snd (merge_refresh old new)"
  have "stored_for E c (JObj m) (db w) (db w')"
    using ref assms(5,9,10) c by (auto simp: refreshed_def m_def split: if_splits)
  then have enc: "encrypts E (cc_client_secret c) (JObj m) enc'"
    using assms(5,9) by (auto simp: stored_for_def)
  have "json_ok (float_repr E) (JObj m)"
    unfolding m_def by (rule merge_refresh_ok [OF assms(7) assms(8) [OF new]])
  then have "crypto_loads E (cc_client_secret c) enc' = Inr (JObj m)"
    using encrypts_loads [OF assms(1) _ enc validated_secret [OF assms(4)]] by blast
  moreover have "map_of m ''refresh_token'' = (case map_of new ''refresh_token'' of None \<Rightarrow> Some t | Some t' \<Rightarrow> Some t')
      \<and> \<not> dict_has m ''access_token''"
    using merge_refresh_facts [of old new "fst (merge_refresh old new)" m] t
    by (auto simp: m_def split: option.split)
  ultimately show ?thesis using t new by blast
qed

end
