(* ===== verification/Token_Flow.thy ===== *)
theory Token_Flow
  imports Grant_Safety
begin

text \<open>
  What the bridge does when SQLite does not fail: the table operations return, so the token endpoint
  gives its clients the answers it is meant to give, and the grant that a callback stores can be
  used.  The last section holds the instances that show that the properties of \<open>Grant_Safety\<close>
  have content.
\<close>

section \<open>Table operations that return\<close>

abbreviation no_faults :: "env \<Rightarrow> bool" where
  "no_faults E \<equiv> faults_are E (\<lambda>_. False)"

lemma lookup_live:
  assumes "ready (db w)" and "no_faults E"
  shows "wp (lookup_token E s cid)
     (\<lambda>r w'. db w' = db w \<and> (\<exists>t. grants (db w) (uuid_str cid) = Some t \<and> tr_encrypted_token r = nonempty t))
     (\<lambda>e w'. db w' = db w \<and> e = LookupError \<and> grants (db w) (uuid_str cid) = None) w"
proof -
  let ?P = "\<lambda>row d. d = db w \<and> row = map_of (rows (db w)) (uuid_str cid)"
  have sel: "sql_select (uuid_str cid) (db w) = (Inr (map_of (rows (db w)) (uuid_str cid)), db w)"
    using assms(1) by (simp add: sql_select_def ready_def)
  have "wp (execute E (sql_select (uuid_str cid))) (\<lambda>a v'. ?P a (db v')) (\<lambda>_ v'. False \<and> (False \<or> db v' = db w)) v"
    if "db v = db w" for v
    using execute_rule [of "sql_select (uuid_str cid)" v ?P "\<lambda>_. False" False E] sel that assms(2) by simp
  from cursor_rule [OF this assms(2)]
  have "wp (cursor E s ''lookup_token'' False True (execute E (sql_select (uuid_str cid))))
      (\<lambda>a w'. ?P a (db w')) (\<lambda>_ _. False) w"
    by simp
  then show ?thesis
    unfolding lookup_token_def wp_seqA
    by (rule wp_mono) (auto simp: wp_simps grants_def nonempty_def split: option.split)
qed

lemma insert_live:
  assumes "ready (db w)" and "no_faults E" and "ascii_ok tok"
  shows "wp (insert_token E s cid tok)
     (\<lambda>_ w'. grants (db w) (uuid_str cid) = None \<and> ready (db w')
        \<and> grants (db w') = (grants (db w))(uuid_str cid \<mapsto> Some tok))
     (\<lambda>e w'. e = IntegrityError \<and> grants (db w) (uuid_str cid) \<noteq> None \<and> db w' = db w) w"
proof -
  let ?P = "\<lambda>_ d. grants (db w) (uuid_str cid) = None \<and> ready d
      \<and> grants d = (grants (db w))(uuid_str cid \<mapsto> Some tok)"
  let ?Y = "\<lambda>e. e = IntegrityError \<and> grants (db w) (uuid_str cid) \<noteq> None"
  let ?row = "\<lambda>now. \<lparr> row_token = Some tok, row_created_at = prepare_timestamp (Some now),
        row_last_updated_at = prepare_timestamp (Some now) \<rparr>"
  have faults: "faults_are E ?Y" using assms(2) by (simp add: faults_are_def)
  have ins: "?P a d" if "sql_insert (uuid_str cid) (?row now) (db w) = (Inr a, d)" for a d now
    using that table_store.usable_ins [OF assms(1), of "uuid_str cid" "?row now"]
      table_store.ins_new [OF assms(1), of "uuid_str cid" "?row now"]
      table_store.ins_taken [OF assms(1), of "uuid_str cid" "?row now"]
    by (cases "grants (db w) (uuid_str cid)") auto
  have taken: "?Y e" if "sql_insert (uuid_str cid) (?row now) (db w) = (Inl e, d)" for e d now
    using that table_store.ins_new [OF assms(1), of "uuid_str cid" "?row now"]
      table_store.ins_taken [OF assms(1), of "uuid_str cid" "?row now"]
    by (cases "grants (db w) (uuid_str cid)") auto
  let ?body = "\<lambda>now. seqA (liftA (prepare_token (Some tok))) (\<lambda>t. execute E (sql_insert (uuid_str cid)
      \<lparr> row_token = t, row_created_at = prepare_timestamp (Some now),
        row_last_updated_at = prepare_timestamp (Some now) \<rparr>))"
  have body: "wp (?body now) (\<lambda>a v'. ?P a (db v')) (\<lambda>e v'. ?Y e \<and> (True \<or> db v' = db w)) v"
    if "db v = db w" for now v
    using execute_rule [of "sql_insert (uuid_str cid) (?row now)" v ?P ?Y True E] ins taken that faults assms(3)
    by (simp add: prepare_token_def wp_simps)
  have "wp (cursor E s ''insert_token'' True True (?body now))
      (\<lambda>a w'. ?P a (db w')) (\<lambda>e w'. ?Y e \<and> db w' = db w) v" if "db v = db w" for now v
    using that cursor_rule [of v "?body now" ?P ?Y True E s "''insert_token''" True] body faults by simp
  then show ?thesis
    unfolding insert_token_def wp_seqA by (auto simp: wp_simps elim!: wp_mono)
qed

lemma update_live:
  assumes "ready (db w)" and "no_faults E" and "case tok of None \<Rightarrow> True | Some t \<Rightarrow> ascii_ok t"
  shows "wp (update_token E s cid tok)
     (\<lambda>n w'. ready (db w') \<and> grants (db w') = (if grants (db w) (uuid_str cid) = None then grants (db w)
        else (grants (db w))(uuid_str cid \<mapsto> tok))) (\<lambda>_ _. False) w"
proof -
  let ?P = "\<lambda>_ d. ready d \<and> grants d = (if grants (db w) (uuid_str cid) = None then grants (db w)
        else (grants (db w))(uuid_str cid \<mapsto> tok))"
  have p: "prepare_token tok = Inr tok" using assms(3) by (cases tok) (auto simp: prepare_token_def)
  have upd: "\<exists>n. fst (sql_update (uuid_str cid) tok now (db w)) = Inr n" "?P n (snd (sql_update (uuid_str cid) tok now (db w)))" for n now
    using table_store.usable_upd [OF assms(1), of "uuid_str cid" tok now]
      table_store.upd_known [OF assms(1), of "uuid_str cid" tok now]
      table_store.upd_unknown [OF assms(1), of "uuid_str cid" tok now]
    by (cases "grants (db w) (uuid_str cid)"; auto)+
  have exec: "wp (execute E (sql_update (uuid_str cid) tok now))
      (\<lambda>a v'. ?P a (db v')) (\<lambda>e v'. False \<and> (True \<or> db v' = db v)) v" if "db v = db w" for now v
  proof (rule execute_rule [OF _ _ assms(2)])
    fix a d assume "sql_update (uuid_str cid) tok now (db v) = (Inr a, d)"
    then show "?P a d" using upd(2) [of now] that by (metis snd_conv)
  next
    fix e d assume "sql_update (uuid_str cid) tok now (db v) = (Inl e, d)"
    then show "False \<and> (True \<or> d = db v)" using upd(1) [of now] that by (metis fst_conv sum.distinct(1))
  qed
  let ?body = "\<lambda>now. seqA (liftA (prepare_token tok)) (\<lambda>t. execute E
      (sql_update (uuid_str cid) t (prepare_timestamp (Some now))))"
  have body: "wp (?body now) (\<lambda>a v'. ?P a (db v')) (\<lambda>e v'. False \<and> (True \<or> db v' = db w)) v"
    if "db v = db w" for now v
    using exec [OF that, of "prepare_timestamp (Some now)"] by (simp add: p wp_simps)
  have cur: "wp (cursor E s ''update_token'' True True (?body now)) (\<lambda>a w'. ?P a (db w')) (\<lambda>_ _. False) v"
    if "db v = db w" for now v
    using that cursor_rule [of v "?body now" ?P "\<lambda>_. False" True E s "''update_token''" True] body assms(2) by simp
  show ?thesis
    unfolding update_token_def wp_basic wp_seqA wp_world wp_if
    by (rule wp_mono [OF cur]) auto
qed

section \<open>Requests with acceptable credentials\<close>

definition token_request_ok :: "env \<Rightarrow> web_request \<Rightarrow> client_credentials \<Rightarrow> bool" where
  "token_request_ok E rq c \<longleftrightarrow> map_of (wr_form rq) ''grant_type'' = Some ''client_credentials''
     \<and> \<not> dict_has (wr_form rq) ''scope'' \<and> authenticated_as E rq c
     \<and> (case wr_authorization rq of Inl e \<Rightarrow> e = ValueError | Inr None \<Rightarrow> True
        | Inr (Some a) \<Rightarrow> wa_type a = ''basic'' \<and> nonempty (map_of (wr_form rq) ''client_id'') = None
            \<and> nonempty (map_of (wr_form rq) ''client_secret'') = None)"

lemma credentials_run:
  assumes "token_request_ok E rq c"
  shows "request_credentials E rq (w, s) =
    (Inr c, (w\<lparr>trace := trace w @ [ClientIdSet (uuid_str (cc_client_id c))]\<rparr>, s))"
proof -
  have g: "map_of (wr_form rq) ''grant_type'' = Some ''client_credentials''" "\<not> dict_has (wr_form rq) ''scope''"
    and auth: "authenticated_as E rq c"
    using assms by (simp_all add: token_request_ok_def)
  show ?thesis
  proof (cases "wr_authorization rq")
    case (Inl e)
    have "e = ValueError" using assms Inl by (simp add: token_request_ok_def)
    moreover have "validate_credentials E (map_of (wr_form rq) ''client_id'') (map_of (wr_form rq) ''client_secret'') = Inr c"
      using auth Inl by (auto simp: authenticated_as_def presents_def)
    ultimately show ?thesis by (simp add: request_credentials_def Let_def g Inl act_simps)
  next
    case (Inr o')
    show ?thesis
    proof (cases o')
      case None
      have "validate_credentials E (map_of (wr_form rq) ''client_id'') (map_of (wr_form rq) ''client_secret'') = Inr c"
        using auth Inr None by (auto simp: authenticated_as_def presents_def)
      then show ?thesis by (simp add: request_credentials_def Let_def g Inr None act_simps)
    next
      case (Some a)
      have "validate_credentials E (wa_username a) (wa_password a) = Inr c"
        using auth Inr Some by (auto simp: authenticated_as_def presents_def)
      then show ?thesis
        using assms Inr Some by (simp add: token_request_ok_def request_credentials_def Let_def act_simps)
    qed
  qed
qed

lemma request_ok_authenticated: "token_request_ok E rq c \<Longrightarrow> authenticated_as E rq c"
  by (simp add: token_request_ok_def)

text \<open>What \<open>token\<close> does with the record it has looked up.\<close>

abbreviation serve_grant ::
    "env \<Rightarrow> settings \<Rightarrow> web_request \<Rightarrow> client_credentials \<Rightarrow> token_record \<Rightarrow> web_response handler" where
  "serve_grant E S rq c record \<equiv> (case tr_encrypted_token record of
       None \<Rightarrow> revoked_grant E S rq
     | Some encrypted \<Rightarrow>
         seqA (decrypt_grant E c encrypted) (\<lambda>result.
         seqA (try_res (py_in ''refresh_token'' result)) (\<lambda>refreshable.
           if \<not> refreshable
           then seqA (in_world (observe_token_grant_age E (tr_created_at record))) (\<lambda>_. returnA (jsonify result))
           else refresh_grant E S c record result)))"

lemma token_run_rule:
  assumes "token_request_ok E rq c"
    and "\<And>u. db u = db w \<Longrightarrow> wp (seqA (lookup_grant E S (cc_client_id c)) (serve_grant E S rq c)) Q X (u, s)"
  shows "wp (token E S rq) Q X (w, s)"
  unfolding token_def wp_seqA [of "request_credentials E rq"]
  using assms(2) by (simp add: wp_def [of "request_credentials E rq"] credentials_run [OF assms(1)])

text \<open>The answer to a raised error, as the request cycle gives it.\<close>

lemma handle_raised:
  assumes "wp (view E S route rq) (\<lambda>_ _. False) (\<lambda>e ws'. e = Oauth x \<and> D (db (fst ws'))) (w\<lparr>ticks := Suc (ticks w)\<rparr>, s)"
    and "\<And>u. fst (error_handler S x u) = Inr a"
  shows "fst (handle E S route rq (w, s)) = Inr (nocache a) \<and> D (db (fst (snd (handle E S route rq (w, s)))))"
proof -
  let ?h = "handle E S route rq (w, s)"
  have "?h = (fst ?h, snd ?h)" by simp
  then obtain v ws1 where v: "view E S route rq (w\<lparr>ticks := Suc (ticks w)\<rparr>, s) = (v, ws1)"
    and idle: "idle (fst ws1) (fst (snd ?h))"
    and fail: "\<And>e. v = Inl e \<Longrightarrow> \<exists>a. fst (handle_exception S e ws1) = Inr a \<and> fst ?h = Inr (nocache a)"
    by (rule handle_decompose) auto
  have vx: "v = Inl (Oauth x)" and D: "D (db (fst ws1))"
    using assms(1) v by (auto simp: wp_def split: sum.splits)
  have "fst (handle_exception S (Oauth x) ws1) = Inr a"
    using assms(2) [of "fst ws1"] by (cases ws1; cases "error_handler S x (fst ws1)")
      (auto simp: handle_exception_def act_simps)
  with fail [OF vx] idle D show ?thesis by (auto simp: idle_def)
qed

lemma handle_returned:
  assumes "wp (view E S route rq) (\<lambda>a ws'. Q a (db (fst ws'))) (\<lambda>_ _. False) (w\<lparr>ticks := Suc (ticks w)\<rparr>, s)"
  shows "\<exists>a w' s'. handle E S route rq (w, s) = (Inr (nocache a), (w', s')) \<and> Q a (db w')"
proof -
  let ?h = "handle E S route rq (w, s)"
  have "?h = (fst ?h, snd ?h)" by simp
  then obtain v ws1 where v: "view E S route rq (w\<lparr>ticks := Suc (ticks w)\<rparr>, s) = (v, ws1)"
    and idle: "idle (fst ws1) (fst (snd ?h))"
    and ok: "\<And>a. v = Inr a \<Longrightarrow> fst ?h = Inr (nocache a)"
    by (rule handle_decompose) auto
  obtain a where a: "v = Inr a" "Q a (db (fst ws1))"
    using assms v by (auto simp: wp_def split: sum.splits)
  with ok idle have "?h = (Inr (nocache a), (fst (snd ?h), snd (snd ?h)))" "Q a (db (fst (snd ?h)))"
    by (auto simp: prod_eq_iff idle_def)
  then show ?thesis by blast
qed

section \<open>Properties\<close>

definition client_not_known :: "settings \<Rightarrow> web_response" where
  "client_not_known S = set_header ''WWW-Authenticate''
     (''Basic realm='' @ [CHR 0x22] @ bridge_auth_realm S @ [CHR 0x22])
     ((jsonify (JObj [(''error'', JStr ''invalid_client''), (''error_description'', JStr ''Client not known.'')]))
       \<lparr>rsp_status := 401\<rparr>)"

lemma client_not_known_raised:
  "wp (raise_error INVALID_CLIENT ''Client not known.'') Q X = X (Oauth \<lparr> oe_error = INVALID_CLIENT,
     oe_description = JStr ''Client not known.'', oe_uri = JNull, oe_retry_after = JNull \<rparr>)"
  by (simp add: raise_oauth_def or_description_def wp_simps fun_eq_iff)

abbreviation unknown_client :: web_exn where
  "unknown_client \<equiv> Oauth \<lparr> oe_error = INVALID_CLIENT, oe_description = JStr ''Client not known.'',
     oe_uri = JNull, oe_retry_after = JNull \<rparr>"

lemma lookup_grant_live:
  assumes "ready (db u)" and "no_faults E"
  shows "wp (lookup_grant E S cid)
     (\<lambda>r ws'. db (fst ws') = db u \<and> (\<exists>g. grants (db u) (uuid_str cid) = Some g \<and> tr_encrypted_token r = nonempty g))
     (\<lambda>e ws'. e = unknown_client \<and> db (fst ws') = db u \<and> grants (db u) (uuid_str cid) = None) (u, s)"
  unfolding lookup_grant_def wp_catchA wp_in_world
  by (auto simp: wp_simps client_not_known_raised intro!: wp_mono [OF lookup_live [OF assms]])

lemma crypto_loads_Inl: "crypto_loads E k t = Inl e \<Longrightarrow> e = InvalidToken \<or> e = ValueError"
  by (auto simp: crypto_loads_def json_loads_def Let_def split: sum.splits option.splits prod.splits if_splits)

lemma wrong_secret_run:
  assumes "no_faults E" and "ready (db w)" and "token_request_ok E rq c"
    and "grants (db w) (uuid_str (cc_client_id c)) = None
      \<or> (\<exists>enc e. grants (db w) (uuid_str (cc_client_id c)) = Some (Some enc) \<and> enc \<noteq> []
          \<and> crypto_loads E (cc_client_secret c) enc = Inl e)"
  shows "fst (handle E S R_Token rq (w, s)) = Inr (nocache (client_not_known S))
    \<and> db (fst (snd (handle E S R_Token rq (w, s)))) = db w"
proof (rule handle_raised [where D = "\<lambda>d. d = db w"])
  let ?x = "\<lparr> oe_error = INVALID_CLIENT, oe_description = JStr ''Client not known.'',
    oe_uri = JNull, oe_retry_after = JNull \<rparr>"
  let ?X = "\<lambda>e ws'. e = Oauth ?x \<and> db (fst ws') = db w"
  show "wp (view E S R_Token rq) (\<lambda>_ _. False) ?X (w\<lparr>ticks := Suc (ticks w)\<rparr>, s)"
    unfolding view.simps
  proof (rule token_run_rule [OF assms(3)])
    fix u :: world assume "db u = db (w\<lparr>ticks := Suc (ticks w)\<rparr>)"
    then have db: "db u = db w" and r: "ready (db u)" using assms(2) by simp_all
    have decrypt: "wp (seqA (decrypt_grant E c enc) f) (\<lambda>_ _. False) ?X ws"
      if "crypto_loads E (cc_client_secret c) enc = Inl e" "db (fst ws) = db w"
      for enc e ws and f :: "json \<Rightarrow> web_response handler"
      using that crypto_loads_Inl [OF that(1)]
      by (auto simp: decrypt_grant_def wp_simps client_not_known_raised)
    show "wp (seqA (lookup_grant E S (cc_client_id c)) (serve_grant E S rq c)) (\<lambda>_ _. False) ?X (u, s)"
      unfolding wp_seqA [of "lookup_grant E S _"]
      by (rule wp_mono [OF lookup_grant_live [OF r assms(1)]])
        (use assms(4) db decrypt in \<open>auto simp: nonempty_def split: option.split\<close>)
  qed
  show "fst (error_handler S ?x u) = Inr (client_not_known S)" for u
    by (simp add: error_handler_def client_not_known_def act_simps)
qed

text \<open>
  C14. A wrong secret looks like an unknown client: whether the client id is not stored at all or its
  stored token does not decrypt with the presented secret, the answer is the same response to the
  last header, and nothing is changed.
\<close>
theorem wrong_secret_looks_unknown:
  assumes "no_faults E" and "ready (db w)" and "token_request_ok E rq c"
    and "grants (db w) (uuid_str (cc_client_id c)) = None
      \<or> (\<exists>enc e. grants (db w) (uuid_str (cc_client_id c)) = Some (Some enc) \<and> enc \<noteq> []
          \<and> crypto_loads E (cc_client_secret c) enc = Inl e)"
  shows "fst (handle E S R_Token rq (w, s)) = Inr (nocache (client_not_known S))
    \<and> db (fst (snd (handle E S R_Token rq (w, s)))) = db w"
  using assms by (rule wrong_secret_run)

section \<open>From the callback to the token\<close>

text \<open>A page that shows credentials; the request that trades the code; what is kept of the answer.\<close>

definition shows_credentials :: "web_response \<Rightarrow> string \<Rightarrow> string \<Rightarrow> bool" where
  "shows_credentials r i k \<longleftrightarrow> (\<exists>t pg. rsp_body r = Page t pg \<and> pg_client_id pg = Some i \<and> pg_client_secret pg = Some k)"

definition code_request :: "settings \<Rightarrow> web_request \<Rightarrow> http_request" where
  "code_request S rq = \<lparr> rq_uri = oauth_token_uri (oauth S), rq_auth = None,
     rq_data = [(''client_id'', JStr (oauth_client_id (oauth S))),
       (''client_secret'', JStr (oauth_client_secret (oauth S))),
       (''code'', case map_of (wr_args rq) ''code'' of None \<Rightarrow> JNull | Some c \<Rightarrow> JStr c),
       (''grant_type'', JStr ''authorization_code''),
       (''redirect_uri'', JStr (oauth_redirect_uri (oauth S)))] \<rparr>"

definition kept_payload :: "json dict \<Rightarrow> json dict" where
  "kept_payload v = (if dict_has v ''refresh_token'' then scrub_refresh_token v else v)"

definition grant_added :: "env \<Rightarrow> json dict \<Rightarrow> string \<Rightarrow> string \<Rightarrow> database \<Rightarrow> database \<Rightarrow> bool" where
  "grant_added E v i k d d' \<longleftrightarrow> (\<exists>cid n enc. i = uuid_str cid \<and> k = fernet_generate E n
     \<and> encrypts E k (JObj (kept_payload v)) enc \<and> grants d i = None \<and> ready d'
     \<and> grants d' = (grants d)(i \<mapsto> Some enc))"

lemma shows_credentials_simps [simp]:
  "shows_credentials (nocache r) i k = shows_credentials r i k"
  "shows_credentials (set_header h x r) i k = shows_credentials r i k"
  "shows_credentials (r\<lparr>rsp_status := st\<rparr>) i k = shows_credentials r i k"
  by (simp_all add: shows_credentials_def nocache_def)

lemma shows_credentials_render:
  "shows_credentials (render S pg) i k \<longleftrightarrow> pg_client_id pg = Some i \<and> pg_client_secret pg = Some k"
  by (auto simp: shows_credentials_def render_def set_callback_security_headers_def Let_def split: option.split)

lemma error_page_no_credentials: "yields (\<lambda>r. \<forall>i k. \<not> shows_credentials r i k) (error_page S e d st ra)"
  unfolding error_page_def Let_def by (intro yields_intros) (auto simp: shows_credentials_render)

lemma error_page_rule:
  assumes "D (db w)"
  shows "wp (in_world (error_page S e d st ra)) (\<lambda>r ws'. (\<forall>i k. \<not> shows_credentials r i k) \<and> D (db (fst ws')))
     (\<lambda>_ ws'. D (db (fst ws'))) (w, s)"
  unfolding wp_in_world split_conv
  by (rule wp_mono [OF wp_effect_yields [OF handlers_same_db(1) error_page_no_credentials]])
    (use assms in \<open>auto simp: same_db_def\<close>)

text \<open>The table after a callback: as before unless credentials are shown, and then with their grant.\<close>

definition callback_effect ::
    "env \<Rightarrow> settings \<Rightarrow> web_request \<Rightarrow> web_response \<Rightarrow> database \<Rightarrow> database \<Rightarrow> bool" where
  "callback_effect E S rq r d d' \<longleftrightarrow> (d' = d \<and> (\<forall>i k. \<not> shows_credentials r i k))
     \<or> (\<exists>v i k. fetched E S (code_request S rq) (JObj v) \<and> \<not> dict_has v ''error''
         \<and> validate_token (JObj v) = Inr True \<and> grant_added E v i k d d'
         \<and> (\<forall>i' k'. shows_credentials r i' k' \<longleftrightarrow> i' = i \<and> k' = k))"

lemma store_token_post:
  assumes "ready (db w)" and "fetched E S (code_request S rq) (JObj v)" and "\<not> dict_has v ''error''"
    and "validate_token (JObj v) = Inr True"
  shows "wp (store_token E S (JObj v) st) (\<lambda>r ws'. callback_effect E S rq r (db w) (db (fst ws')))
     (\<lambda>_ ws'. db (fst ws') = db w) (w, s)"
proof -
  let ?Q = "\<lambda>r w'. callback_effect E S rq r (db w) (db w')"
  let ?m = "JObj (kept_payload v)"
  have page: "wp (error_page S e d st ra) ?Q (\<lambda>_ w'. db w' = db w) u" if "db u = db w" for u e d ra
    by (rule wp_mono [OF wp_effect_yields [OF handlers_same_db(1) error_page_no_credentials]])
      (use that in \<open>auto simp: same_db_def callback_effect_def\<close>)
  have db: "db u' = db u" if "crypto_dumps E k m u = (r, u')" for k m u r u'
    using effect_withinD [OF same_db_dumps that] by (simp add: same_db_def)
  have added: "callback_effect E S rq (render S \<lparr> pg_client_id = Some (uuid_str cid), pg_client_secret = Some (fernet_generate E n),
      pg_state = st, pg_error = None, pg_description = None \<rparr>) (db w) d"
    if "encrypts E (fernet_generate E n) ?m t" "grants (db w) (uuid_str cid) = None" "ready d"
      "grants d = (grants (db w))(uuid_str cid \<mapsto> Some t)" for cid n t d
  proof -
    have "grant_added E v (uuid_str cid) (fernet_generate E n) (db w) d"
      unfolding grant_added_def using that by blast
    then show ?thesis
      unfolding callback_effect_def shows_credentials_render using assms(2-4) by auto
  qed
  show ?thesis
    unfolding store_token_def as_dict_JObj seqA_try_res kept_payload_def [symmetric] Let_def
      generate_key_def generate_id_def
  proof (simp add: wp_simps, rule wp_self)
    fix t w1
    assume d: "crypto_dumps E (fernet_generate E (ticks w)) ?m (w\<lparr>ticks := Suc (ticks w)\<rparr>) = (Inr t, w1)"
    have w1: "db w1 = db w" using db [OF d] by simp
    let ?u = "w1\<lparr>ticks := Suc (ticks w1), trace := trace w1 @
      [ClientIdSet (uuid_str (random_uuid E (ticks w1))),
       LoggedWith LL_WARNING ''Inserting token'' (sorted_keys (kept_payload v)),
       SpanEvent ''Inserting token'' (sorted_keys (kept_payload v))]\<rparr>"
    have "ready (db ?u)" using assms(1) w1 by simp
    from insert_token_post [OF this, of E "database S" "random_uuid E (ticks w1)" t]
    show "wp (insert_token E (database S) (random_uuid E (ticks w1)) t)
       (\<lambda>a w'. callback_effect E S rq (render S \<lparr> pg_client_id = Some (uuid_str (random_uuid E (ticks w1))),
          pg_client_secret = Some (fernet_generate E (ticks w)), pg_state = st, pg_error = None,
          pg_description = None \<rparr>) (db w) (db w'))
       (\<lambda>e wa. (e = IntegrityError \<longrightarrow> wp (error_page S (Text ''integrity_error'')
            (Some ''Database integrity error.'') st JNull) ?Q (\<lambda>e w'. db w' = db w)
            (wa\<lparr>trace := trace wa @ [Logged LL_WARNING ''Could not get unique client id.'']\<rparr>))
          \<and> (e \<noteq> IntegrityError \<longrightarrow> db wa = db w)) ?u"
      by (rule wp_mono) (use w1 added [OF dumps_encrypts [OF d]] page in auto)
  next
    fix e w1
    assume "crypto_dumps E (fernet_generate E (ticks w)) ?m (w\<lparr>ticks := Suc (ticks w)\<rparr>) = (Inl e, w1)"
    then show "db w1 = db w" using db by fastforce
  qed
qed

lemma token_result_none:
  "token_result_error S (JObj v) = Inr None \<Longrightarrow> \<not> dict_has v ''error'' \<and> validate_token (JObj v) = Inr True"
  by (auto simp: token_result_error_def bindR_eq_Inr split: if_splits)

lemma exchange_post:
  assumes "ready (db w)"
  shows "wp (exchange_code E S rq st) (\<lambda>r ws'. callback_effect E S rq r (db w) (db (fst ws')))
     (\<lambda>_ ws'. db (fst ws') = db w) (w, s)"
proof -
  let ?Q = "\<lambda>r ws'. callback_effect E S rq r (db w) (db (fst ws'))"
  let ?X = "\<lambda>_ ws'. db (fst ws') = db w"
  have page: "wp (error_page S e d st ra) (\<lambda>a w'. callback_effect E S rq a (db w) (db w'))
      (\<lambda>_ w'. db w' = db w) u" if "db u = db w" for u e d ra
    by (rule wp_mono [OF wp_effect_yields [OF handlers_same_db(1) error_page_no_credentials]])
      (use that in \<open>auto simp: same_db_def callback_effect_def\<close>)
  have after: "wp (seqA (try_res (token_result_error S result)) (\<lambda>err.
       case err of
         None \<Rightarrow> store_token E S result st
       | Some (e, desc) \<Rightarrow>
           seqA (try_res (as_dict result)) (\<lambda>d.
           let sanitized_result = JObj (sanitize_for_logging d) in
           seqA (report (LoggedWith LL_WARNING ''Retrieving token failed'' sanitized_result)) (\<lambda>_.
           seqA (report (SpanEvent ''token_error'' sanitized_result)) (\<lambda>_.
           seqA (try_res (py_get result ''retry_after'' JNull)) (\<lambda>retry_after.
             in_world (error_page S e (Some desc) st retry_after))))))) ?Q ?X (u, s)"
    if f: "fetched E S (code_request S rq) result" and db: "db u = db w" for result u
  proof -
    obtain v where v: "result = JObj v" using f by (auto simp: fetched_def elim: is_objE)
    have r: "ready (db u)" using assms db by simp
    show ?thesis
    proof (cases "token_result_error S result")
      case (Inl e)
      then show ?thesis by (simp add: wp_simps db)
    next
      case (Inr err)
      show ?thesis
      proof (cases err)
        case None
        have ok: "\<not> dict_has v ''error''" "validate_token (JObj v) = Inr True"
          using token_result_none [of S v] Inr None v by auto
        have none: "token_result_error S (JObj v) = Inr None" using Inr None v by simp
        from store_token_post [OF r f [unfolded v] ok, of st s] show ?thesis
          unfolding v none seqA_try_res option.case db .
      next
        case (Some x)
        obtain e desc where x: "x = (e, desc)" by fastforce
        have some: "token_result_error S (JObj v) = Inr (Some (e, desc))" using Inr Some v x by simp
        show ?thesis
          unfolding v some seqA_try_res option.case as_dict_JObj py_obj Let_def split_conv
          by (simp add: wp_simps db page)
      qed
    qed
  qed
  show ?thesis
    unfolding exchange_code_def wp_seqA [of "in_world _"] wp_in_world split_conv
    by (rule wp_mono [OF wp_effect_yields [OF fetch_same_db fetch_yields]])
      (use after in \<open>auto simp: code_request_def same_db_def\<close>)
qed

lemma callback_post:
  assumes "ready (db w)"
  shows "wp (callback E S rq) (\<lambda>r ws'. callback_effect E S rq r (db w) (db (fst ws')))
     (\<lambda>_ ws'. db (fst ws') = db w) (w, s)"
proof -
  let ?Q = "\<lambda>r ws'. callback_effect E S rq r (db w) (db (fst ws'))"
  have refuse: "wp (refuse_callback S rq s e desc) ?Q (\<lambda>_ ws'. db (fst ws') = db w) (w, empty_session)" for e desc
    by (auto simp: wp_simps callback_effect_def same_db_def
        intro!: wp_mono [OF wp_effect_yields [OF handlers_same_db(1) error_page_no_credentials]])
  show ?thesis
    using exchange_post [OF assms, of E S rq "ses_client_state s" empty_session] refuse
    by (cases "callback_error S rq (ses_state s)")
      (simp_all add: wp_def [of "callback E S rq"] wp_def [of "exchange_code E S rq _"]
        wp_def [of "refuse_callback S rq s _ _"] callback_run split: option.split)
qed

lemma handle_callback_post:
  assumes "ready (db w)" and "handle E S R_Callback rq (w, s) = (Inr r, (w', s'))"
  shows "callback_effect E S rq r (db w) (db w')"
proof -
  obtain v ws1 where v: "callback E S rq (w\<lparr>ticks := Suc (ticks w)\<rparr>, s) = (v, ws1)"
    and tail: "db w' = db (fst ws1)" and ok: "\<And>a. v = Inr a \<Longrightarrow> r = nocache a"
    and fail: "\<And>e. v = Inl e \<Longrightarrow> \<exists>a. fst (handle_exception S e ws1) = Inr a \<and> r = nocache a"
    using assms(2) by (rule handle_decompose) (auto simp: idle_def)
  have post: "wp (callback E S rq) (\<lambda>r ws'. callback_effect E S rq r (db w) (db (fst ws')))
     (\<lambda>_ ws'. db (fst ws') = db w) (w\<lparr>ticks := Suc (ticks w)\<rparr>, s)"
    using callback_post [of "w\<lparr>ticks := Suc (ticks w)\<rparr>"] assms(1) by simp
  show ?thesis
  proof (cases v)
    case (Inl e)
    have "yields (\<lambda>a. \<forall>i k. \<not> shows_credentials a i k) fallback_error_handler"
      unfolding fallback_error_handler_def
      by (intro yields_intros) (simp add: shows_credentials_def jsonify_def)
    moreover have "yields (\<lambda>a. \<forall>i k. \<not> shows_credentials a i k) (error_handler S x)" for x
      unfolding error_handler_def Let_def
      by (rule yields_seqA, rule yields_seqA, rule yields_basic)
        (auto simp: act_simps shows_credentials_def jsonify_def split: if_splits prod.splits sum.splits)
    ultimately have "yields (\<lambda>a. \<forall>i k. \<not> shows_credentials a i k) (handle_exception S e)"
      unfolding handle_exception_def by (cases e) (auto intro: yields_intros)
    moreover obtain a where "fst (handle_exception S e ws1) = Inr a" "r = nocache a" using fail [OF Inl] by blast
    ultimately have "\<not> shows_credentials r i k" for i k
      by (metis prod.collapse shows_credentials_simps(1) yieldsD)
    moreover have "db w' = db w" using post v Inl tail by (simp add: wp_def)
    ultimately show ?thesis by (simp add: callback_effect_def)
  next
    case (Inr a)
    then show ?thesis using post v tail ok by (auto simp: wp_def callback_effect_def)
  qed
qed

text \<open>
  Fernet keys are 32 bytes in base64, and a Fernet token is a text in base64 too, never an empty one.
\<close>

definition fernet_shapes :: "env \<Rightarrow> bool" where
  "fernet_shapes E \<longleftrightarrow> (\<forall>n. length (fernet_generate E n) = 44 \<and> ascii_ok (fernet_generate E n))
     \<and> (\<forall>k n t. fernet_accepts E k \<longrightarrow> ascii_ok (fernet_encrypt E k n t) \<and> fernet_encrypt E k n t \<noteq> [])
     \<and> (\<forall>k. fernet_accepts E k \<longrightarrow> fernet_decrypt E k [] = None)"

lemma length_uuid_str [simp]: "length (uuid_str w) = 36"
  by (simp add: uuid_str_def Let_def)

lemma shown_credentials_valid:
  assumes "fernet_shapes E" and "encrypts E (fernet_generate E n) m enc"
  shows "validate_credentials E (Some (uuid_str cid)) (Some (fernet_generate E n))
    = Inr \<lparr> cc_client_id = cid, cc_client_secret = fernet_generate E n \<rparr>"
proof -
  have len: "length (fernet_generate E n) = 44" using assms(1) by (simp add: fernet_shapes_def)
  then have "normalize_base64_padding (fernet_generate E n) = fernet_generate E n" by simp
  moreover have "uuid_str cid \<noteq> x" if "length x \<noteq> 36" for x
    using that length_uuid_str by blast
  then have "uuid_str cid \<noteq> fernet_generate E n" "uuid_str cid \<noteq> []" using len by simp_all
  moreover have "fernet_generate E n \<noteq> []" using len by auto
  ultimately show ?thesis
    using assms(2) uuid_roundtrip
    by (simp add: validate_credentials_Inr validate_key_Inr validate_client_id_def encrypts_def)
qed

lemma token_request_accepted:
  assumes "validate_credentials E (Some i) (Some k) = Inr c"
  shows "token_request_ok E (token_request i k) c"
  using assms by (simp add: token_request_ok_def authenticated_as_def presents_def token_request_def)

lemma serve_plain_rule:
  assumes "ready (db u)" and "no_faults E"
    and "grants (db u) (uuid_str (cc_client_id c)) = Some (Some enc)" and "enc \<noteq> []"
    and "crypto_loads E (cc_client_secret c) enc = Inr v" and "py_in ''refresh_token'' v = Inr False"
  shows "wp (seqA (lookup_grant E S (cc_client_id c)) (serve_grant E S rq c))
    (\<lambda>a ws'. a = jsonify v \<and> db (fst ws') = db u) (\<lambda>_ _. False) (u, s)"
  unfolding wp_seqA [of "lookup_grant E S _"]
proof (rule wp_mono [OF lookup_grant_live [OF assms(1,2)]])
  fix r :: token_record and ws' :: "world \<times> web_session" assume "db (fst ws') = db u \<and> (\<exists>g. grants (db u) (uuid_str (cc_client_id c)) = Some g
      \<and> tr_encrypted_token r = nonempty g)"
  then have "db (fst ws') = db u" "tr_encrypted_token r = Some enc"
    using assms(3,4) by (auto simp: nonempty_def split: list.split)
  then show "wp (serve_grant E S rq c r) (\<lambda>a ws'. a = jsonify v \<and> db (fst ws') = db u) (\<lambda>_ _. False) ws'"
    using assms(5,6)
    by (cases ws') (simp add: decrypt_grant_def wp_simps observe_token_grant_age_def split: option.split)
qed (use assms(3) in auto)

text \<open>A request for a live grant without a refresh token is answered with the stored payload.\<close>

lemma plain_grant_served:
  assumes "no_faults E" and "token_request_ok E rq c" and "ready (db u)"
    and "grants (db u) (uuid_str (cc_client_id c)) = Some (Some enc)" and "enc \<noteq> []"
    and "crypto_loads E (cc_client_secret c) enc = Inr (JObj v)" and "\<not> dict_has v ''refresh_token''"
  shows "fst (handle E S R_Token rq (u, s)) = Inr (nocache (jsonify (JObj v)))"
proof -
  have "wp (token E S rq) (\<lambda>a ws'. a = jsonify (JObj v)) (\<lambda>_ _. False) (u\<lparr>ticks := Suc (ticks u)\<rparr>, s)"
  proof (rule token_run_rule [OF assms(2)])
    fix u' :: world assume "db u' = db (u\<lparr>ticks := Suc (ticks u)\<rparr>)"
    then have "ready (db u')" "grants (db u') (uuid_str (cc_client_id c)) = Some (Some enc)"
      using assms(3,4) by auto
    then have "wp (seqA (lookup_grant E S (cc_client_id c)) (serve_grant E S rq c))
        (\<lambda>a ws'. a = jsonify (JObj v) \<and> db (fst ws') = db u') (\<lambda>_ _. False) (u', s)"
      by (rule serve_plain_rule [OF _ assms(1) _ assms(5)]) (use assms(6,7) in simp_all)
    then show "wp (seqA (lookup_grant E S (cc_client_id c)) (serve_grant E S rq c))
        (\<lambda>a ws'. a = jsonify (JObj v)) (\<lambda>_ _. False) (u', s)"
      by (rule wp_mono) simp_all
  qed
  then show ?thesis
    using handle_returned [where Q = "\<lambda>a _. a = jsonify (JObj v)" and route = R_Token] by fastforce
qed

text \<open>
  C4. Login works end to end: the credentials on a callback page are new, valid, and open the grant
  that the callback has stored, which is the provider's answer to this very code.  If that answer
  has no refresh token, then from then on, as long as the entry of this client is unchanged, a token
  request with these credentials is answered by exactly the provider's token.
\<close>
theorem shown_credentials_give_the_token:
  assumes "fernet_ok E" and "fernet_shapes E" and "no_faults E" and "ready (db w)"
    and "handle E S R_Callback rq (w, s) = (Inr r, (w', s'))" and "shows_credentials r i k"
    and "\<And>v. provider_answered E (fetch_cfg S) (code_request S rq) v \<Longrightarrow> json_ok (float_repr E) v"
  shows "\<exists>v enc. provider_answered E (fetch_cfg S) (code_request S rq) (JObj v) \<and> grants (db w) i = None
    \<and> grants (db w') = (grants (db w))(i \<mapsto> Some enc)
    \<and> crypto_loads E k enc = Inr (JObj (kept_payload v))
    \<and> (\<forall>u s2. ready (db u) \<and> grants (db u) i = grants (db w') i \<and> \<not> dict_has v ''refresh_token''
        \<longrightarrow> fst (handle E S R_Token (token_request i k) (u, s2)) = Inr (nocache (jsonify (JObj v))))"
proof -
  have "callback_effect E S rq r (db w) (db w')" using assms(4,5) by (rule handle_callback_post)
  then obtain v where fetched: "fetched E S (code_request S rq) (JObj v)" "\<not> dict_has v ''error''"
    and "grant_added E v i k (db w) (db w')"
    using assms(6) by (auto simp: callback_effect_def)
  then obtain cid n enc where i: "i = uuid_str cid" and k: "k = fernet_generate E n"
    and enc: "encrypts E k (JObj (kept_payload v)) enc" and new: "grants (db w) i = None"
    and upd: "grants (db w') = (grants (db w))(i \<mapsto> Some enc)"
    by (auto simp: grant_added_def)
  note v = fetched_token [OF fetched]
  let ?c = "\<lparr> cc_client_id = cid, cc_client_secret = k \<rparr>"
  have norm: "normalize_base64_padding k = k" using assms(2) by (simp add: k fernet_shapes_def)
  have "json_ok (float_repr E) (JObj (kept_payload v))"
    using assms(7) [OF v] unfolding kept_payload_def scrub_refresh_token_def by (simp add: json_ok_filter del: json_ok.simps)
  then have loads: "crypto_loads E k enc = Inr (JObj (kept_payload v))"
    using encrypts_loads [OF assms(1) _ enc norm] by blast
  have "validate_credentials E (Some i) (Some k) = Inr ?c"
    using shown_credentials_valid [OF assms(2)] enc unfolding i k by blast
  then have ok: "token_request_ok E (token_request i k) ?c" by (rule token_request_accepted)
  have "enc \<noteq> []" using enc assms(2) by (auto simp: encrypts_def fernet_shapes_def)
  have "fst (handle E S R_Token (token_request i k) (u, s2)) = Inr (nocache (jsonify (JObj v)))"
    if "ready (db u)" "grants (db u) i = grants (db w') i" "\<not> dict_has v ''refresh_token''" for u s2
    by (rule plain_grant_served [OF assms(3) ok that(1) _ \<open>enc \<noteq> []\<close>])
      (use that upd i loads in \<open>simp_all add: kept_payload_def\<close>)
  then show ?thesis using v new upd loads by blast
qed

section \<open>An invalid grant\<close>

lemma serve_refresh_rule:
  assumes "ready (db u)" and "no_faults E"
    and "grants (db u) (uuid_str (cc_client_id c)) = Some (Some enc)" and "enc \<noteq> []"
    and "crypto_loads E (cc_client_secret c) enc = Inr (JObj old)" and "dict_has old ''refresh_token''"
    and "\<And>rec u'. db u' = db u \<Longrightarrow> wp (refresh_grant E S c rec (JObj old)) Q X (u', s)"
  shows "wp (seqA (lookup_grant E S (cc_client_id c)) (serve_grant E S rq c)) Q X (u, s)"
  unfolding wp_seqA [of "lookup_grant E S _"]
proof (rule wp_mono [OF wp_conj [OF lookup_grant_live [OF assms(1,2)]
        wp_effect_yields [of same_session _ "\<lambda>_. True"]]])
  show "effect_within same_session (lookup_grant E S (cc_client_id c))"
    unfolding lookup_grant_def by (intro keeps_intros)
next
  show "yields (\<lambda>_. True) (lookup_grant E S (cc_client_id c))" by (simp add: yields_def)
next
  fix r :: token_record and ws' :: "world \<times> web_session"
  assume a: "(db (fst ws') = db u \<and> (\<exists>g. grants (db u) (uuid_str (cc_client_id c)) = Some g
      \<and> tr_encrypted_token r = nonempty g)) \<and> same_session (u, s) ws' \<and> True"
  then have "tr_encrypted_token r = Some enc" "db (fst ws') = db u" "snd ws' = s"
    using assms(3,4) by (auto simp: nonempty_def same_session_def split: list.split)
  then show "wp (serve_grant E S rq c r) Q X ws'"
    using assms(5,6) assms(7) [of "fst ws'" r]
    by (cases ws') (simp add: decrypt_grant_def wp_simps)
qed (use assms(3) in auto)

text \<open>The error raised when the provider answered \<open>rd\<close>, and the revoked table.\<close>

definition refresh_error :: "json dict \<Rightarrow> oauth_exn" where
  "refresh_error rd = (let get = (\<lambda>k. case map_of rd k of None \<Rightarrow> JNull | Some y \<Rightarrow> y) in
     \<lparr> oe_error = INVALID_GRANT,
       oe_description = (case or_description (get ''error_description'') INVALID_GRANT of Inl _ \<Rightarrow> JNull | Inr d \<Rightarrow> d),
       oe_uri = get ''error_uri'', oe_retry_after = get ''retry_after'' \<rparr>)"

definition revoked_in :: "client_id \<Rightarrow> database \<Rightarrow> database \<Rightarrow> bool" where
  "revoked_in cid d d' \<longleftrightarrow> ready d' \<and> grants d' = (if grants d (uuid_str cid) = None then grants d
     else (grants d)(uuid_str cid \<mapsto> None))"

lemma refresh_failed_live:
  assumes "ready (db u)" and "no_faults E" and "invalidate_refresh_token oc"
    and "normalized_error oc = Some INVALID_GRANT"
  shows "wp (refresh_failed E S cid (JObj rd) oc) (\<lambda>_ _. False)
    (\<lambda>e ws'. e = Oauth (refresh_error rd) \<and> revoked_in cid (db u) (db (fst ws'))) (u, s)"
proof -
  have upd: "wp (update_token E (database S) cid None) (\<lambda>_ w'. revoked_in cid (db u) (db w')) (\<lambda>_ _. False) u"
    by (rule wp_mono [OF update_live [OF assms(1,2)]]) (auto simp: revoked_in_def)
  have "\<exists>d. or_description v INVALID_GRANT = Inr d" for v
    by (cases "truthy v") (simp_all add: or_description_def error_description_def)
  then show ?thesis
    unfolding refresh_failed_def Let_def
    by (auto simp: wp_simps assms(3,4) raise_oauth_def refresh_error_def split: sum.split
        intro!: wp_mono [OF upd]) (metis sum.distinct(1))+
qed

text \<open>A provider that answers a request with this body and a status that is not retried.\<close>

definition always_answers :: "env \<Rightarrow> fetch_settings \<Rightarrow> http_request \<Rightarrow> json dict \<Rightarrow> bool" where
  "always_answers E F rq rd \<longleftrightarrow> (\<forall>n t. \<exists>resp s. fst (upstream E n rq t) = Responded resp
     \<and> HTTPStatus (rs_status_code resp) = Inr s \<and> s \<notin> set (fetch_retry_status_codes F)
     \<and> rs_json resp = Some (JObj rd) \<and> rs_retry_after resp = None)"

lemma answered_fetch:
  assumes "always_answers E F \<lparr> rq_uri = uri, rq_auth = auth, rq_data = data \<rparr> rd" and "plain_object (JObj rd)"
    and "0 \<le> fetch_total_retries F" and "\<And>n. time_step E n < fetch_total_timeout F"
  shows "wp (fetch E F uri ep auth data) (\<lambda>r w'. r = JObj rd \<and> db w' = db w) (\<lambda>_ _. False) w"
proof -
  obtain resp s where "fst (upstream E (ticks w + 3) \<lparr> rq_uri = uri, rq_auth = auth, rq_data = data \<rparr>
        (min (fetch_timeout F) (fetch_total_timeout F - time_step E (ticks w + 2)))) = Responded resp"
    "HTTPStatus (rs_status_code resp) = Inr s" "s \<notin> set (fetch_retry_status_codes F)"
    "rs_json resp = Some (JObj rd)" "rs_retry_after resp = None"
    using assms(1) unfolding always_answers_def by blast
  from conclusive_run [OF assms(3,4) this(1-4) assms(2) this(5)]
  show ?thesis by (rule wp_mono) auto
qed

lemma invalid_grant_outcome:
  assumes "map_of rd ''error'' = Some (JStr e)" and "means_invalid_grant types (JStr e)" and "400 \<notin> set codes"
  obtains oc where "token_endpoint_outcome False (Some 400) (JObj rd) codes types = Inr (None, oc)"
    and "invalidate_refresh_token oc" and "normalized_error oc = Some INVALID_GRANT"
proof -
  have "normalize_error (JStr e) TOKEN_ERRORS SERVER_ERROR types = Inr INVALID_GRANT"
    using assms(2) by (auto simp: normalize_error_def means_invalid_grant_def TOKEN_ERRORS_def
        error_of_value_def all_errors_def)
  then have "token_endpoint_outcome False (Some 400) (JObj rd) codes types = Inr (None,
      \<lparr> retryable = False, normalized_error = Some INVALID_GRANT, invalidate_refresh_token = True,
        retry_reason_of = None \<rparr>)"
    using assms(1,3) by (simp add: token_endpoint_outcome_def classify_def is_success_def dict_has_def)
  then show thesis by (rule that) simp_all
qed

text \<open>The provider rejects the refresh token \<open>t\<close> with \<open>rd\<close>.\<close>

definition rejects :: "env \<Rightarrow> settings \<Rightarrow> json \<Rightarrow> json dict \<Rightarrow> bool" where
  "rejects E S t rd \<longleftrightarrow> always_answers E (fetch_cfg S) (refresh_request S t) rd
     \<and> (\<exists>e. map_of rd ''error'' = Some (JStr e) \<and> means_invalid_grant (fetch_error_types (fetch_cfg S)) (JStr e))
     \<and> 400 \<notin> set (fetch_retry_status_codes (fetch_cfg S)) \<and> 0 \<le> fetch_total_retries (fetch_cfg S)
     \<and> (\<forall>n. time_step E n < fetch_total_timeout (fetch_cfg S))"

lemma refresh_rejected:
  assumes "ready (db u)" and "no_faults E" and "rejects E S t rd" and "map_of old ''refresh_token'' = Some t"
  shows "wp (refresh_grant E S c rec (JObj old)) (\<lambda>_ _. False)
    (\<lambda>e ws'. e = Oauth (refresh_error rd) \<and> revoked_in (cc_client_id c) (db u) (db (fst ws'))) (u, s)"
proof -
  obtain e where e: "map_of rd ''error'' = Some (JStr e)"
      "means_invalid_grant (fetch_error_types (fetch_cfg S)) (JStr e)"
    and cfg: "400 \<notin> set (fetch_retry_status_codes (fetch_cfg S))" "0 \<le> fetch_total_retries (fetch_cfg S)"
      "\<And>n. time_step E n < fetch_total_timeout (fetch_cfg S)"
      "always_answers E (fetch_cfg S) (refresh_request S t) rd"
    using assms(3) by (auto simp: rejects_def)
  have plain: "plain_object (JObj rd)" using e(1) by (simp add: plain_object_def)
  obtain oc where oc: "token_endpoint_outcome False (Some 400) (JObj rd)
      (fetch_retry_status_codes (fetch_cfg S)) (fetch_error_types (fetch_cfg S)) = Inr (None, oc)"
    and inv: "invalidate_refresh_token oc" "normalized_error oc = Some INVALID_GRANT"
    using invalid_grant_outcome [OF e cfg(1)] .
  let ?X = "\<lambda>e ws'. e = Oauth (refresh_error rd) \<and> revoked_in (cc_client_id c) (db u) (db (fst ws'))"
  have item: "py_item (JObj old) ''refresh_token'' = Inr t" using assms(4) by (simp add: py_item_def)
  have err: "dict_has rd ''error''" using e(1) by (simp add: dict_has_def)
  have after: "wp (refresh_failed E S (cc_client_id c) (JObj rd) oc) (\<lambda>_ _. False) ?X (u', s)"
    if "db u' = db u" for u'
    using refresh_failed_live [of u' E oc S "cc_client_id c" rd s] assms(1,2) inv that by simp
  show ?thesis
    unfolding refresh_grant_def item seqA_try_res wp_seqA [of "in_world _"] wp_in_world split_conv
    by (rule wp_mono [OF answered_fetch [OF cfg(4) [unfolded refresh_request_def] plain cfg(2,3)]])
      (use after in \<open>auto simp: err oc\<close>)
qed

lemma invalid_grant_run:
  assumes "no_faults E" and "ready (db w)" and "token_request_ok E rq c"
    and "grants (db w) (uuid_str (cc_client_id c)) = Some (Some enc)" and "enc \<noteq> []"
    and "crypto_loads E (cc_client_secret c) enc = Inr (JObj old)"
    and "map_of old ''refresh_token'' = Some t" and "rejects E S t rd"
  shows "fst (handle E S R_Token rq (w, s)) = Inr (nocache ((jsonify (JObj
        ([(''error'', JStr ''invalid_grant''), (''error_description'', oe_description (refresh_error rd))]
         @ (if oe_uri (refresh_error rd) \<noteq> JNull then [(''error_uri'', oe_uri (refresh_error rd))] else []))))
          \<lparr>rsp_status := 400\<rparr>))
    \<and> revoked_in (cc_client_id c) (db w) (db (fst (snd (handle E S R_Token rq (w, s)))))"
proof (rule handle_raised [where x = "refresh_error rd"])
  let ?X = "\<lambda>e ws'. e = Oauth (refresh_error rd) \<and> revoked_in (cc_client_id c) (db w) (db (fst ws'))"
  have has: "dict_has old ''refresh_token''" using assms(7) by (simp add: dict_has_def)
  show "wp (view E S R_Token rq) (\<lambda>_ _. False) ?X (w\<lparr>ticks := Suc (ticks w)\<rparr>, s)"
    unfolding view.simps
  proof (rule token_run_rule [OF assms(3)], rule serve_refresh_rule [OF _ assms(1) _ assms(5,6) has])
    fix u u' :: world and rec
    assume "db u = db (w\<lparr>ticks := Suc (ticks w)\<rparr>)" "db u' = db u"
    then have "db u' = db w" by simp
    then show "wp (refresh_grant E S c rec (JObj old)) (\<lambda>_ _. False) ?X (u', s)"
      using refresh_rejected [of u' E S t rd old c rec s] assms(1,2,7,8) by simp
  qed (use assms(2,4) in simp_all)
  show "fst (error_handler S (refresh_error rd) u) = Inr ((jsonify (JObj
        ([(''error'', JStr ''invalid_grant''), (''error_description'', oe_description (refresh_error rd))]
         @ (if oe_uri (refresh_error rd) \<noteq> JNull then [(''error_uri'', oe_uri (refresh_error rd))] else []))))
          \<lparr>rsp_status := 400\<rparr>)" for u
    by (simp add: error_handler_def refresh_error_def Let_def act_simps)
qed


end
