(* ===== verification/Token_Liveness.thy ===== *)
theory Token_Liveness
  imports Token_Flow
begin

text \<open>
  The good case: a login that the provider accepts shows credentials, and a refresh that the provider
  accepts answers the fresh token.  The last section holds the concrete runs that show that the
  properties of \<open>Grant_Safety\<close> and \<open>Token_Flow\<close> have content.
\<close>

section \<open>A provider that grants a token\<close>

definition grants_token :: "env \<Rightarrow> settings \<Rightarrow> http_request \<Rightarrow> json dict \<Rightarrow> bool" where
  "grants_token E S rq rd \<longleftrightarrow> always_answers E (fetch_cfg S) rq rd \<and> \<not> dict_has rd ''error''
     \<and> validate_token (JObj rd) = Inr True \<and> 0 \<le> fetch_total_retries (fetch_cfg S)
     \<and> (\<forall>n. time_step E n < fetch_total_timeout (fetch_cfg S))"

lemma granting_fetch:
  assumes "grants_token E S \<lparr> rq_uri = uri, rq_auth = auth, rq_data = data \<rparr> rd"
  shows "wp (fetch E (fetch_cfg S) uri ep auth data) (\<lambda>r w'. r = JObj rd \<and> db w' = db w) (\<lambda>_ _. False) w"
proof (rule answered_fetch)
  show "plain_object (JObj rd)"
    using assms by (simp add: grants_token_def plain_object_def dict_has_def)
qed (use assms in \<open>auto simp: grants_token_def\<close>)

section \<open>Login\<close>

lemma dumps_live:
  assumes "ascii_ok key" and "fernet_accepts E key"
  shows "wp (crypto_dumps E key m) (\<lambda>t w'. encrypts E key m t \<and> db w' = db w) (\<lambda>_ _. False) w"
  using assms by (simp add: wp_def crypto_dumps_run encrypts_def) blast

lemma page_shows: "\<exists>i. Ex (shows_credentials (render S \<lparr> pg_client_id = Some a, pg_client_secret = Some b,
    pg_state = st, pg_error = e, pg_description = d \<rparr>) i)"
  using shows_credentials_render by fastforce

lemma store_token_live:
  assumes "ready (db w)" and "no_faults E" and "fernet_ok E" and "fernet_shapes E"
    and "\<And>n. grants (db w) (uuid_str (random_uuid E n)) = None"
  shows "wp (store_token E S (JObj v) st) (\<lambda>r ws'. \<exists>i k. shows_credentials r i k) (\<lambda>_ _. False) (w, s)"
proof -
  let ?k = "fernet_generate E (ticks w)"
  have key: "ascii_ok ?k" "fernet_accepts E ?k"
    using assms(3,4) by (auto simp: fernet_ok_def fernet_shapes_def)
  have insert: "wp (insert_token E (database S) (random_uuid E n) t)
      (\<lambda>_ _. True) (\<lambda>_ _. False) u"
    if "encrypts E ?k m t" "db u = db w" for t m u n
  proof (rule wp_mono [OF insert_live [OF _ assms(2)]])
    show "ascii_ok t" using that(1) assms(4) by (auto simp: encrypts_def fernet_shapes_def)
  qed (use assms(1,5) that(2) in auto)
  show ?thesis
    unfolding store_token_def as_dict_JObj seqA_try_res kept_payload_def [symmetric] Let_def
      generate_key_def generate_id_def
    by (simp add: wp_simps)
      (rule wp_mono [OF dumps_live [OF key]];
        auto simp: page_shows intro!: wp_mono [OF insert])
qed

lemma exchange_live:
  assumes "ready (db w)" and "no_faults E" and "fernet_ok E" and "fernet_shapes E"
    and "\<And>n. grants (db w) (uuid_str (random_uuid E n)) = None"
    and "grants_token E S (code_request S rq) v"
  shows "wp (exchange_code E S rq st) (\<lambda>r ws'. \<exists>i k. shows_credentials r i k) (\<lambda>_ _. False) (w, s)"
proof -
  have ok: "token_result_error S (JObj v) = Inr None"
    using assms(6) by (simp add: grants_token_def token_result_error_def)
  have store: "wp (store_token E S (JObj v) st) (\<lambda>r ws'. \<exists>i k. shows_credentials r i k) (\<lambda>_ _. False) (u, s)"
    if "db u = db w" for u
    using store_token_live [of u E S v st s] assms(1-5) that by simp
  show ?thesis
    unfolding exchange_code_def wp_seqA [of "in_world _"] wp_in_world split_conv
    by (rule wp_mono [OF granting_fetch [OF assms(6) [unfolded code_request_def]]])
      (use store in \<open>auto simp: ok\<close>)
qed

lemma login_run:
  assumes "ready (db w)" and "no_faults E" and "fernet_ok E" and "fernet_shapes E"
    and "\<And>n. grants (db w) (uuid_str (random_uuid E n)) = None"
    and "callback_accepted rq s" and "grants_token E S (code_request S rq) v"
  obtains r w' s' i k where "handle E S R_Callback rq (w, s) = (Inr r, (w', s'))" and "shows_credentials r i k"
proof -
  have "wp (view E S R_Callback rq) (\<lambda>a ws'. \<exists>i k. shows_credentials a i k) (\<lambda>_ _. False) (w\<lparr>ticks := Suc (ticks w)\<rparr>, s)"
    using exchange_live [of "w\<lparr>ticks := Suc (ticks w)\<rparr>" E S rq v "ses_client_state s" empty_session] assms
    by (simp add: wp_def callback_run callback_error_None [THEN iffD2])
  from handle_returned [where Q = "\<lambda>a _. \<exists>i k. shows_credentials a i k", OF this] show thesis
    by (auto intro: that)
qed

text \<open>
  C15. A login that the provider accepts succeeds: when the callback carries the session's state and
  a code, the provider grants a token for that code and the new client id is not taken, the page
  answered shows the user credentials.
\<close>
theorem accepted_login_shows_credentials:
  assumes "ready (db w)" and "no_faults E" and "fernet_ok E" and "fernet_shapes E"
    and "\<And>n. grants (db w) (uuid_str (random_uuid E n)) = None"
    and "callback_accepted rq s" and "grants_token E S (code_request S rq) v"
  shows "\<exists>r i k. fst (handle E S R_Callback rq (w, s)) = Inr r \<and> shows_credentials r i k"
  using login_run [OF assms] by (metis fst_conv)

section \<open>Refresh\<close>

definition refresh_answer :: "json dict \<Rightarrow> json dict \<Rightarrow> web_response" where
  "refresh_answer old rd = jsonify (JObj (fst (merge_refresh old rd)))"

definition kept_after :: "env \<Rightarrow> client_credentials \<Rightarrow> json dict \<Rightarrow> json dict \<Rightarrow> database \<Rightarrow> database \<Rightarrow> bool" where
  "kept_after E c old rd d d' \<longleftrightarrow> (if py_eq (JObj old) (JObj (snd (merge_refresh old rd))) then d' = d
     else stored_for E c (JObj (snd (merge_refresh old rd))) d d')"

lemma refresh_succeeded_live:
  assumes "ready (db w)" and "no_faults E" and "fernet_shapes E"
    and key: "ascii_ok (cc_client_secret c)" "fernet_accepts E (cc_client_secret c)"
    and "validate_token (JObj rd) = Inr True"
  shows "wp (refresh_succeeded E S c rec (JObj old) (JObj rd))
    (\<lambda>r ws'. r = refresh_answer old rd \<and> kept_after E c old rd (db w) (db (fst ws'))) (\<lambda>_ _. False) (w, s)"
proof -
  obtain answer modified where m: "merge_refresh old rd = (answer, modified)" by fastforce
  have update: "wp (update_token E (database S) (cc_client_id c) (Some t))
      (\<lambda>_ w'. stored_for E c (JObj modified) (db w) (db w')) (\<lambda>_ _. False) u"
    if "encrypts E (cc_client_secret c) (JObj modified) t" "db u = db w" for t u
  proof (rule wp_mono [OF update_live [OF _ assms(2)]])
    show "case Some t of None \<Rightarrow> True | Some t \<Rightarrow> ascii_ok t"
      using that(1) assms(3) by (auto simp: encrypts_def fernet_shapes_def)
  qed (use assms(1) that in \<open>auto simp: stored_for_def\<close>)
  show ?thesis
    unfolding refresh_succeeded_def assms(6) seqA_try_res as_dict_JObj m split_conv Let_def
      observe_token_grant_age_def
    by (cases "py_eq (JObj old) (JObj modified)"; simp add: wp_simps refresh_answer_def kept_after_def m
          del: py_eq.simps split: option.split)
      (auto intro!: wp_mono [OF dumps_live [OF key]] wp_mono [OF update])
qed

lemma refresh_granted:
  assumes "ready (db w)" and "no_faults E" and "fernet_shapes E"
    and "ascii_ok (cc_client_secret c)" "fernet_accepts E (cc_client_secret c)"
    and "map_of old ''refresh_token'' = Some t" and "grants_token E S (refresh_request S t) rd"
  shows "wp (refresh_grant E S c rec (JObj old))
    (\<lambda>r ws'. r = refresh_answer old rd \<and> kept_after E c old rd (db w) (db (fst ws'))) (\<lambda>_ _. False) (w, s)"
proof -
  let ?Q = "\<lambda>r ws'. r = refresh_answer old rd \<and> kept_after E c old rd (db w) (db (fst ws'))"
  have ok: "\<not> dict_has rd ''error''" "validate_token (JObj rd) = Inr True"
    using assms(7) by (auto simp: grants_token_def)
  have "plain_object (JObj rd)" using ok(1) by (simp add: plain_object_def dict_has_def)
  then obtain i oc where oc: "token_endpoint_outcome False (Some 200) (JObj rd)
      (fetch_retry_status_codes (fetch_cfg S)) (fetch_error_types (fetch_cfg S)) = Inr (i, oc)"
    using outcome_returns by blast
  have item: "py_item (JObj old) ''refresh_token'' = Inr t" using assms(6) by (simp add: py_item_def)
  have after: "wp (refresh_succeeded E S c rec (JObj old) (JObj rd)) ?Q (\<lambda>_ _. False) (u, s)"
    if "db u = db w" for u
    using refresh_succeeded_live [of u E c rd S rec old s] assms(1-5) ok that by simp
  show ?thesis
    unfolding refresh_grant_def item seqA_try_res wp_seqA [of "in_world _"] wp_in_world split_conv
    by (rule wp_mono [OF granting_fetch [OF assms(7) [unfolded refresh_request_def]]])
      (use after in \<open>auto simp: ok oc\<close>)
qed

lemma validated_key:
  "authenticated_as E rq c \<Longrightarrow> ascii_ok (cc_client_secret c) \<and> fernet_accepts E (cc_client_secret c)"
  by (auto simp: authenticated_as_def validate_credentials_Inr validate_key_Inr)

lemma refresh_run:
  assumes "no_faults E" and "fernet_shapes E" and "ready (db w)" and "token_request_ok E rq c"
    and "grants (db w) (uuid_str (cc_client_id c)) = Some (Some enc)" and "enc \<noteq> []"
    and "crypto_loads E (cc_client_secret c) enc = Inr (JObj old)"
    and "map_of old ''refresh_token'' = Some t" and "grants_token E S (refresh_request S t) rd"
  obtains w' s' where "handle E S R_Token rq (w, s) = (Inr (nocache (refresh_answer old rd)), (w', s'))"
    and "kept_after E c old rd (db w) (db w')"
proof -
  have key: "ascii_ok (cc_client_secret c)" "fernet_accepts E (cc_client_secret c)"
    using validated_key request_ok_authenticated [OF assms(4)] by blast+
  have has: "dict_has old ''refresh_token''" using assms(8) by (simp add: dict_has_def)
  let ?Q = "\<lambda>r d. r = refresh_answer old rd \<and> kept_after E c old rd (db w) d"
  have "wp (view E S R_Token rq) (\<lambda>a ws'. ?Q a (db (fst ws'))) (\<lambda>_ _. False) (w\<lparr>ticks := Suc (ticks w)\<rparr>, s)"
    unfolding view.simps
  proof (rule token_run_rule [OF assms(4)], rule serve_refresh_rule [OF _ assms(1) _ assms(6,7) has])
    fix u u' :: world and rec
    assume "db u = db (w\<lparr>ticks := Suc (ticks w)\<rparr>)" "db u' = db u"
    then have "db u' = db w" by simp
    then show "wp (refresh_grant E S c rec (JObj old)) (\<lambda>a ws'. ?Q a (db (fst ws'))) (\<lambda>_ _. False) (u', s)"
      using refresh_granted [of u' E c old t S rd rec s] assms(1-3,8,9) key by simp
  qed (use assms(3,5) in simp_all)
  from handle_returned [where Q = ?Q, OF this] show thesis by (auto intro: that)
qed


section \<open>A revoked grant\<close>

definition revoked_answer :: web_response where
  "revoked_answer = (jsonify (JObj [(''error'', JStr ''invalid_grant''),
     (''error_description'', JStr ''Grant has been revoked.'')]))\<lparr>rsp_status := 400\<rparr>"

text \<open>
  The entry of a revoked client holds nothing to decrypt, so its secret is not looked at: every
  well-formed secret gets this answer, and with it learns that the client id exists, unlike what
  \<open>wrong_secret_looks_unknown\<close> and the comment in \<open>views.token\<close> say of the others.
\<close>
lemma revoked_answer_for_any_secret:
  assumes "no_faults E" and "ready (db w)" and "token_request_ok E rq c"
    and "grants (db w) (uuid_str (cc_client_id c)) = Some None"
    and "revoked_grant_workaround_response E S rq = Inr None"
  shows "fst (handle E S R_Token rq (w, s)) = Inr (nocache revoked_answer)
    \<and> db (fst (snd (handle E S R_Token rq (w, s)))) = db w"
proof (rule handle_raised [where D = "\<lambda>d. d = db w"])
  let ?x = "\<lparr> oe_error = INVALID_GRANT, oe_description = JStr ''Grant has been revoked.'',
    oe_uri = JNull, oe_retry_after = JNull \<rparr>"
  let ?X = "\<lambda>e ws'. e = Oauth ?x \<and> db (fst ws') = db w"
  have raised: "wp (raise_error INVALID_GRANT ''Grant has been revoked.'') (\<lambda>_ _. False) ?X ws"
    if "db (fst ws) = db w" for ws :: "world \<times> web_session"
    using that by (cases ws) (simp add: raise_oauth_def or_description_def wp_simps)
  show "wp (view E S R_Token rq) (\<lambda>_ _. False) ?X (w\<lparr>ticks := Suc (ticks w)\<rparr>, s)"
    unfolding view.simps
  proof (rule token_run_rule [OF assms(3)])
    fix u :: world assume "db u = db (w\<lparr>ticks := Suc (ticks w)\<rparr>)"
    then have db: "db u = db w" and r: "ready (db u)" using assms(2) by simp_all
    show "wp (seqA (lookup_grant E S (cc_client_id c)) (serve_grant E S rq c)) (\<lambda>_ _. False) ?X (u, s)"
      unfolding wp_seqA [of "lookup_grant E S _"]
      by (rule wp_mono [OF lookup_grant_live [OF r assms(1)]])
        (use assms(4,5) db raised in \<open>auto simp: nonempty_def revoked_grant_def\<close>)
  qed
  show "fst (error_handler S ?x u) = Inr revoked_answer" for u
    by (simp add: error_handler_def revoked_answer_def act_simps)
qed

text \<open>
  A \<open>retry_after\<close> that the provider puts beside \<open>temporarily_unavailable\<close> is passed on to the error
  handler, which wants a number: a date ends in the fallback answer.
\<close>
lemma retry_after_date_raises:
  "fst (handle_exception S (Oauth \<lparr> oe_error = TEMPORARILY_UNAVAILABLE, oe_description = JStr ''down'',
     oe_uri = JNull, oe_retry_after = JStr ''Wed, 21 Oct 2026 07:28:00 GMT'' \<rparr>) ws)
   = fst (handle_exception S (Raised ValueError) ws)"
proof -
  have "py_int (JStr ''Wed, 21 Oct 2026 07:28:00 GMT'') = Inl ValueError" by code_simp
  then show ?thesis
    by (cases ws) (simp add: handle_exception_def error_handler_def fallback_error_handler_def act_simps
        split: sum.split)
qed

section \<open>Concrete runs\<close>

text \<open>
  A table with one grant, of client 7; a provider that always gives the same answer; and, as the
  grant, the payload \<open>login_grant\<close> that a login keeps.
\<close>

definition granted_world :: "json \<Rightarrow> world" where
  "granted_world v = fresh_world\<lparr>db := \<lparr> columns = Some token_columns, rows =
     [(uuid_str 7, \<lparr> row_token = Some (sample_encrypt sample_key 0 (utf8_encode (json_dumps v))),
        row_created_at = Some 0, row_last_updated_at = Some 0 \<rparr>)] \<rparr>\<rparr>"

definition login_grant :: "json dict" where
  "login_grant = [(''refresh_token'', JStr ''RT'')]"

definition invalid_grant_body :: "json dict" where
  "invalid_grant_body = [(''error'', JStr ''invalid_grant'')]"

definition plain_token :: "json dict" where
  "plain_token = [(''access_token'', JStr ''AT''), (''token_type'', JStr ''Bearer'')]"

definition rotating_token :: "json dict" where
  "rotating_token = plain_token @ [(''refresh_token'', JStr ''RT2'')]"

abbreviation seven :: client_credentials where
  "seven \<equiv> \<lparr> cc_client_id = 7, cc_client_secret = sample_key \<rparr>"

abbreviation seven_asks :: web_request where
  "seven_asks \<equiv> token_request (uuid_str 7) sample_key"

lemma steady_env_ok:
  "no_faults (steady_env st body)" "fernet_ok (steady_env st body)" "fernet_shapes (steady_env st body)"
proof -
  show "no_faults (steady_env st body)" by (simp add: faults_are_def steady_env_def sample_env_def)
  show "fernet_ok (steady_env st body)"
    using fernet_ok_sample by (simp add: fernet_ok_def steady_env_def)
  have "(65 + (of_char y :: nat) div 16) mod 256 < 128" for y :: char
  proof -
    have "(of_char y :: nat) < 256" by simp
    then have "(of_char y :: nat) div 16 < 16" by linarith
    then show ?thesis by simp
  qed
  then have "ascii_ok (to_letters s)" for s by (auto simp: ascii_ok_def to_letters_def Let_def)
  moreover have "ascii_ok sample_key" "sample_key \<noteq> []" by (auto simp: ascii_ok_def sample_key_def)
  moreover have "length sample_key = 44" by (simp add: sample_key_def)
  ultimately show "fernet_shapes (steady_env st body)"
    by (auto simp: fernet_shapes_def steady_env_def sample_env_def sample_cipher_defs ascii_ok_def sample_key_def)
qed

lemma ready_granted: "ready (db (granted_world v))"
  using ready_fresh by (simp add: granted_world_def fresh_world_def ready_def database_ok_def has_columns_def)

lemma grants_granted:
  "grants (db (granted_world v)) = [uuid_str 7 \<mapsto> Some (sample_encrypt sample_key 0 (utf8_encode (json_dumps v)))]"
  by (auto simp: granted_world_def grants_def fun_eq_iff)

lemma granted_loads:
  assumes "json_ok id v"
  shows "crypto_loads (steady_env st body) sample_key (sample_encrypt sample_key 0 (utf8_encode (json_dumps v))) = Inr v"
proof -
  have "normalize_base64_padding sample_key = sample_key" by (simp add: sample_key_def)
  moreover have "ascii_ok sample_key" by (auto simp: ascii_ok_def sample_key_def)
  ultimately show ?thesis
    using loads_encrypted [OF steady_env_ok(2), of sample_key st body v 0] assms
    by (simp add: steady_env_def sample_env_def sample_accepts_def)
qed

lemma seven_is_accepted: "token_request_ok (steady_env st body) seven_asks seven"
proof (rule token_request_accepted)
  have "encrypts (steady_env st body) (fernet_generate (steady_env st body) 0) m
      (fernet_encrypt (steady_env st body) sample_key 0 (utf8_encode (json_dumps m)))" for m
    using steady_env_ok(3) [of st body]
    by (auto simp: encrypts_def steady_env_def sample_env_def sample_cipher_defs fernet_shapes_def)
  from shown_credentials_valid [OF steady_env_ok(3) this]
  show "validate_credentials (steady_env st body) (Some (uuid_str 7)) (Some sample_key) = Inr seven"
    by (simp add: steady_env_def sample_env_def sample_generate_def)
qed

lemma steady_answers:
  assumes "HTTPStatus st = Inr n" and "n \<notin> set (fetch_retry_status_codes F)"
  shows "always_answers (steady_env st (JObj rd)) F rq rd"
  using assms by (auto simp: always_answers_def steady_env_def sample_env_def answering_def)

lemma sample_fetch_cfg: "fetch_cfg sample_settings = fetch_defaults"
  by (simp add: sample_settings_def settings_defaults_def)

lemma steady_rejects:
  assumes "HTTPStatus st = Inr n" and "n \<notin> set (fetch_retry_status_codes fetch_defaults)"
  shows "rejects (steady_env st (JObj invalid_grant_body)) sample_settings t invalid_grant_body"
  using steady_answers [OF assms]
  by (simp add: rejects_def sample_fetch_cfg invalid_grant_body_def means_invalid_grant_def
      steady_env_def sample_env_def fetch_defaults_def)

lemma steady_grants:
  assumes "\<not> dict_has rd ''error''" and "validate_token (JObj rd) = Inr True"
  shows "grants_token (steady_env 200 (JObj rd)) sample_settings rq rd"
proof -
  have "HTTPStatus 200 = Inr 200" by (simp add: HTTPStatus_def status_codes_def)
  from steady_answers [OF this, of fetch_defaults rd rq] show ?thesis
    using assms by (simp add: grants_token_def sample_fetch_cfg fetch_defaults_def steady_env_def sample_env_def)
qed

text \<open>The two refreshes the instances below rest on.\<close>

lemma login_grant_facts:
  "json_ok id (JObj login_grant)" "map_of login_grant ''refresh_token'' = Some (JStr ''RT'')"
  by (simp_all add: login_grant_def dict_ok_def)

lemma sample_encrypt_nonempty: "sample_encrypt sample_key n t \<noteq> []"
  by (simp add: sample_encrypt_def sample_key_def)

lemmas seven_run = steady_env_ok(1) ready_granted seven_is_accepted

definition login_text :: string where
  "login_text = sample_encrypt sample_key 0 (utf8_encode (json_dumps (JObj login_grant)))"

lemma seven_granted:
  "grants (db (granted_world (JObj login_grant))) (uuid_str (cc_client_id seven)) = Some (Some login_text)"
  "login_text \<noteq> []"
  "crypto_loads (steady_env st body) (cc_client_secret seven) login_text = Inr (JObj login_grant)"
  using granted_loads [OF login_grant_facts(1)]
  by (simp_all add: grants_granted login_text_def sample_encrypt_nonempty)

lemma revoking_run:
  assumes "HTTPStatus st = Inr n" and "n \<notin> set (fetch_retry_status_codes fetch_defaults)"
  obtains r w' s' where "handle (steady_env st (JObj invalid_grant_body)) sample_settings R_Token seven_asks
      (granted_world (JObj login_grant), empty_session) = (Inr r, (w', s'))"
    and "grants (db w') (uuid_str 7) = Some None"
proof -
  let ?h = "handle (steady_env st (JObj invalid_grant_body)) sample_settings R_Token seven_asks
      (granted_world (JObj login_grant), empty_session)"
  obtain a w' s' where h: "?h = (a, (w', s'))" by (metis prod.collapse)
  note run = invalid_grant_run [OF seven_run seven_granted login_grant_facts(2) steady_rejects [OF assms],
    of empty_session, unfolded h fst_conv snd_conv]
  have "grants (db w') (uuid_str 7) = Some None"
    using conjunct2 [OF run] by (simp add: revoked_in_def grants_granted)
  with h conjunct1 [OF run] that show thesis by blast
qed

lemma bad_request_sample:
  "HTTPStatus 400 = Inr 400" "400 \<notin> set (fetch_retry_status_codes fetch_defaults)"
  "HTTPStatus 401 = Inr 401" "401 \<notin> set (fetch_retry_status_codes fetch_defaults)"
  by (simp_all add: HTTPStatus_def status_codes_def fetch_defaults_def)

theorem only_the_owner_changes_a_grant_witness:
  "\<exists>cid secret c. presents seven_asks cid secret
     \<and> validate_credentials (steady_env 400 (JObj invalid_grant_body)) cid secret = Inr c
     \<and> uuid_str 7 = uuid_str (cc_client_id c)"
proof -
  obtain r w' s' where run: "handle (steady_env 400 (JObj invalid_grant_body)) sample_settings R_Token seven_asks
      (granted_world (JObj login_grant), empty_session) = (Inr r, (w', s'))"
    and "grants (db w') (uuid_str 7) = Some None"
    using revoking_run [OF bad_request_sample(1,2)] .
  then have "grants (db w') (uuid_str 7) \<noteq> grants (db (granted_world (JObj login_grant))) (uuid_str 7)"
    using seven_granted(1) by simp
  from only_the_owner_changes_a_grant [OF ready_granted run this] show ?thesis by blast
qed

lemma own_errors_sample: "own_errors_ok sample_settings"
  by (simp add: own_errors_ok_def sample_fetch_cfg fetch_defaults_def)

theorem revoked_only_by_invalid_grant_witness:
  "\<exists>t u. py_item (JObj login_grant) ''refresh_token'' = Inr t
     \<and> provider_answered (steady_env 400 (JObj invalid_grant_body)) fetch_defaults
         (refresh_request sample_settings t) (JObj u) \<and> dict_has u ''error''"
proof -
  let ?E = "steady_env 400 (JObj invalid_grant_body)"
  obtain r w' s' where run: "handle ?E sample_settings R_Token seven_asks
      (granted_world (JObj login_grant), empty_session) = (Inr r, (w', s'))"
    and gone: "grants (db w') (uuid_str 7) = Some None"
    using revoking_run [OF bad_request_sample(1,2)] .
  have stored: "grants (db (granted_world (JObj login_grant))) (uuid_str 7) = Some (Some login_text)"
    using seven_granted(1) by simp
  from revoked_only_by_invalid_grant [OF own_errors_sample ready_granted run stored gone]
  obtain c v t u e where c: "authenticated_as ?E seven_asks c" "crypto_loads ?E (cc_client_secret c) login_text = Inr v"
    and "py_item v ''refresh_token'' = Inr t" "map_of u ''error'' = Some e"
      "provider_answered ?E (fetch_cfg sample_settings) (refresh_request sample_settings t) (JObj u)"
    by blast
  moreover have "c = seven"
    using authenticated_unique [OF request_ok_authenticated [OF seven_is_accepted] c(1)] .
  ultimately show ?thesis
    using seven_granted(3) [of 400 "JObj invalid_grant_body"] by (auto simp: sample_fetch_cfg dict_has_def)
qed


theorem wrong_secret_looks_unknown_witness:
  "fst (handle (steady_env 400 (JObj invalid_grant_body)) sample_settings R_Token seven_asks
     (fresh_world, empty_session)) = Inr (nocache (client_not_known sample_settings))"
proof -
  have "grants (db fresh_world) (uuid_str (cc_client_id seven)) = None"
    by (simp add: fresh_world_def initial_world_def grants_def)
  then show ?thesis
    using wrong_secret_looks_unknown [OF steady_env_ok(1) ready_fresh seven_is_accepted] by blast
qed

lemma plain_token_facts:
  "\<not> dict_has plain_token ''error''" "validate_token (JObj plain_token) = Inr True"
  "\<not> dict_has plain_token ''refresh_token''" "json_ok id (JObj plain_token)"
  by (simp_all add: plain_token_def dict_has_def validate_token_obj dict_ok_def)

lemma rotating_token_facts:
  "\<not> dict_has rotating_token ''error''" "validate_token (JObj rotating_token) = Inr True"
  "json_ok id (JObj rotating_token)" "map_of rotating_token ''refresh_token'' = Some (JStr ''RT2'')"
  by (simp_all add: rotating_token_def plain_token_def dict_has_def validate_token_obj dict_ok_def)

lemma steady_provider_answered:
  "provider_answered (steady_env st body) F rq u \<Longrightarrow> u = body"
  by (auto simp: provider_answered_def steady_env_def sample_env_def answering_def decode_def)

abbreviation sample_callback :: web_request where
  "sample_callback \<equiv> query_request [(''state'', ''st''), (''code'', ''c'')]"

abbreviation sample_login :: web_session where
  "sample_login \<equiv> \<lparr> ses_client_state = None, ses_state = Some ''st'' \<rparr>"

lemma sample_callback_accepted: "callback_accepted sample_callback sample_login"
  by (simp add: callback_accepted_def query_request_def dict_has_def nonempty_def)

lemma fresh_ids: "grants (db fresh_world) i = None"
  by (simp add: fresh_world_def initial_world_def grants_def)

theorem accepted_login_shows_credentials_witness:
  "\<exists>r i k. fst (handle (steady_env 200 (JObj plain_token)) sample_settings R_Callback sample_callback
      (fresh_world, sample_login)) = Inr r \<and> shows_credentials r i k"
  by (rule accepted_login_shows_credentials [OF ready_fresh steady_env_ok fresh_ids
        sample_callback_accepted steady_grants [OF plain_token_facts(1,2)]])

theorem shown_credentials_give_the_token_witness:
  "\<exists>r w' s' i k enc. handle (steady_env 200 (JObj plain_token)) sample_settings R_Callback sample_callback
      (fresh_world, sample_login) = (Inr r, (w', s')) \<and> shows_credentials r i k
     \<and> grants (db w') = [i \<mapsto> Some enc]
     \<and> crypto_loads (steady_env 200 (JObj plain_token)) k enc = Inr (JObj plain_token)"
proof -
  let ?E = "steady_env 200 (JObj plain_token)"
  obtain r w' s' i k where run: "handle ?E sample_settings R_Callback sample_callback
      (fresh_world, sample_login) = (Inr r, (w', s'))" and shown: "shows_credentials r i k"
    using login_run [OF ready_fresh steady_env_ok fresh_ids sample_callback_accepted
        steady_grants [OF plain_token_facts(1,2)]] .
  have "float_repr ?E = id" by (simp add: steady_env_def sample_env_def)
  then have ok: "json_ok (float_repr ?E) v"
    if "provider_answered ?E (fetch_cfg sample_settings) (code_request sample_settings sample_callback) v" for v
    using steady_provider_answered [OF that] plain_token_facts(4) by simp
  have none: "grants (db fresh_world) = Map.empty" using fresh_ids by auto
  from shown_credentials_give_the_token [OF steady_env_ok(2,3,1) ready_fresh run shown ok]
  obtain v enc where v: "provider_answered ?E (fetch_cfg sample_settings)
        (code_request sample_settings sample_callback) (JObj v)"
    and "grants (db w') = [i \<mapsto> Some enc]" "crypto_loads ?E k enc = Inr (JObj (kept_payload v))"
    unfolding none by blast
  moreover have "v = plain_token" using steady_provider_answered [OF v] by simp
  moreover have "kept_payload plain_token = plain_token"
    using plain_token_facts(3) by (simp add: kept_payload_def)
  ultimately show ?thesis using run shown by auto
qed

lemma rotating_run:
  obtains w' s' where "handle (steady_env 200 (JObj rotating_token)) sample_settings R_Token seven_asks
      (granted_world (JObj login_grant), empty_session)
      = (Inr (nocache (refresh_answer login_grant rotating_token)), (w', s'))"
    and "kept_after (steady_env 200 (JObj rotating_token)) seven login_grant rotating_token
      (db (granted_world (JObj login_grant))) (db w')"
  using refresh_run [OF steady_env_ok(1,3) ready_granted seven_is_accepted seven_granted login_grant_facts(2)
      steady_grants [OF rotating_token_facts(1,2)]] .


theorem rotated_grant_is_usable_witness:
  "\<exists>w' s' enc' m. handle (steady_env 200 (JObj rotating_token)) sample_settings R_Token seven_asks
      (granted_world (JObj login_grant), empty_session)
      = (Inr (nocache (refresh_answer login_grant rotating_token)), (w', s'))
     \<and> grants (db w') (uuid_str 7) = Some (Some enc')
     \<and> crypto_loads (steady_env 200 (JObj rotating_token)) sample_key enc' = Inr (JObj m)
     \<and> map_of m ''refresh_token'' = Some (JStr ''RT2'')"
proof -
  let ?E = "steady_env 200 (JObj rotating_token)" and ?w = "granted_world (JObj login_grant)"
  obtain w' s' where run: "handle ?E sample_settings R_Token seven_asks (?w, empty_session)
      = (Inr (nocache (refresh_answer login_grant rotating_token)), (w', s'))"
    and kept: "kept_after ?E seven login_grant rotating_token (db ?w) (db w')"
    using rotating_run .
  have repr: "float_repr ?E = id" by (simp add: steady_env_def sample_env_def)
  define m where "m = snd (merge_refresh login_grant rotating_token)"
  have m: "m = [(''refresh_token'', JStr ''RT2'')]"
    by (simp add: m_def merge_refresh_def login_grant_def rotating_token_def plain_token_def dict_has_def
        scrub_refresh_token_def)
  have changed: "\<not> py_eq (JObj login_grant) (JObj m)" by (simp add: m login_grant_def dict_has_def)
  have stored: "stored_for ?E seven (JObj m) (db ?w) (db w')"
    using kept changed unfolding kept_after_def m_def [symmetric] by (simp del: py_eq.simps)
  then obtain enc' where enc: "encrypts ?E sample_key (JObj m) enc'"
    and new: "grants (db w') (uuid_str (cc_client_id seven)) = Some (Some enc')"
    using seven_granted(1) by (auto simp: stored_for_def)
  have "json_ok id (JObj m)" by (simp add: m dict_ok_def)
  moreover have "normalize_base64_padding sample_key = sample_key" by (simp add: sample_key_def)
  ultimately have "crypto_loads ?E sample_key enc' = Inr (JObj m)"
    using encrypts_loads [OF steady_env_ok(2) _ enc] repr by simp
  then have other: "enc' \<noteq> login_text"
    using seven_granted(3) [of 200 "JObj rotating_token"] by (auto simp: m login_grant_def)
  have old_ok: "json_ok (float_repr ?E) (JObj login_grant)" using login_grant_facts(1) by (simp add: repr)
  have ok: "json_ok (float_repr ?E) v"
    if "provider_answered ?E (fetch_cfg sample_settings) (refresh_request sample_settings t) v" for t v
    using steady_provider_answered [OF that] rotating_token_facts(3) repr by simp
  have "\<exists>t new m. map_of login_grant ''refresh_token'' = Some t
    \<and> provider_answered ?E (fetch_cfg sample_settings) (refresh_request sample_settings t) (JObj new)
    \<and> crypto_loads ?E (cc_client_secret seven) enc' = Inr (JObj m)
    \<and> map_of m ''refresh_token'' = (case map_of new ''refresh_token'' of None \<Rightarrow> Some t | Some t' \<Rightarrow> Some t')
    \<and> \<not> dict_has m ''access_token''"
    by (rule rotated_grant_is_usable [OF steady_env_ok(2) ready_granted run
      request_ok_authenticated [OF seven_is_accepted] seven_granted(1,3) old_ok _ new other]) (erule ok)
  then obtain t new' m' where "crypto_loads ?E sample_key enc' = Inr (JObj m')"
    and src: "provider_answered ?E (fetch_cfg sample_settings) (refresh_request sample_settings t) (JObj new')"
    and "map_of m' ''refresh_token'' = (case map_of new' ''refresh_token'' of None \<Rightarrow> Some t | Some t' \<Rightarrow> Some t')"
    by auto
  moreover have "new' = rotating_token" using steady_provider_answered [OF src] by simp
  ultimately show ?thesis using run new rotating_token_facts(4) by auto
qed

end
