(* ===== verification/Grant_Lifecycle.thy ===== *)
theory Grant_Lifecycle
  imports Token_Liveness
begin

text \<open>
  The life of a grant over any sequence of requests, as a small state machine that the service
  refines: a client id is unknown, then granted, perhaps replaced by refreshes, and in the end
  revoked for good.
\<close>

section \<open>The abstract machine\<close>

datatype client_state = Unknown | Granted string | Revoked

text \<open>One request moves at most one client, by one of these steps.\<close>

inductive lifecycle_step :: "client_state \<Rightarrow> client_state \<Rightarrow> bool" where
  login: "lifecycle_step Unknown (Granted t)"
| rotate: "lifecycle_step (Granted t) (Granted t')"
| revoke: "lifecycle_step (Granted t) Revoked"

inductive_cases from_unknown [elim!]: "lifecycle_step Unknown x"
inductive_cases from_revoked [elim!]: "lifecycle_step Revoked x"
inductive_simps from_granted: "lifecycle_step (Granted t) x"

text \<open>Both an absent and an empty token count as revoked, as in \<open>token\<close>.\<close>

definition client_state_of :: "database \<Rightarrow> string \<Rightarrow> client_state" where
  "client_state_of d i = (case grants d i of None \<Rightarrow> Unknown
     | Some g \<Rightarrow> (case nonempty g of None \<Rightarrow> Revoked | Some t \<Rightarrow> Granted t))"

definition moves_one :: "(client_state \<Rightarrow> client_state \<Rightarrow> bool) \<Rightarrow> database \<Rightarrow> database \<Rightarrow> bool" where
  "moves_one R d d' \<longleftrightarrow> (\<exists>i. R (client_state_of d i) (client_state_of d' i)
     \<and> (\<forall>j. j \<noteq> i \<longrightarrow> client_state_of d' j = client_state_of d j))"

section \<open>Requests and their effect on the table\<close>

lemma handle_idle_db:
  assumes "handle E S route rq (w, s) = (r, (w', s'))" and "route = R_Authorize \<or> route = R_Metrics"
  shows "db w' = db w"
proof -
  obtain v ws1 where v: "view E S route rq (w\<lparr>ticks := Suc (ticks w)\<rparr>, s) = (v, ws1)"
    and tail: "idle (fst ws1) w'"
    using assms(1) by (rule handle_decompose) simp
  have "effect_within (on_world idle) (view E S route rq)"
    using assms(2) idle_authorize idle_metrics by auto
  from effect_withinD [OF this v] tail show ?thesis by (simp add: on_world_def idle_def)
qed

lemma encrypts_nonempty: "fernet_shapes E \<Longrightarrow> encrypts E k m t \<Longrightarrow> t \<noteq> []"
  by (auto simp: encrypts_def fernet_shapes_def)

lemma empty_not_loaded: "fernet_shapes E \<Longrightarrow> crypto_loads E k [] \<noteq> Inr v"
  by (auto simp: crypto_loads_def fernet_for_def fernet_shapes_def Let_def)

lemma moved_one:
  assumes "grants d' = (grants d)(i \<mapsto> g)" and "R (client_state_of d i) (client_state_of d' i)"
  shows "moves_one R d d'"
  using assms by (auto simp: moves_one_def client_state_of_def)

lemma callback_moves:
  assumes "fernet_shapes E" and "ready (db w)" and "handle E S R_Callback rq (w, s) = (Inr r, (w', s'))"
  shows "ready (db w') \<and> (db w' = db w \<or> moves_one (\<lambda>x y. x = Unknown \<and> lifecycle_step x y) (db w) (db w'))"
proof -
  have "callback_effect E S rq r (db w) (db w')" using assms(2,3) by (rule handle_callback_post)
  then consider "db w' = db w" | v i k where "grant_added E v i k (db w) (db w')"
    by (auto simp: callback_effect_def)
  then show ?thesis
  proof cases
    case 1
    with assms(2) show ?thesis by simp
  next
    case 2
    then obtain m enc where "encrypts E k m enc" and i: "grants (db w) i = None" "ready (db w')"
      "grants (db w') = (grants (db w))(i \<mapsto> Some enc)"
      by (auto simp: grant_added_def)
    then have "client_state_of (db w) i = Unknown" "client_state_of (db w') i = Granted enc"
      using encrypts_nonempty [OF assms(1)]
      by (simp_all add: client_state_of_def nonempty_def split: list.split)
    then show ?thesis using moved_one [OF i(3)] i(2) by (simp add: login)
  qed
qed

lemma token_moves:
  assumes "fernet_shapes E" and "ready (db w)"
    and "handle E S R_Token rq (w, s) = (r, (w', s'))"
  shows "ready (db w') \<and> (db w' = db w
    \<or> moves_one (\<lambda>x y. x \<noteq> Unknown \<and> lifecycle_step x y) (db w) (db w'))"
proof -
  have move: "ready (db w') \<and> (db w' = db w
      \<or> moves_one (\<lambda>x y. x \<noteq> Unknown \<and> lifecycle_step x y) (db w) (db w'))"
    if c: "grants (db w) (uuid_str (cc_client_id c)) = Some (Some enc)"
      "crypto_loads E (cc_client_secret c) enc = Inr v"
      and change: "revoked E S c v (db w) (db w') \<or> rotated E S c v a (db w) (db w')" for c enc v a
  proof -
    let ?i = "uuid_str (cc_client_id c)"
    have "enc \<noteq> []" using c(2) empty_not_loaded [OF assms(1)] by auto
    then have old: "client_state_of (db w) ?i = Granted enc"
      using c(1) by (simp add: client_state_of_def nonempty_def split: list.split)
    show ?thesis using change
    proof
      assume "revoked E S c v (db w) (db w')"
      then have "ready (db w')" and upd: "grants (db w') = (grants (db w))(?i \<mapsto> None)"
        using c(1) by (auto simp: revoked_def)
      moreover have "client_state_of (db w') ?i = Revoked"
        by (simp add: client_state_of_def nonempty_def upd)
      ultimately show ?thesis using moved_one [OF upd] old by (simp add: revoke)
    next
      assume "rotated E S c v a (db w) (db w')"
      then consider "db w' = db w" | m where "stored_for E c m (db w) (db w')"
        by (auto simp: rotated_def refreshed_def split: if_splits)
      then show ?thesis
      proof cases
        case 1
        with assms(2) show ?thesis by simp
      next
        case 2
        then obtain t where t: "encrypts E (cc_client_secret c) m t" and r: "ready (db w')"
          and upd: "grants (db w') = (grants (db w))(?i \<mapsto> Some t)"
          using c(1) by (auto simp: stored_for_def)
        have "client_state_of (db w') ?i = Granted t"
          using encrypts_nonempty [OF assms(1) t] by (simp add: client_state_of_def nonempty_def upd split: list.split)
        then show ?thesis using moved_one [OF upd] old r by (simp add: rotate)
      qed
    qed
  qed
  have cases: "db w' = db w \<or> (\<exists>c enc v a. grants (db w) (uuid_str (cc_client_id c)) = Some (Some enc)
      \<and> crypto_loads E (cc_client_secret c) enc = Inr v
      \<and> (revoked E S c v (db w) (db w') \<or> rotated E S c v a (db w) (db w')))"
    using handle_token_post [OF assms(2,3)] unfolding token_answered_def token_refused_def by blast
  then show ?thesis using assms(2) move by (elim disjE exE conjE) auto
qed

section \<open>Sequences of requests\<close>

text \<open>Worlds the service can reach from \<open>w\<close>, whatever the requests and sessions.\<close>

inductive serves :: "env \<Rightarrow> settings \<Rightarrow> world \<Rightarrow> world \<Rightarrow> bool" for E S w where
  start: "serves E S w w"
| request: "serves E S w u \<Longrightarrow> handle E S route rq (u, s) = (Inr r, (u', s')) \<Longrightarrow> serves E S w u'"

lemma moves_one_mono: "moves_one R d d' \<Longrightarrow> (\<And>x y. R x y \<Longrightarrow> R' x y) \<Longrightarrow> moves_one R' d d'"
  unfolding moves_one_def by blast

abbreviation routed_step :: "route \<Rightarrow> client_state \<Rightarrow> client_state \<Rightarrow> bool" where
  "routed_step route x y \<equiv> lifecycle_step x y \<and> route = (if x = Unknown then R_Callback else R_Token)"

lemma request_moves:
  assumes "fernet_shapes E" and "ready (db w)" and "handle E S route rq (w, s) = (Inr r, (w', s'))"
  shows "ready (db w') \<and> (db w' = db w \<or> moves_one (routed_step route) (db w) (db w'))"
proof (cases route)
  case R_Callback
  have "moves_one (routed_step route) (db w) (db w')"
    if "moves_one (\<lambda>x y. x = Unknown \<and> lifecycle_step x y) (db w) (db w')"
    using that by (rule moves_one_mono) (simp add: R_Callback)
  with callback_moves [OF assms(1,2) assms(3) [unfolded R_Callback]] show ?thesis by blast
next
  case R_Token
  have "moves_one (routed_step route) (db w) (db w')"
    if "moves_one (\<lambda>x y. x \<noteq> Unknown \<and> lifecycle_step x y) (db w) (db w')"
    using that by (rule moves_one_mono) (simp add: R_Token)
  with token_moves [OF assms(1,2) assms(3) [unfolded R_Token]] show ?thesis by blast
qed (use handle_idle_db [OF assms(3)] assms(2) in auto)

lemma moved_reaches:
  "moves_one (routed_step route) d d' \<Longrightarrow> lifecycle_step\<^sup>*\<^sup>* (client_state_of d i) (client_state_of d' i)"
  unfolding moves_one_def by (metis r_into_rtranclp rtranclp.rtrancl_refl)

lemma serves_reaches:
  assumes "serves E S w w'" and "fernet_shapes E" and "ready (db w)"
  shows "ready (db w') \<and> lifecycle_step\<^sup>*\<^sup>* (client_state_of (db w) i) (client_state_of (db w') i)"
  using assms(1)
proof induction
  case start
  with assms(3) show ?case by simp
next
  case (request u route rq s r u' s')
  have "ready (db u') \<and> lifecycle_step\<^sup>*\<^sup>* (client_state_of (db u) i) (client_state_of (db u') i)"
    using request_moves [OF assms(2) conjunct1 [OF request.IH] request.hyps(2)] moved_reaches by auto
  with request.IH show ?case by (meson rtranclp_trans)
qed

lemma revoked_stays: "lifecycle_step\<^sup>*\<^sup>* x y \<Longrightarrow> x = Revoked \<Longrightarrow> y = Revoked"
  by (induction rule: rtranclp_induct) auto

lemma known_stays: "lifecycle_step\<^sup>*\<^sup>* x y \<Longrightarrow> x \<noteq> Unknown \<Longrightarrow> y \<noteq> Unknown"
  by (induction rule: rtranclp_induct) (auto elim: lifecycle_step.cases)

section \<open>Properties\<close>

text \<open>
  C6. Every request refines the life cycle of grants: it leaves the table usable, and either leaves
  it unchanged or moves exactly one client by one step, a new one by \<open>callback\<close> and a granted one by
  \<open>token\<close>.  No request touches a revoked client, and \<open>authorize\<close> and \<open>metrics\<close> change nothing.
\<close>
theorem requests_follow_the_lifecycle:
  assumes "fernet_shapes E" and "ready (db w)" and "handle E S route rq (w, s) = (Inr r, (w', s'))"
  shows "ready (db w') \<and> (db w' = db w \<or> (\<exists>i. lifecycle_step (client_state_of (db w) i) (client_state_of (db w') i)
    \<and> route = (if client_state_of (db w) i = Unknown then R_Callback else R_Token)
    \<and> client_state_of (db w') = (client_state_of (db w))(i := client_state_of (db w') i)))"
proof -
  have "client_state_of (db w') = (client_state_of (db w))(i := client_state_of (db w') i)"
    if "\<forall>j. j \<noteq> i \<longrightarrow> client_state_of (db w') j = client_state_of (db w) j" for i
    using that by auto
  then show ?thesis using request_moves [OF assms] unfolding moves_one_def by blast
qed

text \<open>
  C7. Over any sequence of requests of any kind, a client that is known stays known, and a revoked
  client stays revoked: no login, refresh or retry brings a dead grant back.
\<close>
theorem revocation_is_final:
  assumes "fernet_shapes E" and "ready (db w)" and "serves E S w w'"
  shows "(client_state_of (db w) i = Revoked \<longrightarrow> client_state_of (db w') i = Revoked)
    \<and> (client_state_of (db w) i \<noteq> Unknown \<longrightarrow> client_state_of (db w') i \<noteq> Unknown)"
  using serves_reaches [OF assms(3,1,2), of i] revoked_stays known_stays by blast

section \<open>Instances\<close>

theorem requests_follow_the_lifecycle_witness:
  "\<exists>r w' s'. handle (steady_env 200 (JObj plain_token)) sample_settings R_Callback sample_callback
      (fresh_world, sample_login) = (Inr r, (w', s')) \<and> ready (db w')"
proof -
  obtain r w' s' i k where run: "handle (steady_env 200 (JObj plain_token)) sample_settings R_Callback sample_callback
      (fresh_world, sample_login) = (Inr r, (w', s'))"
    using login_run [OF ready_fresh steady_env_ok fresh_ids sample_callback_accepted
        steady_grants [OF plain_token_facts(1,2)]] .
  with requests_follow_the_lifecycle [OF steady_env_ok(3) ready_fresh run] show ?thesis by blast
qed

theorem revocation_is_final_witness:
  "\<exists>u u' r s'. serves (steady_env 401 (JObj invalid_grant_body)) sample_settings (granted_world (JObj login_grant)) u
     \<and> client_state_of (db u) (uuid_str 7) = Revoked
     \<and> handle (steady_env 401 (JObj invalid_grant_body)) sample_settings R_Token seven_asks (u, empty_session)
         = (Inr r, (u', s'))
     \<and> client_state_of (db u') (uuid_str 7) = Revoked"
proof -
  let ?E = "steady_env 401 (JObj invalid_grant_body)"
  obtain r u s' where run: "handle ?E sample_settings R_Token seven_asks
      (granted_world (JObj login_grant), empty_session) = (Inr r, (u, s'))"
    and gone: "grants (db u) (uuid_str 7) = Some None"
    using revoking_run [OF bad_request_sample(3,4)] .
  have u: "serves ?E sample_settings (granted_world (JObj login_grant)) u"
    by (rule serves.request [OF serves.start run])
  have ready: "ready (db u)" using serves_reaches [OF u steady_env_ok(3) ready_granted] by blast
  have revoked: "client_state_of (db u) (uuid_str 7) = Revoked"
    by (simp add: client_state_of_def nonempty_def gone)
  obtain a u' s2 where again: "handle ?E sample_settings R_Token seven_asks (u, empty_session) = (Inr a, (u', s2))"
    using handle_run [of ?E sample_settings R_Token seven_asks u empty_session] by blast
  from revocation_is_final [OF steady_env_ok(3) ready serves.request [OF serves.start again]]
  have "client_state_of (db u') (uuid_str 7) = Revoked" using revoked by blast
  with u revoked again show ?thesis by blast
qed

end
