(* ===== verification/Grant_Race.thy ===== *)
theory Grant_Race
  imports Grant_Lifecycle
begin

text \<open>
  Token requests that overlap.  A token request reads the stored grant, talks to the provider, and
  in the end writes the grant by one update.  Only the first and the last of these touch the table,
  so a request in flight is its reading, and later the rest of it, in whatever world the other
  requests have made meanwhile.
\<close>

section \<open>The two phases of a token request\<close>

type_synonym reading = "client_credentials \<times> token_record"

definition read_grant :: "env \<Rightarrow> settings \<Rightarrow> web_request \<Rightarrow> reading handler" where
  "read_grant E S rq =
     seqA (request_credentials E rq) (\<lambda>c.
     seqA (lookup_grant E S (cc_client_id c)) (\<lambda>record.
       returnA (c, record)))"

definition serve_reading :: "env \<Rightarrow> settings \<Rightarrow> web_request \<Rightarrow> reading \<Rightarrow> web_response handler" where
  "serve_reading E S rq = (\<lambda>(c, record).
     case tr_encrypted_token record of
       None \<Rightarrow> revoked_grant E S rq
     | Some encrypted \<Rightarrow>
         seqA (decrypt_grant E c encrypted) (\<lambda>result.
         seqA (try_res (py_in ''refresh_token'' result)) (\<lambda>refreshable.
           if \<not> refreshable
           then seqA (in_world (observe_token_grant_age E (tr_created_at record))) (\<lambda>_. returnA (jsonify result))
           else refresh_grant E S c record result)))"

text \<open>
  A token request that is not interrupted is its two phases, one after the other.
\<close>
theorem token_in_two_phases:
  "token E S rq ws = seqA (read_grant E S rq) (serve_reading E S rq) ws"
  unfolding token_def read_grant_def serve_reading_def
  by (simp add: seqA_def fun_eq_iff returnA_def split: prod.split sum.split)

section \<open>Overlapping requests\<close>

text \<open>
  A service is a world and the requests in flight, each with what it has read.  Requests that run
  alone are one step.  What raises in the first phase is answered at once and leaves nothing in flight.
  Each step takes any of the environments \<open>Es\<close>, so the outside may change while requests are waiting.
\<close>

type_synonym service = "world \<times> (web_request \<times> reading) list"

inductive overlaps :: "env set \<Rightarrow> settings \<Rightarrow> service \<Rightarrow> service \<Rightarrow> bool" for Es S where
  whole: "E \<in> Es \<Longrightarrow> handle E S route rq (w, s) = (Inr r, (w', s')) \<Longrightarrow> overlaps Es S (w, ps) (w', ps)"
| reads: "E \<in> Es \<Longrightarrow> read_grant E S rq (w, s) = (Inr p, (w', s')) \<Longrightarrow> overlaps Es S (w, ps) (w', (rq, p) # ps)"
| finish: "E \<in> Es \<Longrightarrow> (rq, p) \<in> set ps
     \<Longrightarrow> catchA (serve_reading E S rq p) (handle_exception S) (w, s) = (Inr r, (w', s'))
     \<Longrightarrow> overlaps Es S (w, ps) (w', remove1 (rq, p) ps)"

text \<open>What a reading says: the client presented these credentials, and was known.\<close>

definition reading_ok :: "env set \<Rightarrow> database \<Rightarrow> web_request \<times> reading \<Rightarrow> bool" where
  "reading_ok Es d = (\<lambda>(rq, (c, record)). (\<exists>E \<in> Es. authenticated_as E rq c)
     \<and> client_state_of d (uuid_str (cc_client_id c)) \<noteq> Unknown)"

text \<open>The entry that the finish of a reading may write.\<close>

definition written_by :: "env \<Rightarrow> reading \<Rightarrow> database \<Rightarrow> database \<Rightarrow> bool" where
  "written_by E = (\<lambda>(c, record) d d'. \<exists>enc v. tr_encrypted_token record = Some enc
     \<and> crypto_loads E (cc_client_secret c) enc = Inr v
     \<and> (\<exists>g. grants d' = (grants d)(uuid_str (cc_client_id c) \<mapsto> g)
          \<and> (g = None \<or> (\<exists>t m. g = Some t \<and> encrypts E (cc_client_secret c) m t))))"

lemma read_grant_post:
  assumes "ready (db w)" and "E \<in> Es"
  shows "wp (read_grant E S rq) (\<lambda>p ws'. db (fst ws') = db w \<and> reading_ok Es (db w) (rq, p)
      \<and> (\<exists>g. grants (db w) (uuid_str (cc_client_id (fst p))) = Some g \<and> tr_encrypted_token (snd p) = nonempty g))
    (\<lambda>_ ws'. db (fst ws') = db w) (w, s)"
proof -
  have lookup: "wp (seqA (lookup_grant E S (cc_client_id c)) (\<lambda>record. returnA (c, record)))
      (\<lambda>p ws'. db (fst ws') = db w \<and> reading_ok Es (db w) (rq, p)
        \<and> (\<exists>g. grants (db w) (uuid_str (cc_client_id (fst p))) = Some g \<and> tr_encrypted_token (snd p) = nonempty g))
      (\<lambda>_ ws'. db (fst ws') = db w) (u, s')"
    if "authenticated_as E rq c" "db u = db w" for c u s'
    unfolding wp_seqA
    by (rule wp_mono [OF lookup_same_db])
      (use assms that in \<open>auto simp: wp_simps reading_ok_def client_state_of_def split: option.split\<close>)
  show ?thesis
    unfolding read_grant_def wp_seqA [of "request_credentials E rq"]
    by (rule wp_mono [OF wp_effect_yields [OF credentials_same_db credentials_yield]])
      (use lookup in \<open>auto simp: on_world_def same_db_def\<close>)
qed

lemma refresh_writes:
  assumes "ready d" and "client_state_of d (uuid_str (cc_client_id c)) \<noteq> Unknown"
    and "revoked E S c v d d' \<or> rotated E S c v r d d'"
  shows "ready d' \<and> (d' = d \<or> (\<exists>g. grants d' = (grants d)(uuid_str (cc_client_id c) \<mapsto> g)
    \<and> (g = None \<or> (\<exists>t m. g = Some t \<and> encrypts E (cc_client_secret c) m t))))"
  using assms by (auto simp: revoked_def rotated_def refreshed_def stored_for_def client_state_of_def
      split: if_splits option.splits)

lemma serve_reading_post:
  assumes "ready (db w)" and "reading_ok Es (db w) (rq, p)"
  shows "wp (serve_reading E S rq p)
     (\<lambda>_ ws'. ready (db (fst ws')) \<and> (db (fst ws') = db w \<or> written_by E p (db w) (db (fst ws'))))
     (\<lambda>_ ws'. ready (db (fst ws')) \<and> (db (fst ws') = db w \<or> written_by E p (db w) (db (fst ws')))) (w, s)"
    (is "wp _ (\<lambda>_ ws'. ?P ws') (\<lambda>_ ws'. ?P ws') _")
proof -
  obtain c rec where p: "p = (c, rec)" by (cases p)
  let ?i = "uuid_str (cc_client_id c)"
  have known: "client_state_of (db w) ?i \<noteq> Unknown" using assms(2) by (simp add: reading_ok_def p)
  have same: "db u = db w \<Longrightarrow> ?P (u, s')" for u s' using assms(1) by simp
  show ?thesis
  proof (cases "tr_encrypted_token rec")
    case None
    have "effect_within (on_world same_db) (revoked_grant E S rq)"
      unfolding revoked_grant_def by (intro keeps_intros)
    then have "wp (revoked_grant E S rq) (\<lambda>_. on_world same_db (w, s)) (\<lambda>_. on_world same_db (w, s)) (w, s)"
      by (simp add: wp_effect)
    then show ?thesis
      using assms(1) by (auto simp: serve_reading_def p None on_world_def same_db_def elim!: wp_mono)
  next
    case (Some enc)
    have refresh: "wp (refresh_grant E S c rec v) (\<lambda>_ ws'. ?P ws') (\<lambda>_ ws'. ?P ws') (u, s')"
      if "crypto_loads E (cc_client_secret c) enc = Inr v" and u: "db u = db w" for v u s'
    proof (rule wp_mono [OF refresh_grant_post])
      show "ready (db u)" using assms(1) that(2) by simp
    next
      fix r and ws' :: "world \<times> web_session" assume "rotated E S c v r (db u) (db (fst ws'))"
      then have "rotated E S c v r (db w) (db (fst ws'))" using that(2) by simp
      from refresh_writes [OF assms(1) known disjI2 [OF this]] that show "?P ws'"
        by (auto simp: written_by_def p Some)
    next
      fix e and ws' :: "world \<times> web_session" assume "db (fst ws') = db u \<or> revoked E S c v (db u) (db (fst ws'))"
      then consider "db (fst ws') = db w" | "revoked E S c v (db w) (db (fst ws'))" using u by auto
      then show "?P ws'"
      proof cases
        case 2
        from refresh_writes [OF assms(1) known disjI1 [OF this]] that show ?thesis
          by (auto simp: written_by_def p Some)
      qed (use assms(1) in simp)
    qed
    have valid: "wp (seqA (try_res (py_in ''refresh_token'' v)) (\<lambda>refreshable.
           if \<not> refreshable
           then seqA (in_world (observe_token_grant_age E (tr_created_at rec))) (\<lambda>_. returnA (jsonify v))
           else refresh_grant E S c rec v)) (\<lambda>_ ws'. ?P ws') (\<lambda>_ ws'. ?P ws') (u, s')"
      if "crypto_loads E (cc_client_secret c) enc = Inr v" "db u = db w" for v u s'
      using refresh [OF that] same that(2)
      by (cases "py_in ''refresh_token'' v")
        (auto simp: wp_simps observe_token_grant_age_def split: option.split)
    show ?thesis
      unfolding serve_reading_def p split_conv Some option.case wp_seqA [of "decrypt_grant E c enc"]
      by (rule wp_mono [OF decrypt_rule]) (use valid [unfolded p] assms(1) in auto)
  qed
qed

lemma finish_post:
  assumes "ready (db w)" and "reading_ok Es (db w) (rq, p)"
    and "catchA (serve_reading E S rq p) (handle_exception S) (w, s) = (r, (w', s'))"
  shows "ready (db w') \<and> (db w' = db w \<or> written_by E p (db w) (db w'))"
proof -
  let ?P = "\<lambda>ws'. ready (db (fst ws')) \<and> (db (fst ws') = db w \<or> written_by E p (db w) (db (fst ws')))"
  have exn: "wp (handle_exception S e) (\<lambda>_ ws'. ?P ws') (\<lambda>_ ws'. ?P ws') ws" if "?P ws" for e ws
    using that effect_withinD [OF idle_handle_exception, of S e ws]
    by (auto simp: wp_def on_world_def idle_def split: prod.split sum.split)
  have "wp (catchA (serve_reading E S rq p) (handle_exception S)) (\<lambda>_ ws'. ?P ws') (\<lambda>_ ws'. ?P ws') (w, s)"
    unfolding wp_catchA by (rule wp_mono [OF serve_reading_post [OF assms(1,2)]]) (use exn in auto)
  then show ?thesis using assms(3) by (auto simp: wp_def split: sum.splits)
qed

section \<open>Reachable services\<close>

lemma written_known:
  assumes "written_by E (c, rec) d d'"
  shows "client_state_of d' j = (if j = uuid_str (cc_client_id c) then client_state_of d' j else client_state_of d j)"
    and "client_state_of d' (uuid_str (cc_client_id c)) \<noteq> Unknown"
  using assms by (auto simp: written_by_def client_state_of_def split: option.splits if_splits)

lemma written_keeps_known: "written_by E p d d' \<Longrightarrow> client_state_of d j \<noteq> Unknown \<Longrightarrow> client_state_of d' j \<noteq> Unknown"
  by (cases p) (metis written_known)

definition service_ok :: "env set \<Rightarrow> service \<Rightarrow> bool" where
  "service_ok Es = (\<lambda>(w, ps). ready (db w) \<and> list_all (reading_ok Es (db w)) ps)"

lemma reading_ok_later:
  "reading_ok Es d p \<Longrightarrow> (\<And>i. client_state_of d i \<noteq> Unknown \<Longrightarrow> client_state_of d' i \<noteq> Unknown) \<Longrightarrow> reading_ok Es d' p"
  by (auto simp: reading_ok_def)

text \<open>One step: the causes of a change, and that known clients stay known.\<close>

lemma overlap_step:
  assumes "\<forall>E \<in> Es. fernet_shapes E" and "service_ok Es (w, ps)" and "overlaps Es S (w, ps) (w', ps')"
  shows "service_ok Es (w', ps')"
    and "\<forall>i. client_state_of (db w) i \<noteq> Unknown \<longrightarrow> client_state_of (db w') i \<noteq> Unknown"
    and "db w' = db w \<or> (\<exists>route. moves_one (routed_step route) (db w) (db w'))
      \<or> (\<exists>rq p. (rq, p) \<in> set ps \<and> (\<exists>E \<in> Es. written_by E p (db w) (db w')))"
proof -
  have ready: "ready (db w)" and ok: "\<And>p. p \<in> set ps \<Longrightarrow> reading_ok Es (db w) p"
    using assms(2) by (auto simp: service_ok_def list_all_iff)
  have "service_ok Es (w', ps')
      \<and> (\<forall>i. client_state_of (db w) i \<noteq> Unknown \<longrightarrow> client_state_of (db w') i \<noteq> Unknown)
      \<and> (db w' = db w \<or> (\<exists>route. moves_one (routed_step route) (db w) (db w'))
         \<or> (\<exists>rq p. (rq, p) \<in> set ps \<and> (\<exists>E \<in> Es. written_by E p (db w) (db w'))))"
    using assms(3)
  proof (cases rule: overlaps.cases)
    case (whole E route rq s r s')
    have moved: "ready (db w') \<and> (db w' = db w \<or> moves_one (routed_step route) (db w) (db w'))"
      using request_moves [OF bspec [OF assms(1) whole(2)] ready whole(3)] .
    have known: "\<forall>i. client_state_of (db w) i \<noteq> Unknown \<longrightarrow> client_state_of (db w') i \<noteq> Unknown"
      using moved moved_reaches known_stays by (metis (no_types, lifting))
    then show ?thesis
      using moved ok whole(1) reading_ok_later by (fastforce simp: service_ok_def list_all_iff)
  next
    case (reads E rq s p s')
    from wp_Inr [OF read_grant_post [OF ready reads(2)] reads(3)] show ?thesis
      using ready ok reads(1) by (auto simp: service_ok_def list_all_iff)
  next
    case (finish E rq p s r s')
    have w: "ready (db w') \<and> (db w' = db w \<or> written_by E p (db w) (db w'))"
      using finish_post [OF ready ok [OF finish(3)] finish(4)] .
    have known: "\<forall>i. client_state_of (db w) i \<noteq> Unknown \<longrightarrow> client_state_of (db w') i \<noteq> Unknown"
      using w written_keeps_known by (metis (no_types, lifting))
    have "x \<in> set ps' \<Longrightarrow> reading_ok Es (db w') x" for x
      using ok known finish(1) reading_ok_later notin_set_remove1 by metis
    then show ?thesis
      using w known finish(2,3) by (cases p) (auto simp: service_ok_def list_all_iff)
  qed
  then show "service_ok Es (w', ps')"
    "\<forall>i. client_state_of (db w) i \<noteq> Unknown \<longrightarrow> client_state_of (db w') i \<noteq> Unknown"
    "db w' = db w \<or> (\<exists>route. moves_one (routed_step route) (db w) (db w'))
      \<or> (\<exists>rq p. (rq, p) \<in> set ps \<and> (\<exists>E \<in> Es. written_by E p (db w) (db w')))" by blast+
qed

lemma overlaps_reach:
  assumes "(overlaps Es S)\<^sup>*\<^sup>* a b" and "\<forall>E \<in> Es. fernet_shapes E" and "service_ok Es a"
  shows "service_ok Es b \<and> (\<forall>i. client_state_of (db (fst a)) i \<noteq> Unknown \<longrightarrow> client_state_of (db (fst b)) i \<noteq> Unknown)"
  using assms(1)
proof (induction rule: rtranclp_induct)
  case base
  with assms(3) show ?case by simp
next
  case (step b c)
  then show ?case
    using overlap_step(1,2) [OF assms(2), of "fst b" "snd b" S "fst c" "snd c"] by simp
qed

lemma service_start: "ready (db w) \<Longrightarrow> service_ok Es (w, [])"
  by (simp add: service_ok_def)

section \<open>Properties\<close>


text \<open>
  C9. Revocation is final except for stale readings: in any overlap of requests, a revoked client is
  brought back only by the end of a token request of that client, with its credentials, that had
  read the grant before it was revoked.
\<close>
theorem revival_needs_a_stale_reading:
  assumes "\<forall>E \<in> Es. fernet_shapes E" and "ready (db w0)" and "(overlaps Es S)\<^sup>*\<^sup>* (w0, []) (w, ps)"
    and "overlaps Es S (w, ps) (w', ps')"
    and "client_state_of (db w) i = Revoked" and "client_state_of (db w') i \<noteq> Revoked"
  shows "\<exists>rq c rec enc v. (rq, (c, rec)) \<in> set ps \<and> (\<exists>E \<in> Es. authenticated_as E rq c) \<and> i = uuid_str (cc_client_id c)
    \<and> tr_encrypted_token rec = Some enc \<and> (\<exists>E \<in> Es. crypto_loads E (cc_client_secret c) enc = Inr v)"
proof -
  have ok: "service_ok Es (w, ps)" using overlaps_reach [OF assms(3,1) service_start [OF assms(2)]] ..
  have "\<not> moves_one (routed_step route) (db w) (db w')" for route
    using assms(5,6) moved_reaches [of route "db w" "db w'" i] revoked_stays by metis
  then obtain rq c rec E where p: "(rq, (c, rec)) \<in> set ps" "E \<in> Es" "written_by E (c, rec) (db w) (db w')"
    using overlap_step(3) [OF assms(1) ok assms(4)] assms(5,6) by (metis prod.exhaust)
  have "i = uuid_str (cc_client_id c)" using written_known(1) [OF p(3), of i] assms(5,6) by presburger
  moreover have "\<exists>E \<in> Es. authenticated_as E rq c" using ok p(1) by (auto simp: service_ok_def list_all_iff reading_ok_def)
  moreover obtain enc v where "tr_encrypted_token rec = Some enc" "crypto_loads E (cc_client_secret c) enc = Inr v"
    using p(3) by (auto simp: written_by_def)
  ultimately show ?thesis using p(1,2) by blast
qed

section \<open>Instances\<close>

text \<open>
  Two token requests of one client.  The first reads the grant; the second is refused by the provider
  and revokes it; the first is then served with a rotated token and stores it: the grant is back.
\<close>

abbreviation refusing :: env where
  "refusing \<equiv> steady_env 401 (JObj invalid_grant_body)"

abbreviation granting :: env where
  "granting \<equiv> steady_env 200 (JObj rotating_token)"

lemma seven_reads:
  obtains rec w' s' where "read_grant refusing sample_settings seven_asks (granted_world (JObj login_grant), empty_session)
      = (Inr (seven, rec), (w', s'))"
    and "db w' = db (granted_world (JObj login_grant))" and "tr_encrypted_token rec = Some login_text"
proof -
  let ?w = "granted_world (JObj login_grant)"
  let ?u = "?w\<lparr>trace := trace ?w @ [ClientIdSet (uuid_str (cc_client_id seven))]\<rparr>"
  have creds: "request_credentials refusing seven_asks (?w, empty_session) = (Inr seven, (?u, empty_session))"
    by (rule credentials_run [OF seven_is_accepted])
  obtain r w' s' where look: "lookup_grant refusing sample_settings (cc_client_id seven) (?u, empty_session) = (r, (w', s'))"
    by (metis prod.collapse)
  have "ready (db ?u)" using ready_granted by simp
  from lookup_grant_live [OF this steady_env_ok(1) [of 401 "JObj invalid_grant_body"], of sample_settings "cc_client_id seven" empty_session] look seven_granted(1,2)
  obtain rec where "r = Inr rec" "db w' = db ?w" "tr_encrypted_token rec = Some login_text"
    by (cases r) (auto simp: wp_def nonempty_def split: list.splits)
  have "read_grant refusing sample_settings seven_asks (?w, empty_session) = (Inr (seven, rec), (w', s'))"
    unfolding read_grant_def seqA_run creds prod.case sum.case look \<open>r = Inr rec\<close> by (simp add: act_simps)
  then show thesis using \<open>db w' = db ?w\<close> \<open>tr_encrypted_token rec = Some login_text\<close> by (rule that)
qed

lemma seven_revives:
  assumes "ready (db w)" and "grants (db w) (uuid_str 7) = Some None" and "tr_encrypted_token rec = Some login_text"
  obtains r w' s' t where "serve_reading granting sample_settings seven_asks (seven, rec) (w, s) = (Inr r, (w', s'))"
    and "grants (db w') (uuid_str 7) = Some (Some t)" and "t \<noteq> []"
proof -
  have key: "ascii_ok (cc_client_secret seven)" "fernet_accepts granting (cc_client_secret seven)"
    using validated_key request_ok_authenticated [OF seven_is_accepted] by blast+
  have "dict_has login_grant ''refresh_token''" using login_grant_facts(2) by (simp add: dict_has_def)
  then have serve: "serve_reading granting sample_settings seven_asks (seven, rec) (w, s)
      = refresh_grant granting sample_settings seven rec (JObj login_grant) (w, s)"
    using seven_granted(3) [of 200 "JObj rotating_token"]
    by (simp add: serve_reading_def assms(3) decrypt_grant_def act_simps)
  obtain a w' s' where run: "refresh_grant granting sample_settings seven rec (JObj login_grant) (w, s) = (a, (w', s'))"
    by (metis prod.collapse)
  from refresh_granted [OF assms(1) steady_env_ok(1,3) key login_grant_facts(2)
      steady_grants [OF rotating_token_facts(1,2)], of rec s] run
  obtain r where r: "a = Inr r" and kept: "kept_after granting seven login_grant rotating_token (db w) (db w')"
    by (auto simp: wp_def split: sum.splits)
  have "\<not> py_eq (JObj login_grant) (JObj (snd (merge_refresh login_grant rotating_token)))"
    by (simp add: merge_refresh_def login_grant_def rotating_token_def plain_token_def dict_has_def
        scrub_refresh_token_def)
  with kept obtain t m where "encrypts granting sample_key m t" "grants (db w') (uuid_str 7) = Some (Some t)"
    using assms(2) by (auto simp: kept_after_def stored_for_def simp del: py_eq.simps)
  moreover from this have "t \<noteq> []" using encrypts_nonempty [OF steady_env_ok(3)] by blast
  ultimately show thesis using run r serve that by metis
qed

abbreviation racing_envs :: "env set" where
  "racing_envs \<equiv> {refusing, granting}"

lemma racing_run:
  obtains w1 w2 w3 p t where
    "overlaps racing_envs sample_settings (granted_world (JObj login_grant), []) (w1, [(seven_asks, p)])"
    and "overlaps racing_envs sample_settings (w1, [(seven_asks, p)]) (w2, [(seven_asks, p)])"
    and "overlaps racing_envs sample_settings (w2, [(seven_asks, p)]) (w3, [])"
    and "client_state_of (db w2) (uuid_str 7) = Revoked"
    and "client_state_of (db w3) (uuid_str 7) = Granted t"
proof -
  let ?S = sample_settings and ?w = "granted_world (JObj login_grant)"
  obtain rec w1 s1 where reads: "read_grant refusing ?S seven_asks (?w, empty_session) = (Inr (seven, rec), (w1, s1))"
    and w1: "db w1 = db ?w" and rec: "tr_encrypted_token rec = Some login_text"
    using seven_reads .
  have g1: "grants (db w1) (uuid_str (cc_client_id seven)) = Some (Some login_text)" "ready (db w1)"
    using seven_granted(1) ready_granted by (simp_all add: w1)
  obtain a w2 s2 where h: "handle refusing ?S R_Token seven_asks (w1, empty_session) = (a, (w2, s2))"
    by (metis prod.collapse)
  note run = invalid_grant_run [OF steady_env_ok(1) g1(2) seven_is_accepted g1(1) seven_granted(2,3)
      login_grant_facts(2) steady_rejects [OF bad_request_sample(3,4)], of empty_session, unfolded h fst_conv snd_conv]
  have w2: "ready (db w2)" "grants (db w2) (uuid_str 7) = Some None"
    using conjunct2 [OF run] g1(1) by (simp_all add: revoked_in_def)
  obtain r w3 s3 t where serve: "serve_reading granting ?S seven_asks (seven, rec) (w2, empty_session) = (Inr r, (w3, s3))"
    and w3: "grants (db w3) (uuid_str 7) = Some (Some t)" "t \<noteq> []"
    using seven_revives [OF w2 rec] .
  let ?Es = racing_envs and ?p = "(seven, rec)"
  have 1: "overlaps ?Es ?S (?w, []) (w1, [(seven_asks, ?p)])"
    by (rule overlaps.reads [OF _ reads]) simp
  have 2: "overlaps ?Es ?S (w1, [(seven_asks, ?p)]) (w2, [(seven_asks, ?p)])"
    using conjunct1 [OF run] h by (intro overlaps.whole [of refusing]) auto
  have "overlaps ?Es ?S (w2, [(seven_asks, ?p)]) (w3, remove1 (seven_asks, ?p) [(seven_asks, ?p)])"
    using serve by (intro overlaps.finish [of granting _ _ _ _ _ _ empty_session r _ s3]) (simp_all add: catchA_run)
  then have 3: "overlaps ?Es ?S (w2, [(seven_asks, ?p)]) (w3, [])" by simp
  have "client_state_of (db w2) (uuid_str 7) = Revoked" "client_state_of (db w3) (uuid_str 7) = Granted t"
    using w2 w3 by (simp_all add: client_state_of_def nonempty_def split: list.split)
  with 1 2 3 show thesis by (rule that)
qed

text \<open>
  A stale reading does revive a revoked grant: there is an overlap of two token requests of one
  client after which its grant, which the provider had refused and the bridge had revoked, is usable
  again.  The update at the end of a refresh does not check that the grant is still the one it read.
\<close>
theorem stale_refresh_revives_grant:
  "\<exists>w1 w2 w3 p. let S = sample_settings; Es = racing_envs in
     overlaps Es S (granted_world (JObj login_grant), []) (w1, [(seven_asks, p)])
   \<and> overlaps Es S (w1, [(seven_asks, p)]) (w2, [(seven_asks, p)])
   \<and> overlaps Es S (w2, [(seven_asks, p)]) (w3, [])
   \<and> client_state_of (db w2) (uuid_str 7) = Revoked
   \<and> (\<exists>t. client_state_of (db w3) (uuid_str 7) = Granted t)"
proof -
  obtain w1 w2 w3 p t where run: "overlaps racing_envs sample_settings (granted_world (JObj login_grant), []) (w1, [(seven_asks, p)])"
    "overlaps racing_envs sample_settings (w1, [(seven_asks, p)]) (w2, [(seven_asks, p)])"
    "overlaps racing_envs sample_settings (w2, [(seven_asks, p)]) (w3, [])"
    "client_state_of (db w2) (uuid_str 7) = Revoked" "client_state_of (db w3) (uuid_str 7) = Granted t"
    using racing_run .
  then show ?thesis unfolding Let_def by (intro exI conjI)
qed

lemma racing_envs_ok: "\<forall>E \<in> racing_envs. fernet_shapes E"
  using steady_env_ok(3) by blast


theorem revival_needs_a_stale_reading_witness:
  "\<exists>w w' p enc. (overlaps racing_envs sample_settings)\<^sup>*\<^sup>* (granted_world (JObj login_grant), []) (w, [(seven_asks, p)])
     \<and> overlaps racing_envs sample_settings (w, [(seven_asks, p)]) (w', [])
     \<and> client_state_of (db w) (uuid_str 7) = Revoked \<and> client_state_of (db w') (uuid_str 7) \<noteq> Revoked
     \<and> tr_encrypted_token (snd p) = Some enc"
proof -
  let ?R = "overlaps racing_envs sample_settings"
  obtain w1 w2 w3 p t where "?R (granted_world (JObj login_grant), []) (w1, [(seven_asks, p)])"
    "?R (w1, [(seven_asks, p)]) (w2, [(seven_asks, p)])" and last: "?R (w2, [(seven_asks, p)]) (w3, [])"
    and gone: "client_state_of (db w2) (uuid_str 7) = Revoked" and again: "client_state_of (db w3) (uuid_str 7) = Granted t"
    using racing_run .
  then have run: "?R\<^sup>*\<^sup>* (granted_world (JObj login_grant), []) (w2, [(seven_asks, p)])" by simp
  have "client_state_of (db w3) (uuid_str 7) \<noteq> Revoked" using again by simp
  from revival_needs_a_stale_reading [OF racing_envs_ok ready_granted run last gone this]
  obtain enc where "tr_encrypted_token (snd p) = Some enc" by auto
  with run last gone \<open>client_state_of (db w3) (uuid_str 7) \<noteq> Revoked\<close> show ?thesis by blast
qed

end
