(* ===== verification/Metrics.thy ===== *)
theory Metrics
  imports Provider_Fetch Db_Access "HOL-Library.Sublist"
begin

text \<open>
  \<open>telemetry/_prometheus.py\<close>, \<open>telemetry/_buckets.py\<close> and the \<open>record_*\<close> functions of
  \<open>telemetry/__init__.py\<close>: the metrics, their labels and buckets, and what each call records.

  The registry keeps the samples of each labelled series in order: 1 for an increment, the value
  for an observation, and only the last value for a gauge.  \<open>meter\<close> translates the events of the
  trace to the calls the code makes at these places.
\<close>

section \<open>Buckets\<close>

text \<open>Upper bounds; the last bucket, \<open>float("inf")\<close>, is \<open>None\<close>.\<close>

definition TIME :: "rat option list" where
  "TIME = map Some [1 / 10000, 11 / 20000, 1 / 1000, 7 / 2500, 23 / 5000, 4 / 625, 41 / 5000, 1 / 100, 7 / 250, 23
     / 500, 8 / 125, 41 / 500, 1 / 10, 2 / 5, 7 / 10, 1, 4, 7, 10] @ [None]"

definition BYTES :: "rat option list" where
  "BYTES = map Some [8, 22, 36, 50, 64, 176, 288, 400, 512, 1408, 2304, 3200, 4096, 11264, 18432, 25600, 32768,
     90112, 147456, 204800] @ [None]"

definition TOKEN_GRANT_AGE :: "rat option list" where
  "TOKEN_GRANT_AGE = map Some [3600, 21600, 86400, 259200, 604800, 1209600, 2592000, 5184000, 7776000, 10368000, 12960000,
     15552000, 18144000, 31536000] @ [None]"

definition RETRY_BUCKETS :: "rat option list" where
  "RETRY_BUCKETS = map Some [1, 2, 3, 4, 5, 6, 7, 8, 9, 10] @ [None]"

section \<open>Status labels\<close>

text \<open>\<open>HTTPStatus(code).name\<close>\<close>

definition status_names :: "(http_status \<times> string) list" where
  "status_names = [(100, ''CONTINUE''), (101, ''SWITCHING_PROTOCOLS''), (102, ''PROCESSING''), (103,
     ''EARLY_HINTS''), (200, ''OK''), (201, ''CREATED''), (202, ''ACCEPTED''), (203,
     ''NON_AUTHORITATIVE_INFORMATION''), (204, ''NO_CONTENT''), (205, ''RESET_CONTENT''), (206,
     ''PARTIAL_CONTENT''), (207, ''MULTI_STATUS''), (208, ''ALREADY_REPORTED''), (226, ''IM_USED''),
     (300, ''MULTIPLE_CHOICES''), (301, ''MOVED_PERMANENTLY''), (302, ''FOUND''), (303, ''SEE_OTHER''),
     (304, ''NOT_MODIFIED''), (305, ''USE_PROXY''), (307, ''TEMPORARY_REDIRECT''), (308,
     ''PERMANENT_REDIRECT''), (400, ''BAD_REQUEST''), (401, ''UNAUTHORIZED''), (402,
     ''PAYMENT_REQUIRED''), (403, ''FORBIDDEN''), (404, ''NOT_FOUND''), (405, ''METHOD_NOT_ALLOWED''),
     (406, ''NOT_ACCEPTABLE''), (407, ''PROXY_AUTHENTICATION_REQUIRED''), (408, ''REQUEST_TIMEOUT''),
     (409, ''CONFLICT''), (410, ''GONE''), (411, ''LENGTH_REQUIRED''), (412, ''PRECONDITION_FAILED''),
     (413, ''REQUEST_ENTITY_TOO_LARGE''), (414, ''REQUEST_URI_TOO_LONG''), (415,
     ''UNSUPPORTED_MEDIA_TYPE''), (416, ''REQUESTED_RANGE_NOT_SATISFIABLE''), (417,
     ''EXPECTATION_FAILED''), (418, ''IM_A_TEAPOT''), (421, ''MISDIRECTED_REQUEST''), (422,
     ''UNPROCESSABLE_ENTITY''), (423, ''LOCKED''), (424, ''FAILED_DEPENDENCY''), (425, ''TOO_EARLY''),
     (426, ''UPGRADE_REQUIRED''), (428, ''PRECONDITION_REQUIRED''), (429, ''TOO_MANY_REQUESTS''), (431,
     ''REQUEST_HEADER_FIELDS_TOO_LARGE''), (451, ''UNAVAILABLE_FOR_LEGAL_REASONS''), (500,
     ''INTERNAL_SERVER_ERROR''), (501, ''NOT_IMPLEMENTED''), (502, ''BAD_GATEWAY''), (503,
     ''SERVICE_UNAVAILABLE''), (504, ''GATEWAY_TIMEOUT''), (505, ''HTTP_VERSION_NOT_SUPPORTED''), (506,
     ''VARIANT_ALSO_NEGOTIATES''), (507, ''INSUFFICIENT_STORAGE''), (508, ''LOOP_DETECTED''), (510,
     ''NOT_EXTENDED''), (511, ''NETWORK_AUTHENTICATION_REQUIRED'')]"


definition status_name :: "http_status \<Rightarrow> string" where
  "status_name code = (case map_of status_names code of None \<Rightarrow> [] | Some n \<Rightarrow> n)"

definition status_phrase :: "http_status \<Rightarrow> string" where
  "status_phrase code = ''http_'' @ map (\<lambda>c. if c = CHR '' '' \<or> c = CHR ''-'' then CHR ''_'' else c)
     (map lower_char (status_name code))"

text \<open>\<open>status\<close> with its dictionary \<open>HTTP_STATUS_LABELS\<close> of labels already made.\<close>

type_synonym status_labels = "(http_status \<times> string) list"

definition status_label :: "http_status \<Rightarrow> status_labels \<Rightarrow> string \<times> status_labels" where
  "status_label code cache =
     (let cache = (if map_of cache code = None then AList.update code (status_phrase code) cache else cache)
      in (the (map_of cache code), cache))"

section \<open>The registry\<close>

datatype metric =
    DBErrorCounter | DBLatencyHistorgram | ServerErrorCounter | ServerLatencyHistogram
  | ServerRequestSizeHistogram | ServerResponseSizeHistogram | ClientErrorCounter
  | ClientRetryHistogram | ClientAttemptCounter | ClientRetryDecisionCounter
  | ClientLatencyHistogram | ClientResponseSizeHistogram | BuildInfoGauge
  | RefreshTokenInvalidationCounter | WorkaroundCounter | TokenGrantAgeHistogram | TokenStateGauge

fun metric_name :: "metric \<Rightarrow> string" where
  "metric_name DBErrorCounter = ''oauth_database_error_total''"
| "metric_name DBLatencyHistorgram = ''oauth_database_latency_seconds''"
| "metric_name ServerErrorCounter = ''oauth_server_error_total''"
| "metric_name ServerLatencyHistogram = ''oauth_server_latency_seconds''"
| "metric_name ServerRequestSizeHistogram = ''oauth_server_request_bytes''"
| "metric_name ServerResponseSizeHistogram = ''oauth_server_response_bytes''"
| "metric_name ClientErrorCounter = ''oauth_client_error_total''"
| "metric_name ClientRetryHistogram = ''oauth_client_retries''"
| "metric_name ClientAttemptCounter = ''oauth_client_attempts''"
| "metric_name ClientRetryDecisionCounter = ''oauth_client_retry_decisions''"
| "metric_name ClientLatencyHistogram = ''oauth_client_latency_seconds''"
| "metric_name ClientResponseSizeHistogram = ''oauth_client_response_bytes''"
| "metric_name BuildInfoGauge = ''oauth_build_info''"
| "metric_name RefreshTokenInvalidationCounter = ''oauth_refresh_token_invalidations_total''"
| "metric_name WorkaroundCounter = ''oauth_workarounds_total''"
| "metric_name TokenGrantAgeHistogram = ''oauth_token_grant_age_seconds''"
| "metric_name TokenStateGauge = ''oauth_token_records''"

definition BuildInfoLabels :: "string list" where
  "BuildInfoLabels = [''service_name'', ''service_namespace'', ''service_instance_id'',
     ''deployment_environment'', ''oauth_provider'', ''service_version'', ''vcs_revision'']"

fun label_names :: "metric \<Rightarrow> string list" where
  "label_names DBErrorCounter = [''query'', ''error'']"
| "label_names DBLatencyHistorgram = [''query'']"
| "label_names ServerErrorCounter = [''endpoint'', ''status'', ''error'']"
| "label_names ServerLatencyHistogram = [''endpoint'', ''status'']"
| "label_names ServerRequestSizeHistogram = [''endpoint'', ''status'']"
| "label_names ServerResponseSizeHistogram = [''endpoint'', ''status'']"
| "label_names ClientErrorCounter = [''endpoint'', ''status'', ''error'']"
| "label_names ClientRetryHistogram = [''endpoint'', ''status'']"
| "label_names ClientAttemptCounter = [''endpoint'', ''kind'']"
| "label_names ClientRetryDecisionCounter = [''endpoint'', ''decision'', ''reason'']"
| "label_names ClientLatencyHistogram = [''endpoint'', ''status'']"
| "label_names ClientResponseSizeHistogram = [''endpoint'', ''status'']"
| "label_names BuildInfoGauge = BuildInfoLabels"
| "label_names RefreshTokenInvalidationCounter = [''reason'']"
| "label_names WorkaroundCounter = [''workaround'']"
| "label_names TokenGrantAgeHistogram = []"
| "label_names TokenStateGauge = [''state'']"

text \<open>Empty for counters and gauges.\<close>

fun metric_buckets :: "metric \<Rightarrow> rat option list" where
  "metric_buckets DBLatencyHistorgram = TIME"
| "metric_buckets ServerLatencyHistogram = TIME"
| "metric_buckets ServerRequestSizeHistogram = BYTES"
| "metric_buckets ServerResponseSizeHistogram = BYTES"
| "metric_buckets ClientRetryHistogram = RETRY_BUCKETS"
| "metric_buckets ClientLatencyHistogram = TIME"
| "metric_buckets ClientResponseSizeHistogram = BYTES"
| "metric_buckets TokenGrantAgeHistogram = TOKEN_GRANT_AGE"
| "metric_buckets _ = []"

text \<open>
  The state: the series of the registry, the label cache, and the registries made for multiprocess
  directories, each named by its directory.
\<close>

type_synonym series = "metric \<times> string list \<Rightarrow> rat list"

record telemetry =
  samples :: series
  status_label_cache :: status_labels
  collectors :: "string list"

definition no_telemetry :: telemetry where
  "no_telemetry = \<lparr> samples = (\<lambda>_. []), status_label_cache = [], collectors = [] \<rparr>"

text \<open>\<open>metric.labels(**kwargs)\<close> raises unless the names are exactly those declared.\<close>

definition labels :: "metric \<Rightarrow> string dict \<Rightarrow> string list res" where
  "labels m kw = (if set (dict_keys kw) = set (label_names m) \<and> length kw = length (label_names m)
     then Inr (map (\<lambda>n. the (map_of kw n)) (label_names m)) else Inl ValueError)"

definition record_sample :: "metric \<Rightarrow> string dict \<Rightarrow> (rat list \<Rightarrow> rat list) \<Rightarrow> telemetry \<Rightarrow> telemetry res" where
  "record_sample m kw f t = bindR (labels m kw) (\<lambda>l.
     Inr (t\<lparr>samples := (samples t)((m, l) := f (samples t (m, l)))\<rparr>))"

definition inc :: "metric \<Rightarrow> string dict \<Rightarrow> telemetry \<Rightarrow> telemetry res" where
  "inc m kw = record_sample m kw (\<lambda>xs. xs @ [1])"

definition observe :: "metric \<Rightarrow> string dict \<Rightarrow> rat \<Rightarrow> telemetry \<Rightarrow> telemetry res" where
  "observe m kw x = record_sample m kw (\<lambda>xs. xs @ [x])"

definition set_gauge :: "metric \<Rightarrow> string dict \<Rightarrow> rat \<Rightarrow> telemetry \<Rightarrow> telemetry res" where
  "set_gauge m kw x = record_sample m kw (\<lambda>_. [x])"

text \<open>What is exported of a series.\<close>

definition counter_value :: "telemetry \<Rightarrow> metric \<Rightarrow> string list \<Rightarrow> rat" where
  "counter_value t m l = sum_list (samples t (m, l))"

definition bucket_count :: "telemetry \<Rightarrow> metric \<Rightarrow> string list \<Rightarrow> rat option \<Rightarrow> nat" where
  "bucket_count t m l b = length (filter (\<lambda>x. case b of None \<Rightarrow> True | Some u \<Rightarrow> x \<le> u) (samples t (m, l)))"

section \<open>The recording functions\<close>

definition status_in :: "http_status \<Rightarrow> telemetry \<Rightarrow> string \<times> telemetry" where
  "status_in code t = (let (s, cache) = status_label code (status_label_cache t) in (s, t\<lparr>status_label_cache := cache\<rparr>))"

definition status_or_unknown :: "http_status option \<Rightarrow> telemetry \<Rightarrow> string \<times> telemetry" where
  "status_or_unknown code t = (case code of None \<Rightarrow> (''unknown'', t) | Some c \<Rightarrow> status_in c t)"

definition record_database_latency :: "string \<Rightarrow> rat \<Rightarrow> telemetry \<Rightarrow> telemetry res" where
  "record_database_latency name duration = observe DBLatencyHistorgram [(''query'', name)] duration"

definition record_database_error :: "string \<Rightarrow> string \<Rightarrow> telemetry \<Rightarrow> telemetry res" where
  "record_database_error name error = inc DBErrorCounter [(''query'', name), (''error'', error)]"

definition record_server_error :: "string \<Rightarrow> http_status \<Rightarrow> string \<Rightarrow> telemetry \<Rightarrow> telemetry res" where
  "record_server_error endpoint code error t =
     (let (s, t) = status_in code t
      in inc ServerErrorCounter [(''endpoint'', endpoint), (''status'', s), (''error'', error)] t)"

definition record_client_attempt :: "string \<Rightarrow> string \<Rightarrow> telemetry \<Rightarrow> telemetry res" where
  "record_client_attempt endpoint kind = inc ClientAttemptCounter [(''endpoint'', endpoint), (''kind'', kind)]"

definition record_retry_decision :: "string \<Rightarrow> string \<Rightarrow> string \<Rightarrow> telemetry \<Rightarrow> telemetry res" where
  "record_retry_decision endpoint decision reason = inc ClientRetryDecisionCounter
     [(''endpoint'', endpoint), (''decision'', decision), (''reason'', reason)]"

definition record_client_error :: "string \<Rightarrow> http_status option \<Rightarrow> string \<Rightarrow> telemetry \<Rightarrow> telemetry res" where
  "record_client_error endpoint code error t =
     (let (s, t) = status_or_unknown code t
      in inc ClientErrorCounter [(''endpoint'', endpoint), (''status'', s), (''error'', error)] t)"

definition record_client_retries :: "string \<Rightarrow> http_status option \<Rightarrow> nat \<Rightarrow> telemetry \<Rightarrow> telemetry res" where
  "record_client_retries endpoint code count t =
     (let (s, t) = status_or_unknown code t
      in observe ClientRetryHistogram [(''endpoint'', endpoint), (''status'', s)] (of_nat count) t)"

definition record_client_response ::
    "string \<Rightarrow> string + http_status \<Rightarrow> rat \<Rightarrow> nat option \<Rightarrow> telemetry \<Rightarrow> telemetry res" where
  "record_client_response endpoint code duration len t =
     (let (s, t) = (case code of Inl label \<Rightarrow> (label, t) | Inr c \<Rightarrow> status_in c t);
          kw = [(''endpoint'', endpoint), (''status'', s)]
      in bindR (case len of None \<Rightarrow> Inr t | Some n \<Rightarrow> observe ClientResponseSizeHistogram kw (of_nat n) t)
           (observe ClientLatencyHistogram kw duration))"

definition record_refresh_token_invalidation :: "string \<Rightarrow> telemetry \<Rightarrow> telemetry res" where
  "record_refresh_token_invalidation reason = inc RefreshTokenInvalidationCounter [(''reason'', reason)]"

definition record_workaround :: "string \<Rightarrow> telemetry \<Rightarrow> telemetry res" where
  "record_workaround workaround = inc WorkaroundCounter [(''workaround'', workaround)]"

text \<open>\<open>finalize_metrics\<close>: the two lengths are those of the headers of response and request, if any.\<close>

definition finalize_metrics ::
    "string \<Rightarrow> int \<Rightarrow> rat \<Rightarrow> string option \<Rightarrow> nat option \<Rightarrow> telemetry \<Rightarrow> telemetry res" where
  "finalize_metrics endpoint status_code request_latency response_content_length content_length t =
     bindR (HTTPStatus status_code) (\<lambda>code.
     let (s, t) = status_in code t; kw = [(''endpoint'', endpoint), (''status'', s)] in
     bindR (observe ServerLatencyHistogram kw request_latency t) (\<lambda>t.
     bindR (case response_content_length of
              None \<Rightarrow> Inr t
            | Some l \<Rightarrow> bindR (int_of_str l) (\<lambda>n. observe ServerResponseSizeHistogram kw (of_int n) t)) (\<lambda>t.
       case content_length of
         None \<Rightarrow> Inr t
       | Some n \<Rightarrow> observe ServerRequestSizeHistogram kw (of_nat n) t)))"

text \<open>
  \<open>endpoint\<close>, on the endpoint of the matched rule; and \<open>export_metrics\<close>: the registry that is exported,
  by its directory; a new one is kept.
\<close>

definition request_endpoint :: "string option \<Rightarrow> string" where
  "request_endpoint matched = (case matched of None \<Rightarrow> ''notfound'' | Some e \<Rightarrow> e)"

definition export_metrics :: "string option \<Rightarrow> telemetry \<Rightarrow> string option \<times> telemetry" where
  "export_metrics multiproc_dir t = (case multiproc_dir of
     None \<Rightarrow> (None, t)
   | Some d \<Rightarrow> (Some d, if d \<in> set (collectors t) then t else t\<lparr>collectors := d # collectors t\<rparr>))"

definition set_build_info :: "string dict \<Rightarrow> telemetry \<Rightarrow> telemetry res" where
  "set_build_info build_info_labels = set_gauge BuildInfoGauge build_info_labels 1"

fun set_token_state_counts :: "(string \<times> nat) list \<Rightarrow> telemetry \<Rightarrow> telemetry res" where
  "set_token_state_counts [] t = Inr t"
| "set_token_state_counts ((state, count) # counts) t =
     bindR (set_gauge TokenStateGauge [(''state'', state)] (of_nat count) t) (set_token_state_counts counts)"

section \<open>From events to metrics\<close>

text \<open>
  The call made at each event, in a request to the route \<open>endpoint\<close>; the latency of a response is not
  part of its event and given beside it.  The other events are not metrics of this registry.
\<close>

fun meter :: "string \<Rightarrow> rat \<Rightarrow> event \<Rightarrow> telemetry \<Rightarrow> telemetry res" where
  "meter endpoint latency (AttemptMade ep kind) = record_client_attempt ep (attempt_kind_value kind)"
| "meter endpoint latency (RetryDecided ep action reason) =
     record_retry_decision ep (retry_action_value action) (retry_reason_value reason)"
| "meter endpoint latency (ClientResponse ep code len) = record_client_response ep code latency len"
| "meter endpoint latency (ClientError ep code error) = record_client_error ep (Some code) error"
| "meter endpoint latency (ClientRetries ep code count) = record_client_retries ep code count"
| "meter endpoint latency (ServerError code error) = record_server_error endpoint code error"
| "meter endpoint latency (TokenInvalidated reason) = record_refresh_token_invalidation reason"
| "meter endpoint latency (WorkaroundServed workaround) = record_workaround workaround"
| "meter endpoint latency (GrantAge age) = observe TokenGrantAgeHistogram [] age"
| "meter endpoint latency (DbError name error) = record_database_error name error"
| "meter endpoint latency (TokenStates present revoked) =
     set_token_state_counts [(''present'', present), (''revoked'', revoked)]"
| "meter endpoint latency _ = Inr"

fun meter_all :: "string \<Rightarrow> (nat \<Rightarrow> rat) \<Rightarrow> event list \<Rightarrow> telemetry \<Rightarrow> telemetry res" where
  "meter_all endpoint latency [] t = Inr t"
| "meter_all endpoint latency (e # es) t =
     bindR (meter endpoint (latency (length es)) e t) (meter_all endpoint latency es)"

section \<open>Status labels are transparent\<close>

lemma status_names_complete: "map fst status_names = status_codes"
  by code_simp

definition cache_ok :: "status_labels \<Rightarrow> bool" where
  "cache_ok cache \<longleftrightarrow> (\<forall>c s. map_of cache c = Some s \<longrightarrow> s = status_phrase c)"

lemma status_label_ok:
  assumes "cache_ok cache"
  shows "fst (status_label code cache) = status_phrase code" and "cache_ok (snd (status_label code cache))"
  using assms by (auto simp: status_label_def cache_ok_def Let_def update_conv split: if_splits)

definition label_char :: "char \<Rightarrow> bool" where
  "label_char c \<longleftrightarrow> c = CHR ''_'' \<or> 97 \<le> (of_char c :: nat) \<and> (of_char c :: nat) \<le> 122"

lemma name_chars: "list_all (\<lambda>(c, n). list_all (\<lambda>x. x = CHR ''_'' \<or> is_upper x) n) status_names"
  by code_simp

lemma names_distinct: "distinct (map snd status_names)"
  by code_simp

lemma status_name_listed:
  assumes "c \<in> set status_codes"
  shows "(c, status_name c) \<in> set status_names"
proof -
  have "c \<in> fst ` set status_names" using assms status_names_complete by (metis list.set_map)
  then obtain n where "map_of status_names c = Some n" by (metis map_of_eq_None_iff not_None_eq)
  then show ?thesis by (simp add: status_name_def map_of_SomeD)
qed

definition name_char :: "char \<Rightarrow> bool" where
  "name_char x \<longleftrightarrow> x = CHR ''_'' \<or> is_upper x"

lemma status_name_chars: "c \<in> set status_codes \<Longrightarrow> x \<in> set (status_name c) \<Longrightarrow> name_char x"
  using name_chars status_name_listed by (fastforce simp: list_all_iff name_char_def)

lemma lower_name_char:
  assumes "name_char x"
  shows "label_char (lower_char x)" and "lower_char x \<noteq> CHR '' ''" and "lower_char x \<noteq> CHR ''-''"
proof -
  have code: "of_char (lower_char x) = (if is_upper x then of_char x + 32 else (of_char x :: nat))"
    by (auto simp: lower_char_def is_upper_def)
  show label: "label_char (lower_char x)"
    using assms code by (auto simp: label_char_def name_char_def is_upper_def lower_char_def)
  have "\<not> label_char (CHR '' '')" "\<not> label_char (CHR ''-'')" by (simp_all add: label_char_def)
  with label show "lower_char x \<noteq> CHR '' ''" "lower_char x \<noteq> CHR ''-''" by auto
qed

lemma lower_inj: "inj_on lower_char (Collect name_char)"
proof (rule inj_onI)
  fix x y assume "x \<in> Collect name_char" "y \<in> Collect name_char" and eq: "lower_char x = lower_char y"
  then have c: "name_char x" "name_char y" by simp_all
  have code: "of_char (lower_char z) = (if 65 \<le> (of_char z :: nat) \<and> (of_char z :: nat) \<le> 90
      then of_char z + 32 else (of_char z :: nat))" for z
    by (auto simp: lower_char_def is_upper_def)
  have range: "65 \<le> (of_char z :: nat) \<and> (of_char z :: nat) \<le> 90 \<or> (of_char z :: nat) = 95" if "name_char z" for z
    using that by (auto simp: name_char_def is_upper_def)
  have num: "a = b" if "(if 65 \<le> a \<and> a \<le> 90 then a + 32 else a) = (if 65 \<le> b \<and> b \<le> 90 then b + 32 else b)"
      "65 \<le> a \<and> a \<le> 90 \<or> a = 95" "65 \<le> b \<and> b \<le> 90 \<or> b = 95" for a b :: nat
    using that by (auto split: if_splits)
  have "(of_char x :: nat) = of_char y"
    by (rule num [OF _ range [OF c(1)] range [OF c(2)]]) (metis code eq)
  then show "x = y" by (rule iffD1 [OF of_char_eq_iff])
qed

lemma status_phrase_name:
  "c \<in> set status_codes \<Longrightarrow> status_phrase c = ''http_'' @ map lower_char (status_name c)"
  using lower_name_char status_name_chars by (auto simp: status_phrase_def)

lemma status_phrase_inj: "inj_on status_phrase (set status_codes)"
proof (rule inj_onI)
  fix c d assume c: "c \<in> set status_codes" and d: "d \<in> set status_codes" and "status_phrase c = status_phrase d"
  then have "map lower_char (status_name c) = map lower_char (status_name d)" by (simp add: status_phrase_name)
  moreover have "inj_on lower_char (set (status_name c) \<union> set (status_name d))"
    by (rule inj_on_subset [OF lower_inj]) (use status_name_chars c d in auto)
  ultimately have "status_name c = status_name d" using map_inj_on by blast
  with status_name_listed [OF c] status_name_listed [OF d] names_distinct show "c = d"
    by (metis distinct_map inj_on_eq_iff prod.inject snd_conv)
qed

section \<open>Recording never raises\<close>

text \<open>The labels of the calls are the declared ones, so a call appends to one series.\<close>

lemmas record_defs = record_database_latency_def record_database_error_def record_server_error_def
  record_client_attempt_def record_retry_decision_def record_client_error_def record_client_retries_def
  record_client_response_def record_refresh_token_invalidation_def record_workaround_def
  inc_def observe_def record_sample_def labels_def

definition grown :: "telemetry \<Rightarrow> telemetry \<Rightarrow> bool" where
  "grown t t' \<longleftrightarrow> (\<forall>m l. m = TokenStateGauge \<or> prefix (samples t (m, l)) (samples t' (m, l)))
     \<and> (cache_ok (status_label_cache t) \<longrightarrow> cache_ok (status_label_cache t')) \<and> collectors t' = collectors t"

lemma grown_refl [simp]: "grown t t"
  by (simp add: grown_def)

lemma grown_trans: "grown t t' \<Longrightarrow> grown t' t'' \<Longrightarrow> grown t t''"
  unfolding grown_def by (metis prefix_order.order_trans)

lemma status_in_facts:
  "samples (snd (status_in c t)) = samples t" "collectors (snd (status_in c t)) = collectors t"
  "cache_ok (status_label_cache t) \<Longrightarrow> cache_ok (status_label_cache (snd (status_in c t)))"
  "cache_ok (status_label_cache t) \<Longrightarrow> fst (status_in c t) = status_phrase c"
  using status_label_ok [of "status_label_cache t" c] by (simp_all add: status_in_def case_prod_beta)

lemma status_in_grown: "status_in c t = (s, t') \<Longrightarrow> grown t t'"
  using status_in_facts(1,2) [of c t] status_in_facts(3) [of t c] by (auto simp: grown_def)

lemma appended_grown: "grown t (t\<lparr>samples := (samples t)((m, l) := samples t (m, l) @ xs)\<rparr>)"
  by (simp add: grown_def)

lemma record_appends:
  assumes "set (dict_keys kw) = set (label_names m)" and "length kw = length (label_names m)"
  shows "\<exists>t'. observe m kw x t = Inr t' \<and> grown t t'" and "\<exists>t'. inc m kw t = Inr t' \<and> grown t t'"
  using assms appended_grown by (auto simp: observe_def inc_def record_sample_def labels_def)

lemma meter_grows: "\<exists>t'. meter endpoint latency e t = Inr t' \<and> grown t t'"
proof (cases e)
  case (AttemptMade ep k)
  then show ?thesis
    using record_appends(2) [of "[(''endpoint'', ep), (''kind'', attempt_kind_value k)]" ClientAttemptCounter t]
    by (auto simp: record_client_attempt_def dict_keys_def)
next
  case (RetryDecided ep a r)
  then show ?thesis
    using record_appends(2) [of "[(''endpoint'', ep), (''decision'', retry_action_value a), (''reason'', retry_reason_value r)]"
        ClientRetryDecisionCounter t]
    by (auto simp: record_retry_decision_def dict_keys_def)
next
  case (ClientResponse ep code len)
  obtain s t1 where s: "(case code of Inl label \<Rightarrow> (label, t) | Inr c \<Rightarrow> status_in c t) = (s, t1)" by fastforce
  then have t1: "grown t t1" using status_in_grown by (auto split: sum.splits)
  let ?kw = "[(''endpoint'', ep), (''status'', s)]"
  obtain t2 where t2: "(case len of None \<Rightarrow> Inr t1 | Some n \<Rightarrow> observe ClientResponseSizeHistogram ?kw (of_nat n) t1) = Inr t2"
      "grown t1 t2"
    using record_appends(1) [of ?kw ClientResponseSizeHistogram _ t1] by (cases len) (auto simp: dict_keys_def)
  obtain t3 where "observe ClientLatencyHistogram ?kw latency t2 = Inr t3" "grown t2 t3"
    using record_appends(1) [of ?kw ClientLatencyHistogram latency t2] by (auto simp: dict_keys_def)
  then have "meter endpoint latency e t = Inr t3"
    using t2(1) by (simp add: ClientResponse record_client_response_def s Let_def)
  moreover have "grown t t3" using t1 t2(2) \<open>grown t2 t3\<close> grown_trans by blast
  ultimately show ?thesis by blast
next
  case (ClientError ep code err)
  obtain s t1 where s: "status_in code t = (s, t1)" by fastforce
  then show ?thesis
    using ClientError status_in_grown [OF s] grown_trans
      record_appends(2) [of "[(''endpoint'', ep), (''status'', s), (''error'', err)]" ClientErrorCounter t1]
    by (auto simp: record_client_error_def status_or_unknown_def dict_keys_def)
next
  case (ClientRetries ep code n)
  obtain s t1 where s: "status_or_unknown code t = (s, t1)" by fastforce
  then have "grown t t1" using status_in_grown by (auto simp: status_or_unknown_def split: option.splits)
  then show ?thesis
    using ClientRetries s grown_trans
      record_appends(1) [of "[(''endpoint'', ep), (''status'', s)]" ClientRetryHistogram "of_nat n" t1]
    by (auto simp: record_client_retries_def dict_keys_def)
next
  case (ServerError code err)
  obtain s t1 where s: "status_in code t = (s, t1)" by fastforce
  then show ?thesis
    using ServerError status_in_grown [OF s] grown_trans
      record_appends(2) [of "[(''endpoint'', endpoint), (''status'', s), (''error'', err)]" ServerErrorCounter t1]
    by (auto simp: record_server_error_def dict_keys_def)
next
  case (TokenInvalidated r)
  then show ?thesis
    using record_appends(2) [of "[(''reason'', r)]" RefreshTokenInvalidationCounter t]
    by (auto simp: record_refresh_token_invalidation_def dict_keys_def)
next
  case (WorkaroundServed r)
  then show ?thesis
    using record_appends(2) [of "[(''workaround'', r)]" WorkaroundCounter t]
    by (auto simp: record_workaround_def dict_keys_def)
next
  case (GrantAge a)
  then show ?thesis
    using record_appends(1) [of "[]" TokenGrantAgeHistogram a t] by (auto simp: dict_keys_def)
next
  case (TokenStates p r)
  then show ?thesis by (auto simp: set_gauge_def record_sample_def labels_def dict_keys_def grown_def)
next
  case (DbError n err)
  then show ?thesis
    using record_appends(2) [of "[(''query'', n), (''error'', err)]" DBErrorCounter t]
    by (auto simp: record_database_error_def dict_keys_def)
qed simp_all

lemma meter_all_grows: "\<exists>t'. meter_all endpoint latency es t = Inr t' \<and> grown t t'"
proof (induction es arbitrary: t)
  case (Cons e es)
  obtain t1 where "meter endpoint (latency (length es)) e t = Inr t1" "grown t t1" using meter_grows by blast
  moreover obtain t2 where "meter_all endpoint latency es t1 = Inr t2" "grown t1 t2" using Cons by blast
  ultimately show ?case using grown_trans by auto
qed simp

text \<open>Recording in two parts; the latencies count from the end.\<close>

lemma meter_all_append:
  "meter_all endpoint latency (es @ fs) t =
     bindR (meter_all endpoint (\<lambda>n. latency (n + length fs)) es t) (meter_all endpoint latency fs)"
proof (induction es arbitrary: t)
  case (Cons e es)
  then show ?case by (cases "meter endpoint (latency (length (es @ fs))) e t") simp_all
qed simp

text \<open>The series that an event counts in, and the metrics it changes at all.\<close>

fun counted :: "string \<Rightarrow> event \<Rightarrow> (metric \<times> string list) option" where
  "counted endpoint (AttemptMade ep kind) = Some (ClientAttemptCounter, [ep, attempt_kind_value kind])"
| "counted endpoint (RetryDecided ep action reason) =
     Some (ClientRetryDecisionCounter, [ep, retry_action_value action, retry_reason_value reason])"
| "counted endpoint (ClientError ep code error) = Some (ClientErrorCounter, [ep, status_phrase code, error])"
| "counted endpoint (ServerError code error) = Some (ServerErrorCounter, [endpoint, status_phrase code, error])"
| "counted endpoint (TokenInvalidated reason) = Some (RefreshTokenInvalidationCounter, [reason])"
| "counted endpoint (WorkaroundServed workaround) = Some (WorkaroundCounter, [workaround])"
| "counted endpoint (DbError name error) = Some (DBErrorCounter, [name, error])"
| "counted endpoint _ = None"

fun touches :: "event \<Rightarrow> metric list" where
  "touches (AttemptMade _ _) = [ClientAttemptCounter]"
| "touches (RetryDecided _ _ _) = [ClientRetryDecisionCounter]"
| "touches (ClientResponse _ _ _) = [ClientResponseSizeHistogram, ClientLatencyHistogram]"
| "touches (ClientError _ _ _) = [ClientErrorCounter]"
| "touches (ClientRetries _ _ _) = [ClientRetryHistogram]"
| "touches (ServerError _ _) = [ServerErrorCounter]"
| "touches (TokenInvalidated _) = [RefreshTokenInvalidationCounter]"
| "touches (WorkaroundServed _) = [WorkaroundCounter]"
| "touches (GrantAge _) = [TokenGrantAgeHistogram]"
| "touches (DbError _ _) = [DBErrorCounter]"
| "touches (TokenStates _ _) = [TokenStateGauge]"
| "touches _ = []"

definition is_counter :: "metric \<Rightarrow> bool" where
  "is_counter m \<longleftrightarrow> m \<in> {DBErrorCounter, ServerErrorCounter, ClientErrorCounter, ClientAttemptCounter,
     ClientRetryDecisionCounter, RefreshTokenInvalidationCounter, WorkaroundCounter}"

lemma recorded_elsewhere:
  "inc m kw t = Inr t' \<Longrightarrow> m \<noteq> n \<Longrightarrow> samples t' (n, l) = samples t (n, l)"
  "observe m kw x t = Inr t' \<Longrightarrow> m \<noteq> n \<Longrightarrow> samples t' (n, l) = samples t (n, l)"
  "set_gauge m kw x t = Inr t' \<Longrightarrow> m \<noteq> n \<Longrightarrow> samples t' (n, l) = samples t (n, l)"
  by (auto simp: inc_def observe_def set_gauge_def record_sample_def labels_def bindR_eq_Inr split: if_splits)

lemma status_or_unknown_samples: "samples (snd (status_or_unknown c t)) = samples t"
  by (simp add: status_or_unknown_def status_in_facts split: option.split)

lemma meter_inert:
  assumes "meter endpoint latency e t = Inr t'" and "m \<notin> set (touches e)"
  shows "samples t' (m, l) = samples t (m, l)"
proof (cases e)
  case (ClientResponse ep code len)
  obtain s t1 where s: "(case code of Inl label \<Rightarrow> (label, t) | Inr c \<Rightarrow> status_in c t) = (s, t1)" by fastforce
  then have "samples t1 = samples t"
    using status_in_facts(1) by (cases code) (auto, metis snd_conv)
  moreover obtain t2 where "(case len of None \<Rightarrow> Inr t1
      | Some n \<Rightarrow> observe ClientResponseSizeHistogram [(''endpoint'', ep), (''status'', s)] (of_nat n) t1) = Inr t2"
      "observe ClientLatencyHistogram [(''endpoint'', ep), (''status'', s)] latency t2 = Inr t'"
    using assms(1) by (auto simp: ClientResponse record_client_response_def s bindR_eq_Inr Let_def)
  ultimately show ?thesis
    using recorded_elsewhere(2) [of ClientLatencyHistogram _ latency t2 t' m l]
      recorded_elsewhere(2) [of ClientResponseSizeHistogram _ _ t1 t2 m l] assms(2)
    by (cases len) (auto simp: ClientResponse)
qed (use assms in \<open>auto simp: record_client_attempt_def record_retry_decision_def record_client_error_def
      record_client_retries_def record_server_error_def record_refresh_token_invalidation_def
      record_workaround_def record_database_error_def case_prod_beta status_in_facts
      status_or_unknown_samples bindR_eq_Inr
    dest!: recorded_elsewhere [where n = m and l = l]\<close>)

lemma meter_all_inert:
  assumes "meter_all endpoint latency es t = Inr t'" and "list_all (\<lambda>e. m \<notin> set (touches e)) es"
  shows "samples t' (m, l) = samples t (m, l)"
  using assms
proof (induction es arbitrary: t)
  case (Cons e es)
  then obtain t1 where t1: "meter endpoint (latency (length es)) e t = Inr t1"
    and "meter_all endpoint latency es t1 = Inr t'" by (auto simp: bindR_eq_Inr)
  with Cons show ?case using meter_inert [OF t1] by simp
qed simp

lemma inc_counts:
  assumes "inc m kw t = Inr t'"
  shows "counter_value t' n l = counter_value t n l
    + of_bool (n = m \<and> l = map (\<lambda>k. the (map_of kw k)) (label_names m))"
  using assms by (auto simp: inc_def record_sample_def labels_def bindR_eq_Inr counter_value_def split: if_splits)

lemma counter_value_cong: "samples t' = samples t \<Longrightarrow> counter_value t' = counter_value t"
  by (simp add: counter_value_def fun_eq_iff)

lemma meter_counts:
  assumes "meter endpoint latency e t = Inr t'" and "cache_ok (status_label_cache t)" and "is_counter m"
  shows "counter_value t' m l = counter_value t m l + of_bool (counted endpoint e = Some (m, l))"
proof (cases "counted endpoint e")
  case None
  then have "m \<notin> set (touches e)" using assms(3) by (cases e) (auto simp: is_counter_def)
  with None meter_inert [OF assms(1)] show ?thesis by (simp add: counter_value_def)
next
  case (Some ml)
  then show ?thesis
    using assms(1,2) by (cases e)
      (auto simp: record_client_attempt_def record_retry_decision_def record_client_error_def
        record_server_error_def record_refresh_token_invalidation_def record_workaround_def
        record_database_error_def case_prod_beta status_or_unknown_def status_in_facts
        counter_value_cong [OF status_in_facts(1)] dest!: inc_counts [where n = m and l = l])
qed

lemma meter_all_counts:
  assumes "meter_all endpoint latency es t = Inr t'" and "cache_ok (status_label_cache t)" and "is_counter m"
  shows "counter_value t' m l = counter_value t m l + of_nat (count_list (map (counted endpoint) es) (Some (m, l)))"
  using assms(1,2)
proof (induction es arbitrary: t)
  case (Cons e es)
  then obtain t1 where t1: "meter endpoint (latency (length es)) e t = Inr t1"
    and rest: "meter_all endpoint latency es t1 = Inr t'" by (auto simp: bindR_eq_Inr)
  have "cache_ok (status_label_cache t1)"
    using meter_grows [of endpoint "latency (length es)" e t] t1 Cons.prems(2) by (auto simp: grown_def)
  from Cons.IH [OF rest this] meter_counts [OF t1 Cons.prems(2) assms(3), of l] show ?case by simp
qed simp

section \<open>Properties\<close>

text \<open>
  The label of a status does not depend on the labels made before it: whatever cache of labels the
  process has built up, different registered statuses get different labels, the same status gets
  the same one, and labels are made of lower case letters and underscores.
\<close>
theorem status_labels_sound:
  assumes "cache_ok cache" and "cache_ok cache'" and "c \<in> set status_codes" and "d \<in> set status_codes"
  shows "(fst (status_label c cache) = fst (status_label d cache') \<longleftrightarrow> c = d)
    \<and> list_all label_char (fst (status_label c cache)) \<and> cache_ok (snd (status_label c cache))"
proof -
  have "list_all label_char (status_phrase c)"
    using status_phrase_name [OF assms(3)] lower_name_char(1) status_name_chars [OF assms(3)]
    by (auto simp: list_all_iff label_char_def)
  moreover have "status_phrase c = status_phrase d \<longleftrightarrow> c = d"
    using status_phrase_inj assms(3,4) by (auto dest: inj_onD)
  ultimately show ?thesis using status_label_ok assms(1,2) by simp
qed

theorem status_labels_sound_witness:
  "fst (status_label 404 []) = ''http_not_found''
   \<and> fst (status_label 404 [(404, ''http_not_found'')]) \<noteq> fst (status_label 503 [])"
proof -
  have phrase: "status_phrase 404 = ''http_not_found''" by code_simp
  have ok: "cache_ok []" "cache_ok [(404, ''http_not_found'')]" by (auto simp: cache_ok_def phrase)
  have "404 \<in> set status_codes" "503 \<in> set status_codes" by (simp_all add: status_codes_def)
  from status_labels_sound [OF ok(2,1) this] status_label_ok(1) [OF ok(1), of 404] phrase
  show ?thesis by simp
qed


text \<open>
  Counters count: each counter series is raised by the number of events that belong to it, the
  series of an event being its metric with the labels of the event, the status among them by its
  name; nothing else changes a counter.
\<close>
theorem counters_count_events:
  assumes "meter_all endpoint latency es t = Inr t'" and "cache_ok (status_label_cache t)" and "is_counter m"
  shows "counter_value t' m l = counter_value t m l + of_nat (count_list (map (counted endpoint) es) (Some (m, l)))"
  using assms by (rule meter_all_counts)

theorem counters_count_events_witness:
  "\<exists>t'. meter_all ''token'' (\<lambda>_. 0) [ServerError 503 ''e'', WorkaroundServed ''x'', ServerError 503 ''e''] no_telemetry = Inr t'
     \<and> counter_value t' ServerErrorCounter [''token'', ''http_service_unavailable'', ''e''] = 2"
proof -
  let ?es = "[ServerError 503 ''e'', WorkaroundServed ''x'', ServerError 503 ''e'']"
  obtain t' where t': "meter_all ''token'' (\<lambda>_. 0) ?es no_telemetry = Inr t'"
    using meter_all_grows by blast
  have "cache_ok (status_label_cache no_telemetry)" by (simp add: cache_ok_def no_telemetry_def)
  moreover have "status_phrase 503 = ''http_service_unavailable''" by code_simp
  ultimately have "counter_value t' ServerErrorCounter [''token'', ''http_service_unavailable'', ''e''] = 2"
    using counters_count_events [OF t', of ServerErrorCounter "[''token'', ''http_service_unavailable'', ''e'']"]
    by (simp add: is_counter_def counter_value_def no_telemetry_def)
  with t' show ?thesis by blast
qed

definition bound_le :: "rat option \<Rightarrow> rat option \<Rightarrow> bool" where
  "bound_le a b \<longleftrightarrow> (case b of None \<Rightarrow> True | Some y \<Rightarrow> (case a of None \<Rightarrow> False | Some x \<Rightarrow> x \<le> y))"

lemma length_filter_mono: "(\<And>x. P x \<Longrightarrow> Q x) \<Longrightarrow> length (filter P xs) \<le> length (filter Q xs)"
  by (induction xs) (auto intro: le_SucI)

lemma bucket_count_mono: "bound_le a b \<Longrightarrow> bucket_count t m l a \<le> bucket_count t m l b"
  unfolding bucket_count_def bound_le_def
  by (rule length_filter_mono) (auto split: option.splits)

lemma buckets_sorted: "sorted_wrt bound_le (metric_buckets m)"
  by (cases m) (simp_all add: TIME_def BYTES_def RETRY_BUCKETS_def TOKEN_GRANT_AGE_def bound_le_def)

lemma buckets_last: "metric_buckets m = [] \<or> last (metric_buckets m) = None"
  by (cases m) (simp_all add: TIME_def BYTES_def RETRY_BUCKETS_def TOKEN_GRANT_AGE_def)

text \<open>
  Every histogram is well formed: its bucket counts grow along the declared bounds, and the last
  bucket counts every observation, so none is lost above the largest bound.
\<close>
theorem histograms_cumulative:
  "sorted (map (bucket_count t m l) (metric_buckets m))
   \<and> (metric_buckets m = [] \<or> last (map (bucket_count t m l) (metric_buckets m)) = length (samples t (m, l)))"
proof -
  have "sorted (map (bucket_count t m l) (metric_buckets m))"
    using buckets_sorted [of m] unfolding sorted_map
    by (rule sorted_wrt_mono_rel [rotated]) (simp add: bucket_count_mono)
  moreover have "last (map (bucket_count t m l) (metric_buckets m)) = length (samples t (m, l))"
    if "metric_buckets m \<noteq> []"
    using that buckets_last [of m] by (simp add: last_map bucket_count_def)
  ultimately show ?thesis by blast
qed

end
