(* ===== verification/Service_Events.thy ===== *)
theory Service_Events
  imports Token_Flow
begin

text \<open>
  Which events the parts of a token request write.  Many properties of traces have the same shape:
  every event of a request satisfies a predicate that holds of all events but a few.  The locale
  \<open>event_filter\<close> is the interface of such a predicate; what the operations write follows once, for
  all of them.
\<close>

text \<open>The events that lookups, updates, fetches and the handling of grants write.\<close>

fun service_event :: "event \<Rightarrow> bool" where
  "service_event (ServerError _ _) = False"
| "service_event (ClientIdSet _) = False"
| "service_event (InvalidClientIdSeen _) = False"
| "service_event (TokenStates _ _) = False"
| "service_event (RequestMeasured _) = False"
| "service_event _ = True"

locale event_filter =
  fixes P :: "event \<Rightarrow> bool"
  assumes admits: "service_event e \<Longrightarrow> P e"
begin

lemma writes_admitted [keeps_intros]: "service_event e \<Longrightarrow> effect_within (writes P) (emit e)"
  by (intro keeps_intros admits)

lemma writes_cursor [keeps_intros]:
  "effect_within (writes P) body \<Longrightarrow> effect_within (writes P) (cursor E s name t own body)"
  unfolding cursor_def by (intro keeps_intros admits; simp)

lemma writes_table [keeps_intros]:
  "effect_within (writes P) (lookup_token E s cid)" "effect_within (writes P) (update_token E s cid u)"
  "effect_within (writes P) (crypto_dumps E k v)" "effect_within (writes P) (observe_token_grant_age E created)"
  unfolding lookup_token_def update_token_def crypto_dumps_def observe_token_grant_age_def
  by (intro keeps_intros admits; simp)+

lemma writes_fetch [keeps_intros]: "effect_within (writes P) (fetch E F uri ep auth data)"
proof (rule writes_extends [OF effect_fetch])
  show "fetch_event ep rq limit e \<Longrightarrow> P e" for rq limit e by (rule admits) (cases e; simp)
qed

lemma writes_grant [keeps_intros]:
  "effect_within (on_world (writes P)) (lookup_grant E S cid)"
  "effect_within (on_world (writes P)) (decrypt_grant E c encrypted)"
  "effect_within (on_world (writes P)) (revoked_grant E S rq)"
  "effect_within (on_world (writes P)) (refresh_failed E S cid result oc)"
  "effect_within (on_world (writes P)) (refresh_succeeded E S c rec d rd)"
  unfolding lookup_grant_def decrypt_grant_def revoked_grant_def refresh_failed_def refresh_succeeded_def
    Let_def case_prod_beta
  by (intro keeps_intros admits; simp)+

lemma writes_refresh [keeps_intros]: "effect_within (on_world (writes P)) (refresh_grant E S c rec d)"
  unfolding refresh_grant_def case_prod_beta by (intro keeps_intros)

lemma writes_served [keeps_intros]:
  "effect_within (on_world (writes P)) (seqA (lookup_grant E S (cc_client_id c)) (serve_grant E S rq c))"
  by (intro keeps_intros)

lemma writes_token:
  "effect_within (on_world (writes P)) (request_credentials E rq) \<Longrightarrow> effect_within (on_world (writes P)) (token E S rq)"
  unfolding token_def by (intro keeps_intros)

end

text \<open>A filter that also admits answers with an error, and the end of a request.\<close>

locale answer_filter = event_filter +
  assumes admits_error: "P (ServerError c err)" and admits_end: "P (RequestMeasured c)"
begin

lemma writes_answer [keeps_intros]:
  "effect_within (writes P) (error_handler S x)" "effect_within (writes P) fallback_error_handler"
  unfolding error_handler_def fallback_error_handler_def Let_def
  by (intro keeps_intros admits_error)+

lemma writes_exception [keeps_intros]: "effect_within (on_world (writes P)) (handle_exception S e)"
  unfolding handle_exception_def by (cases e) (auto intro!: keeps_intros)

lemma writes_handle:
  "effect_within (on_world (writes P)) (view E S route rq) \<Longrightarrow> effect_within (on_world (writes P)) (handle E S route rq)"
  unfolding handle_def by (intro keeps_intros admits_end)

end

end
