(* ===== verification/Metrics_Flow.thy ===== *)
theory Metrics_Flow
  imports Metrics Service_Events Token_Liveness Background_Refresh
begin

text \<open>
  What the metrics say about the service: the attempt counters against the requests that were sent,
  the error counter against the answers of the token endpoint, the token gauge against the table.
\<close>

section \<open>Attempts and requests\<close>

fun attempted :: "event list \<Rightarrow> nat" where
  "attempted [] = 0"
| "attempted (AttemptMade _ _ # es) = Suc (attempted es)"
| "attempted (_ # es) = attempted es"

lemma attempted_append [simp]: "attempted (xs @ ys) = attempted xs + attempted ys"
  by (induction xs rule: attempted.induct) simp_all

text \<open>Steps between the counting of an attempt and its request.\<close>

definition level :: "world \<Rightarrow> world \<Rightarrow> bool" where
  "level w w' \<longleftrightarrow> (\<exists>es. trace w' = trace w @ es \<and> sent es = 0 \<and> attempted es = 0)"

lemma level_refl [keeps_intros]: "reflp level"
  by (auto simp: reflp_def level_def)

lemma level_trans [keeps_intros]: "transp level"
  by (rule transpI) (fastforce simp: level_def)

lemma level_steps [keeps_intros]:
  "sent [e] = 0 \<Longrightarrow> attempted [e] = 0 \<Longrightarrow> effect_within level (emit e)"
  "effect_within level (wall_time E)" "effect_within level (monotonic E)"
  "effect_within level (uniform E a b)" "effect_within level (sleep d)"
  "effect_within level (consume_budget x)"
  by (auto simp: effect_within_def act_simps sleep_def level_def)

lemma level_parse_retry [keeps_intros]: "effect_within level (parse_retry E v)"
  unfolding parse_retry_def by (intro keeps_intros)

lemma level_parts:
  "effect_within level (fetch_failed E ep e resp')" "effect_within level (fetch_responded E F ep resp)"
  "effect_within level (conclude_attempt F ep v)" "effect_within level (finish_fetch E ep v)"
  "effect_within level (retry_gate E F a ep dl b v (rem :: rat))"
  unfolding fetch_failed_def fetch_responded_def conclude_attempt_def finish_fetch_def retry_gate_def
    skip_decision_def jitter_delay_def Let_def case_prod_beta
  by (intro keeps_intros; simp)+

lemma level_rule: "effect_within level m \<Longrightarrow> wp m (\<lambda>_ w'. level w w') (\<lambda>_ w'. level w w') w"
  by (simp add: wp_effect)

text \<open>How many attempts were counted without a request.\<close>

definition unsent :: "world \<Rightarrow> int" where
  "unsent w = int (attempted (trace w)) - int (sent (trace w))"

lemma level_unsent: "level w w' \<Longrightarrow> unsent w' = unsent w"
  by (auto simp: level_def unsent_def)

lemma level_effect_unsent:
  assumes "effect_within level m" and "unsent w = c"
  shows "wp m (\<lambda>_ w'. unsent w' = c) (\<lambda>_ w'. unsent w' = c) w"
  by (rule wp_mono [OF level_rule [OF assms(1)]]) (use assms(2) level_unsent in auto)

lemma once_unsent:
  assumes "unsent w = c + 1"
  shows "wp (fetch_once E F rq r ep) (\<lambda>_ w'. unsent w' = c) (\<lambda>_ w'. unsent w' = c) w"
  unfolding fetch_once_def wp_simps
  using assms by (auto simp: wp_simps unsent_def split: send_outcome.split
      intro!: level_effect_unsent [unfolded unsent_def] level_parts)

lemma attempt_unsent:
  assumes "unsent w = c"
  shows "wp (attempt E F rq ep v r)
     (\<lambda>fl w'. unsent w' = c \<or> unsent w' = c + 1 \<and> (\<forall>v'. fl \<noteq> Continue v')) (\<lambda>_ w'. unsent w' = c) w"
proof -
  have u: "unsent (w\<lparr>trace := trace w @ [AttemptMade ep k]\<rparr>) = c + 1" for k using assms by (simp add: unsent_def)
  have conc: "wp (conclude_attempt F ep v') (\<lambda>fl w'. unsent w' = unsent w1
        \<or> unsent w' = unsent w1 + 1 \<and> (\<forall>v'. fl \<noteq> Continue v'))
      (\<lambda>_ w'. unsent w' = unsent w1) w1" for v' w1
    by (rule wp_mono [OF level_effect_unsent [OF level_parts(3) refl]]) auto
  show ?thesis
  proof (cases "r \<le> 0")
    case True
    then show ?thesis
      using assms unfolding attempt_def skip_decision_def by (auto simp: wp_simps unsent_def)
  next
    case False
    then show ?thesis
      unfolding attempt_def by (auto simp: wp_simps intro!: wp_mono [OF once_unsent [OF u]] conc)
  qed
qed

lemma body_unsent:
  assumes "unsent w = c"
  shows "wp (loop_body E F a rq ep dl i v)
     (\<lambda>fl w'. unsent w' = c \<or> unsent w' = c + 1 \<and> (\<forall>v'. fl \<noteq> Continue v')) (\<lambda>_ w'. unsent w' = c) w"
proof (rule body_rule [where G = "\<lambda>_ w'. unsent w' = c"])
  show "wp (retry_gate E F a ep dl b v r) (\<lambda>_ w'. unsent w' = c) (\<lambda>_ w'. unsent w' = c)
      (w\<lparr>clock := x, ticks := y\<rparr>)" for b r x y
    by (rule level_effect_unsent [OF level_parts(5)]) (use assms in \<open>simp add: unsent_def\<close>)
qed (auto intro: attempt_unsent)

lemma fetch_unsent:
  "wp (fetch E F uri ep auth data) (\<lambda>_ w'. unsent w' \<in> {unsent w, unsent w + 1})
     (\<lambda>_ w'. unsent w' \<in> {unsent w, unsent w + 1}) w"
proof (rule fetch_rule [where J = "\<lambda>_ w'. unsent w' \<in> {unsent w, unsent w + 1}"], unfold Let_def, goal_cases)
  case (1 a h x)
  show ?case
  proof (rule fetch_loop_rule [where I = "\<lambda>_ _ _ w'. unsent w' = unsent w"], goal_cases)
    case (1 n i v y)
    show ?case by (rule wp_mono [OF body_unsent [OF 1]]) (auto split: flow.split)
  next
    case (2 i v y)
    then show ?case by (auto simp: wp_simps skip_decision_def unsent_def split: option.split)
  qed (simp add: unsent_def)
next
  case (2 v w')
  show ?case by (rule wp_mono [OF level_effect_unsent [OF level_parts(4) refl]]) (use 2 in auto)
qed

lemma attempted_kinds:
  "list_all (fetch_event ep rq limit) es \<Longrightarrow>
     count_list (map (counted route) es) (Some (ClientAttemptCounter, [ep, attempt_kind_value AK_INITIAL]))
     + count_list (map (counted route) es) (Some (ClientAttemptCounter, [ep, attempt_kind_value AK_RETRY])) = attempted es"
proof (induction es)
  case (Cons e es)
  then show ?case by (cases e) (auto, (metis attempt_kind_value.simps retry_attempt_kind.exhaust)+)
qed simp

text \<open>
  C23. The attempt counters account for the traffic to the provider: a fetch raises the two counters
  of its endpoint, for first attempts and for retries, together by the number of requests it sends,
  or by one more, for an attempt that is given up because the deadline has passed.
\<close>
theorem attempts_count_requests:
  assumes "fetch E F uri ep auth data w = (r, w')" and "trace w' = trace w @ es"
    and "meter_all route latency es t = Inr t'" and "cache_ok (status_label_cache t)"
  shows "\<exists>d \<in> {0, 1}. (\<Sum>k \<leftarrow> [AK_INITIAL, AK_RETRY]. counter_value t' ClientAttemptCounter [ep, attempt_kind_value k])
    = (\<Sum>k \<leftarrow> [AK_INITIAL, AK_RETRY]. counter_value t ClientAttemptCounter [ep, attempt_kind_value k])
      + of_nat (sent es) + d"
proof -
  let ?n = "\<lambda>k. count_list (map (counted route) es) (Some (ClientAttemptCounter, [ep, attempt_kind_value k]))"
  have "unsent w' \<in> {unsent w, unsent w + 1}"
    using fetch_unsent [of E F uri ep auth data w] assms(1) by (auto simp: wp_def split: sum.splits)
  then have n: "attempted es = sent es \<or> attempted es = sent es + 1" using assms(2) by (auto simp: unsent_def)
  have "\<exists>limit. list_all (fetch_event ep \<lparr> rq_uri = uri, rq_auth = auth, rq_data = data \<rparr> limit) es"
    using effect_withinD [OF effect_fetch assms(1)] assms(2) by (auto simp: extends_def)
  then have "?n AK_INITIAL + ?n AK_RETRY = attempted es" using attempted_kinds by blast
  then have "(of_nat (?n AK_INITIAL) + of_nat (?n AK_RETRY) :: rat) = of_nat (attempted es)"
    by (metis of_nat_add)
  with n show ?thesis
    using meter_all_counts [OF assms(3,4), of ClientAttemptCounter] by (auto simp: is_counter_def)
qed

theorem attempts_count_requests_witness:
  "\<exists>t'. meter_all ''token'' (\<lambda>_. 0) (trace (snd flaky_fetch)) no_telemetry = Inr t'
     \<and> (\<Sum>k \<leftarrow> [AK_INITIAL, AK_RETRY]. counter_value t' ClientAttemptCounter [''token'', attempt_kind_value k]) \<in> {2, 3}"
proof -
  have run: "fetch flaky_env fetch_defaults ''https://p/token'' ''token'' None [] initial_world
      = (fst flaky_fetch, snd flaky_fetch)"
    by (simp add: flaky_fetch_def)
  have tr: "trace (snd flaky_fetch) = trace initial_world @ trace (snd flaky_fetch)"
    by (simp add: initial_world_def)
  obtain t' where t': "meter_all ''token'' (\<lambda>_. 0) (trace (snd flaky_fetch)) no_telemetry = Inr t'"
    using meter_all_grows by blast
  have "cache_ok (status_label_cache no_telemetry)" by (simp add: cache_ok_def no_telemetry_def)
  from attempts_count_requests [OF run tr t' this] flaky_run
  have "(\<Sum>k \<leftarrow> [AK_INITIAL, AK_RETRY]. counter_value t' ClientAttemptCounter [''token'', attempt_kind_value k]) \<in> {2, 3}"
    by (auto simp: no_telemetry_def counter_value_def)
  with t' show ?thesis by blast
qed

section \<open>Errors of the token endpoint\<close>

fun unerring :: "event \<Rightarrow> bool" where
  "unerring (ServerError _ _) = False"
| "unerring _ = True"

fun errors_in :: "event list \<Rightarrow> (http_status \<times> string) list" where
  "errors_in [] = []"
| "errors_in (ServerError c err # es) = (c, err) # errors_in es"
| "errors_in (_ # es) = errors_in es"

lemma errors_in_append [simp]: "errors_in (xs @ ys) = errors_in xs @ errors_in ys"
  by (induction xs rule: errors_in.induct) simp_all

lemma unerring_none: "list_all unerring es \<Longrightarrow> errors_in es = []"
  by (induction es rule: errors_in.induct) simp_all

interpretation unerring: event_filter unerring
proof
  show "service_event e \<Longrightarrow> unerring e" for e by (cases e) simp_all
qed

lemma unerring_token: "effect_within (on_world (writes unerring)) (token E S rq)"
  by (rule unerring.writes_token, unfold request_credentials_def Let_def case_prod_beta)
    (intro keeps_intros; simp)

text \<open>An error answer: its body names the error, and the status is not a success.\<close>

definition error_answer :: "web_response \<Rightarrow> string \<Rightarrow> bool" where
  "error_answer r err \<longleftrightarrow> 400 \<le> rsp_status r
     \<and> (\<exists>d. rsp_body r = Json_Body (JObj d) \<and> map_of d ''error'' = Some (JStr err))"

definition counted_answer :: "event list \<Rightarrow> web_response \<Rightarrow> world \<Rightarrow> bool" where
  "counted_answer es r w \<longleftrightarrow> (\<exists>err fs. trace w = es @ fs \<and> errors_in fs = [(rsp_status r, err)] \<and> error_answer r err)"

lemma fallback_counted:
  "wp fallback_error_handler (counted_answer (trace w)) (\<lambda>_ _. False) w"
  by (simp add: fallback_error_handler_def wp_simps error_json_def or_description_def error_description_def
      counted_answer_def error_answer_def jsonify_def)

lemma error_handler_counted:
  "wp (error_handler S e) (counted_answer (trace w)) (\<lambda>_ w'. trace w' = trace w) w"
  by (auto simp: error_handler_def wp_simps Let_def counted_answer_def error_answer_def jsonify_def
      set_header_def split: sum.splits)

lemma handle_exception_counted:
  "wp (handle_exception S e) (\<lambda>r (w', s'). counted_answer (trace w) r w') (\<lambda>_ _. False) (w, s)"
proof (cases e)
  case (Oauth x)
  have "wp fallback_error_handler (counted_answer (trace w)) (\<lambda>_ _. False) w'" if "trace w' = trace w" for w'
    using fallback_counted [of w'] that by simp
  then show ?thesis
    unfolding handle_exception_def Oauth
    by (simp add: wp_simps) (rule wp_mono [OF error_handler_counted]; simp)
next
  case (Raised x)
  then show ?thesis using fallback_counted [of w] by (simp add: handle_exception_def wp_simps)
qed

definition counted_once :: "event list \<Rightarrow> web_response \<Rightarrow> world \<Rightarrow> bool" where
  "counted_once es r w \<longleftrightarrow> (\<exists>fs. trace w = es @ fs \<and> errors_in fs = []) \<and> rsp_status r = 200 \<or> counted_answer es r w"

lemma token_answers_200: "yields (\<lambda>r. rsp_status r = 200) (token E S rq)"
  unfolding token_def revoked_grant_def refresh_grant_def refresh_failed_def refresh_succeeded_def
    Let_def case_prod_beta
  by (intro yields_intros) (auto simp: jsonify_def)

lemma counted_once_later:
  assumes "counted_once es r w" and "trace w' = trace w @ fs" and "list_all unerring fs"
  shows "counted_once es (nocache r) w'"
  using assms unerring_none [OF assms(3)]
  by (fastforce simp: counted_once_def counted_answer_def error_answer_def nocache_def set_header_def)

lemma handle_token_counted:
  "wp (handle E S R_Token rq) (\<lambda>r (w', s'). counted_once (trace w) r w') (\<lambda>_ _. False) (w, s)"
proof -
  let ?T = "\<lambda>w'. \<exists>fs. trace w' = trace w @ fs \<and> list_all unerring fs"
  have view: "wp (token E S rq) (\<lambda>r (w', s'). ?T w' \<and> rsp_status r = 200) (\<lambda>_ (w', s'). ?T w') (u, s)"
    if "trace u = trace w" for u
    by (rule wp_mono [OF wp_effect_yields [OF unerring_token token_answers_200]])
      (auto simp: on_world_def writes_def that)
  have exn: "wp (handle_exception S e) (\<lambda>r (w', s'). counted_once (trace w) r w') (\<lambda>_ _. False) (u, s')"
    if "?T u" for e u s'
    by (rule wp_mono [OF handle_exception_counted])
      (use that unerring_none in \<open>fastforce simp: counted_once_def counted_answer_def\<close>)+
  have tail: "counted_once (trace w) (nocache r) (u\<lparr>ticks := n, trace := trace u @ [RequestMeasured c], db_open := b\<rparr>)"
    if "counted_once (trace w) r u" for r u n c b
    using that by (rule counted_once_later [where fs = "[RequestMeasured c]"]) simp_all
  have fin: "wp (handle_exception S e) (\<lambda>r (w', s'). counted_once (trace w) (nocache r) (w'\<lparr>ticks := Suc (ticks w'),
      trace := trace w' @ [RequestMeasured (rsp_status r)], db_open := False\<rparr>)) (\<lambda>_ _. False) (u, s')"
    if "?T u" for e u s'
    by (rule wp_mono [OF exn [OF that]]) (auto intro: tail)
  have ans: "counted_once (trace w) r u" if "?T u" "rsp_status r = 200" for r u
    using that unerring_none by (fastforce simp: counted_once_def)
  show ?thesis
    unfolding handle_def view.simps wp_seqA
    by (simp add: wp_simps close_def, rule wp_mono [OF view]) (auto intro!: tail ans fin)
qed

lemma count_errors:
  "count_list (map (counted route) es) (Some (ServerErrorCounter, [route, p, err]))
     = count_list (map (\<lambda>(c, e). (status_phrase c, e)) (errors_in es)) (p, err)"
  by (induction es rule: errors_in.induct) auto

lemma error_answer_unique: "error_answer r err \<Longrightarrow> error_answer r err' \<longleftrightarrow> err' = err"
  by (auto simp: error_answer_def)

text \<open>
  C22. Each error of the token endpoint is counted once: a request that is answered with a token
  counts no error, and one that is answered with an error counts exactly one, under the status and
  the error code of the answer.
\<close>
theorem token_errors_are_counted:
  assumes "handle E S R_Token rq (w, s) = (Inr r, (w', s'))" and "trace w' = trace w @ es"
    and "meter_all route latency es t = Inr t'" and "cache_ok (status_label_cache t)"
  shows "counter_value t' ServerErrorCounter [route, status_phrase st, err]
    = counter_value t ServerErrorCounter [route, status_phrase st, err]
      + of_bool (error_answer r err \<and> status_phrase st = status_phrase (rsp_status r))"
proof -
  have "counted_once (trace w) r w'"
    using wp_Inr [OF handle_token_counted assms(1)] by simp
  then consider "errors_in es = []" "rsp_status r = 200"
    | e where "errors_in es = [(rsp_status r, e)]" "error_answer r e"
    using assms(2) by (auto simp: counted_once_def counted_answer_def)
  then show ?thesis
  proof cases
    case 1
    then have "\<not> error_answer r err" by (simp add: error_answer_def)
    with 1 show ?thesis
      using meter_all_counts [OF assms(3,4), of ServerErrorCounter] by (simp add: is_counter_def count_errors)
  next
    case 2
    then show ?thesis
      using meter_all_counts [OF assms(3,4), of ServerErrorCounter] error_answer_unique [OF 2(2)]
      by (auto simp: is_counter_def count_errors)
  qed
qed

theorem token_errors_are_counted_witness:
  "\<exists>es t'. meter_all ''token'' (\<lambda>_. 0) es no_telemetry = Inr t'
     \<and> counter_value t' ServerErrorCounter [''token'', ''http_unauthorized'', ''invalid_client''] = 1
     \<and> counter_value t' ServerErrorCounter [''token'', ''http_bad_request'', ''invalid_client''] = 0"
proof -
  let ?E = "steady_env 400 (JObj invalid_grant_body)"
  let ?r = "nocache (client_not_known sample_settings)"
  let ?h = "handle ?E sample_settings R_Token seven_asks (fresh_world, empty_session)"
  have "grants (db fresh_world) (uuid_str (cc_client_id seven)) = None" by (rule fresh_ids)
  then have "fst ?h = Inr ?r"
    using wrong_secret_run [OF steady_env_ok(1) ready_fresh seven_is_accepted] by blast
  then have run: "?h = (Inr ?r, (fst (snd ?h), snd (snd ?h)))" by (simp add: prod_eq_iff)
  have "trace (fst (snd ?h)) = trace fresh_world @ trace (fst (snd ?h))"
    by (simp add: fresh_world_def initial_world_def)
  note run = token_errors_are_counted [OF run this]
  obtain t' where t': "meter_all ''token'' (\<lambda>_. 0) (trace (fst (snd ?h))) no_telemetry = Inr t'"
    using meter_all_grows by blast
  have ok: "cache_ok (status_label_cache no_telemetry)" by (simp add: cache_ok_def no_telemetry_def)
  have phrases: "status_phrase 401 = ''http_unauthorized''" "status_phrase 400 = ''http_bad_request''" by code_simp+
  have ans: "error_answer ?r ''invalid_client''" "rsp_status ?r = 401"
    by (simp_all add: error_answer_def client_not_known_def nocache_def set_header_def jsonify_def)
  from run [OF t' ok, of 401 "''invalid_client''"] run [OF t' ok, of 400 "''invalid_client''"] ans phrases t'
  show ?thesis by (auto simp: no_telemetry_def counter_value_def)
qed

section \<open>The token gauge\<close>

fun no_gauge :: "event \<Rightarrow> bool" where
  "no_gauge (TokenStates _ _) = False"
| "no_gauge _ = True"

lemma no_gauge_inert: "no_gauge e \<Longrightarrow> TokenStateGauge \<notin> set (touches e)"
  by (cases e) simp_all

interpretation no_gauge: event_filter no_gauge
proof
  show "service_event e \<Longrightarrow> no_gauge e" for e by (cases e) simp_all
qed

lemma no_gauge_counts: "effect_within (writes no_gauge) (token_state_counts E s)"
  unfolding token_state_counts_def token_state_counts_on_def connect_def case_prod_beta
  by (intro keeps_intros)

text \<open>The end of a refresh: the counts of the table, or the record of a failure.\<close>

definition refresh_logged :: "world \<Rightarrow> world \<Rightarrow> bool" where
  "refresh_logged w w' \<longleftrightarrow> (\<exists>fs e. trace w' = trace w @ fs @ [e] \<and> list_all no_gauge fs
     \<and> (e = Logged LL_ERROR ''Metrics refresh failed''
        \<or> db w' = db w \<and> e = TokenStates (length (filter (\<lambda>(_, r). row_token r \<noteq> None) (rows (db w))))
             (length (filter (\<lambda>(_, r). \<not> row_token r \<noteq> None) (rows (db w))))))"

lemma background_refresh_run:
  assumes "database_ok (db w)" and "faults_are E (\<lambda>e. e \<noteq> OperationalError NO_SUCH_TABLE)"
  shows "wp (refresh_metrics_in_app (app_with_refresher E S)) (\<lambda>_ w'. refresh_logged w w' \<and> \<not> db_open w')
    (\<lambda>_ _. False) w"
proof -
  have "wp (token_state_counts E (database S)) (\<lambda>(p, q) w'. writes no_gauge w w' \<and> db w' = db w
      \<and> p = length (filter (\<lambda>(_, r). row_token r \<noteq> None) (rows (db w)))
      \<and> q = length (filter (\<lambda>(_, r). \<not> row_token r \<noteq> None) (rows (db w)))) (\<lambda>_ w'. writes no_gauge w w') w"
    using token_state_counts_post [OF assms, of "database S"] no_gauge_counts [of E "database S"]
    unfolding wp_def effect_within_def by (auto split: prod.splits sum.splits) (metis snd_conv)+
  note counts = wp_mono [OF this]
  show ?thesis
    unfolding refresh_metrics_in_app_def app_with_refresher_def add_refresher_def refresh_once_def
    by (simp add: wp_simps close_def, rule counts) (fastforce simp: wp_simps refresh_logged_def writes_def)+
qed

text \<open>
  C24. The token gauge shows the table: a background refresh never raises, leaves no connection open,
  and either sets the gauge to the numbers of clients with and without a stored token, or logs that
  it failed and leaves the gauge as it was.
\<close>
theorem gauge_shows_table:
  assumes "database_ok (db w)" and "faults_are E (\<lambda>e. e \<noteq> OperationalError NO_SUCH_TABLE)"
    and "refresh_metrics_in_app (app_with_refresher E S) w = (r, w')" and "trace w' = trace w @ es"
    and "meter_all route latency es t = Inr t'"
  shows "r = Inr () \<and> \<not> db_open w'
    \<and> ((\<forall>l. samples t' (TokenStateGauge, l) = samples t (TokenStateGauge, l))
          \<and> Logged LL_ERROR ''Metrics refresh failed'' \<in> set es
       \<or> db w' = db w
          \<and> samples t' (TokenStateGauge, [''present'']) = [of_nat (card {c. \<exists>k. grants (db w) c = Some (Some k)})]
          \<and> samples t' (TokenStateGauge, [''revoked'']) = [of_nat (card {c. grants (db w) c = Some None})])"
proof -
  let ?p = "length (filter (\<lambda>(_, r). row_token r \<noteq> None) (rows (db w)))"
  let ?q = "length (filter (\<lambda>(_, r). \<not> row_token r \<noteq> None) (rows (db w)))"
  have post: "r = Inr () \<and> refresh_logged w w' \<and> \<not> db_open w'"
    using background_refresh_run [OF assms(1,2), of S] assms(3) by (auto simp: wp_def split: sum.splits)
  then obtain fs e where es: "es = fs @ [e]" and fs: "list_all no_gauge fs"
    and e: "e = Logged LL_ERROR ''Metrics refresh failed'' \<or> db w' = db w \<and> e = TokenStates ?p ?q"
    using assms(4) by (auto simp: refresh_logged_def)
  obtain t1 where t1: "meter_all route (\<lambda>n. latency (n + 1)) fs t = Inr t1" and "meter route (latency 0) e t1 = Inr t'"
    using assms(5) by (auto simp: es meter_all_append bindR_eq_Inr)
  moreover have "samples t1 (TokenStateGauge, l) = samples t (TokenStateGauge, l)" for l
    by (rule meter_all_inert [OF t1]) (use fs no_gauge_inert in \<open>auto simp: list_all_iff\<close>)
  ultimately show ?thesis
    using post e by (auto simp: es state_cards [OF assms(1)] set_gauge_def record_sample_def labels_def
        dict_keys_def bindR_eq_Inr)
qed

definition mixed_world :: world where
  "mixed_world = fresh_world\<lparr>db := \<lparr> columns = Some token_columns, rows =
     [(''a'', \<lparr> row_token = Some ''t'', row_created_at = Some 0, row_last_updated_at = Some 0 \<rparr>),
      (''b'', \<lparr> row_token = None, row_created_at = Some 0, row_last_updated_at = Some 0 \<rparr>),
      (''c'', \<lparr> row_token = None, row_created_at = Some 0, row_last_updated_at = Some 0 \<rparr>)] \<rparr>\<rparr>"

theorem gauge_shows_table_witness:
  "\<exists>es t'. meter_all ''refresh'' (\<lambda>_. 0) es no_telemetry = Inr t'
     \<and> samples t' (TokenStateGauge, [''present'']) = [1] \<and> samples t' (TokenStateGauge, [''revoked'']) = [2]"
proof -
  let ?r = "refresh_metrics_in_app (app_with_refresher sample_env sample_settings) mixed_world"
  have ok: "database_ok (db mixed_world)"
    using ready_fresh by (simp add: mixed_world_def ready_def database_ok_def has_columns_def fresh_world_def)
  have nf: "faults_are sample_env (\<lambda>e. e \<noteq> OperationalError NO_SUCH_TABLE)"
    by (simp add: faults_are_def sample_env_def)
  have tr: "trace (snd ?r) = trace mixed_world @ trace (snd ?r)"
    by (simp add: mixed_world_def fresh_world_def initial_world_def)
  obtain t' where t': "meter_all ''refresh'' (\<lambda>_. 0) (trace (snd ?r)) no_telemetry = Inr t'"
    using meter_all_grows by blast
  have log: "list_all (\<lambda>e. e \<noteq> Logged LL_ERROR ''Metrics refresh failed'') (trace (snd ?r))" by code_simp
  have "{c. \<exists>k. grants (db mixed_world) c = Some (Some k)} = {''a''}"
    "{c. grants (db mixed_world) c = Some None} = {''b'', ''c''}"
    by (auto simp: mixed_world_def grants_def split: if_splits)
  with gauge_shows_table [OF ok nf _ tr t', of sample_settings "fst ?r"] log t' show ?thesis
    by (auto simp: list_all_iff)
qed

end
