(* ===== verification/Observability.thy ===== *)
theory Observability
  imports Metrics Uri
begin

text \<open>
  \<open>telemetry/_resources.py\<close>, \<open>telemetry/_sentry.py\<close> and \<open>telemetry/_otel.py\<close>: how a process describes
  itself, what is sampled, what the hooks write on spans, and how tracing and metrics are set up.
  The OpenTelemetry and Sentry libraries are represented by what they are given.
\<close>

section \<open>The process\<close>

text \<open>
  What the code asks of its process.  The module \<open>uwsgi\<close> may be missing, its attribute \<open>worker_id\<close> may
  be missing or no function (\<open>None\<close>); otherwise the value that it returns.
\<close>

datatype uwsgi = No_Uwsgi | Uwsgi "json option"

record runtime =
  rt_gethostname :: string
  rt_getpid :: nat
  rt_get_ident :: nat
  rt_thread_name :: string
  rt_uwsgi :: uwsgi

fun uwsgi_worker_id :: "uwsgi \<Rightarrow> json option" where
  "uwsgi_worker_id (Uwsgi (Some (JInt i))) = Some (JInt i)"
| "uwsgi_worker_id (Uwsgi (Some (JBool b))) = Some (JBool b)"
| "uwsgi_worker_id _ = None"

text \<open>\<open>str(v)\<close> of an integer or truth value.\<close>

fun str_of_int :: "json \<Rightarrow> string" where
  "str_of_int (JInt i) = int_str i"
| "str_of_int (JBool b) = (if b then ''True'' else ''False'')"
| "str_of_int _ = []"

definition service_instance_id :: "runtime \<Rightarrow> telemetry_settings \<Rightarrow> string" where
  "service_instance_id R S = (case telemetry_service_instance_id S of
     Some i \<Rightarrow> i
   | None \<Rightarrow>
       let parts = [rt_gethostname R];
           parts = (case nonempty (telemetry_oauth_provider S) of None \<Rightarrow> parts | Some p \<Rightarrow> parts @ [p]);
           parts = parts @ [telemetry_deployment_environment S];
           parts = (case uwsgi_worker_id (rt_uwsgi R) of None \<Rightarrow> parts | Some v \<Rightarrow> parts @ [str_of_int v])
       in join_with ''-'' parts)"

definition resource_attributes :: "runtime \<Rightarrow> telemetry_settings \<Rightarrow> json dict" where
  "resource_attributes R S =
     [(''service.name'', JStr (telemetry_service_name S)),
      (''service.namespace'', JStr (telemetry_service_namespace S)),
      (''service.version'', JStr (telemetry_service_version S)),
      (''deployment.environment'', JStr (telemetry_deployment_environment S)),
      (''process.pid'', JInt (int (rt_getpid R)))]
     @ (if service_instance_id R S \<noteq> [] then [(''service.instance.id'', JStr (service_instance_id R S))] else [])
     @ (case nonempty (telemetry_oauth_provider S) of None \<Rightarrow> [] | Some p \<Rightarrow> [(''oauth.provider'', JStr p)])
     @ (case nonempty (telemetry_vcs_revision S) of None \<Rightarrow> [] | Some v \<Rightarrow> [(''vcs.revision'', JStr v)])"

definition runtime_log_attributes :: "runtime \<Rightarrow> json dict" where
  "runtime_log_attributes R =
     [(''process.pid'', JInt (int (rt_getpid R))), (''process.thread.id'', JInt (int (rt_get_ident R))),
      (''process.thread.name'', JStr (rt_thread_name R))]"

definition canonical_keys :: "string list" where
  "canonical_keys = [''service.name'', ''service.namespace'', ''service.version'', ''deployment.environment'',
     ''service.instance.id'', ''oauth.provider'', ''vcs.revision'', ''process.pid'']"

definition log_attributes :: "json dict \<Rightarrow> json dict" where
  "log_attributes attributes = filter (\<lambda>(key, _). key \<in> set canonical_keys) attributes"

text \<open>A span: its context, whether it records, and its attributes.\<close>

record otel_span =
  sp_recording :: bool
  sp_valid :: bool
  sp_trace_id :: "128 word"
  sp_span_id :: "64 word"
  sp_sampled :: bool
  sp_attributes :: "json dict"

definition dict_update :: "json dict \<Rightarrow> json dict \<Rightarrow> json dict" where
  "dict_update d e = fold (\<lambda>(k, v). AList.update k v) e d"

text \<open>The last argument is the resource of the tracer provider, if it has one.\<close>

definition otel_log_attributes :: "runtime \<Rightarrow> otel_span option \<Rightarrow> otel_span \<Rightarrow> json dict option \<Rightarrow> json dict" where
  "otel_log_attributes R sp current_span resource =
     (let attributes = runtime_log_attributes R;
          s = (case sp of None \<Rightarrow> current_span | Some s \<Rightarrow> s)
      in if \<not> sp_recording s then attributes
         else if \<not> sp_valid s then attributes
         else
           let attributes = dict_update attributes
                 [(''trace_id'', JStr (hex_pad 32 (unat (sp_trace_id s)))),
                  (''span_id'', JStr (hex_pad 16 (unat (sp_span_id s)))),
                  (''trace_sampled'', JBool (sp_sampled s))]
           in (case resource of None \<Rightarrow> attributes | Some r \<Rightarrow> dict_update attributes (log_attributes r)))"

definition or_unknown :: "string option \<Rightarrow> string" where
  "or_unknown v = (case nonempty v of None \<Rightarrow> ''unknown'' | Some s \<Rightarrow> s)"

definition build_info_labels :: "runtime \<Rightarrow> telemetry_settings \<Rightarrow> string dict" where
  "build_info_labels R S =
     [(''service_name'', telemetry_service_name S),
      (''service_namespace'', telemetry_service_namespace S),
      (''service_instance_id'', or_unknown (Some (service_instance_id R S))),
      (''deployment_environment'', telemetry_deployment_environment S),
      (''oauth_provider'', or_unknown (telemetry_oauth_provider S)),
      (''service_version'', telemetry_service_version S),
      (''vcs_revision'', or_unknown (telemetry_vcs_revision S))]"

section \<open>Sentry\<close>

definition traces_sampler :: "sentry_settings \<Rightarrow> json dict \<Rightarrow> rat" where
  "traces_sampler S sampling_context =
     (let path = (case map_of sampling_context ''wsgi_environ'' of
            Some (JObj environ) \<Rightarrow> map_of environ ''PATH_INFO'' | _ \<Rightarrow> None)
      in case path of
           Some (JStr p) \<Rightarrow> (case map_of (sentry_traces_sample_rate_overrides S) p of
             None \<Rightarrow> sentry_traces_sample_rate S | Some rate \<Rightarrow> rate)
         | _ \<Rightarrow> sentry_traces_sample_rate S)"

datatype sentry_integration = FlaskIntegration | LoggingIntegration "log_level option" "log_level option"

record sentry_options =
  so_dsn :: "string option"
  so_release :: string
  so_sample_rate :: rat
  so_traces_sample_rate :: rat
  so_traces_sampler :: "json dict \<Rightarrow> rat"
  so_integrations :: "sentry_integration list"
  so_instrumenter :: string

text \<open>
  \<open>init\<close> with the SDK installed or not: the options \<open>sentry_sdk.init\<close> is called with, if it is, and
  what is logged.
\<close>

definition init_sentry :: "bool \<Rightarrow> sentry_settings \<Rightarrow> sentry_options option \<times> event list" where
  "init_sentry installed S =
     (if \<not> sentry_enabled S then (None, [])
      else if \<not> installed then
        (None, [Logged LL_ERROR (''Sentry is enabled, but '' @ [CHR 0x27] @ ''sentry-sdk'' @ [CHR 0x27]
           @ '' is not installed. Please install it with '' @ [CHR 0x27]
           @ ''pip install oauthclientbridge[sentry]'' @ [CHR 0x27] @ ''.'')])
      else (Some \<lparr> so_dsn = sentry_dsn S, so_release = sentry_release S, so_sample_rate = sentry_sample_rate S,
          so_traces_sample_rate = sentry_traces_sample_rate S, so_traces_sampler = traces_sampler S,
          so_integrations = [FlaskIntegration, LoggingIntegration None None], so_instrumenter = ''otel'' \<rparr>, []))"

section \<open>What the hooks write on spans\<close>

definition set_attribute :: "string \<Rightarrow> json \<Rightarrow> otel_span \<Rightarrow> otel_span" where
  "set_attribute k v s = s\<lparr>sp_attributes := AList.update k v (sp_attributes s)\<rparr>"

text \<open>Header names of \<open>requests\<close> and of the copied Flask headers are compared without case.\<close>

definition header :: "string dict \<Rightarrow> string \<Rightarrow> string option" where
  "header hs name = map_of (rev (map (\<lambda>(k, v). (map lower_char k, v)) hs)) (map lower_char name)"

definition copy_header :: "string \<Rightarrow> string \<Rightarrow> string dict \<Rightarrow> otel_span \<Rightarrow> otel_span" where
  "copy_header name attribute hs s = (case header hs name of
     None \<Rightarrow> s | Some v \<Rightarrow> set_attribute attribute (JStr v) s)"

definition requests_response_hook :: "otel_span option \<Rightarrow> nat \<Rightarrow> string dict \<Rightarrow> otel_span option" where
  "requests_response_hook sp len headers = (case sp of
     None \<Rightarrow> None
   | Some s \<Rightarrow> if \<not> sp_recording s then Some s else Some
       (copy_header ''Retry-After'' ''http.response.header.retry_after'' headers
       (copy_header ''Content-Type'' ''http.response.header.content_type'' headers
       (copy_header ''Content-Length'' ''http.response.header.content_length'' headers
         (set_attribute ''http.response.body.size'' (JInt (int len)) s)))))"

definition flask_response_hook ::
    "(string \<Rightarrow> bool) \<Rightarrow> otel_span option \<Rightarrow> string dict \<Rightarrow> otel_span option res" where
  "flask_response_hook netloc_ok sp headers = (case sp of
     None \<Rightarrow> Inr None
   | Some s \<Rightarrow> if \<not> sp_recording s then Inr (Some s) else
       bindR (sanitize_url netloc_ok (header headers ''Location'')) (\<lambda>location.
         let s = (case location of
               None \<Rightarrow> s | Some l \<Rightarrow> set_attribute ''http.response.header.location'' (JStr l) s)
         in Inr (Some
           (copy_header ''Retry-After'' ''http.response.header.retry_after'' headers
           (copy_header ''Content-Type'' ''http.response.header.content_type'' headers
           (copy_header ''Cache-Control'' ''http.response.header.cache_control'' headers s))))))"

text \<open>\<open>wsgiref.util.request_uri\<close>; \<open>quote\<close> with \<open>encoding='latin1'\<close> quotes the characters themselves.\<close>

definition quote_latin1 :: "string \<Rightarrow> string \<Rightarrow> string" where
  "quote_latin1 safe s = concat (map (quote_byte safe) s)"

record environ =
  en_url_scheme :: string
  en_http_host :: "string option"
  en_server_name :: string
  en_server_port :: string
  en_script_name :: string
  en_path_info :: string
  en_query_string :: string

definition application_uri :: "environ \<Rightarrow> string" where
  "application_uri e =
     (let url = en_url_scheme e @ ''://'';
          url = (case nonempty (en_http_host e) of
                Some h \<Rightarrow> url @ h
              | None \<Rightarrow> url @ en_server_name e
                  @ (if en_server_port e \<noteq> (if en_url_scheme e = ''https'' then ''443'' else ''80'')
                     then '':'' @ en_server_port e else []))
      in url @ quote_latin1 ''/'' (if en_script_name e = [] then ''/'' else en_script_name e))"

definition request_uri :: "environ \<Rightarrow> string" where
  "request_uri e =
     (let url = application_uri e;
          path_info = quote_latin1 ''/;=,'' (en_path_info e);
          url = (if en_script_name e = [] then url @ tl path_info else url @ path_info)
      in if en_query_string e \<noteq> [] then url @ [CHR 0x3F] @ en_query_string e else url)"

definition flask_request_hook :: "(string \<Rightarrow> bool) \<Rightarrow> otel_span option \<Rightarrow> environ \<Rightarrow> otel_span option res" where
  "flask_request_hook netloc_ok sp environ = (case sp of
     None \<Rightarrow> Inr None
   | Some s \<Rightarrow> if \<not> sp_recording s then Inr (Some s) else
       bindR (sanitize_url netloc_ok (Some (request_uri environ))) (\<lambda>sanitized.
       case nonempty sanitized of
         None \<Rightarrow> Inr (Some (case sanitized of None \<Rightarrow> s
           | Some u \<Rightarrow> set_attribute ''url.full'' (JStr u) (set_attribute ''http.url'' (JStr u) s)))
       | Some u \<Rightarrow> bindR (urlsplit netloc_ok u) (\<lambda>parts.
           Inr (Some (set_attribute ''url.query'' (JStr (up_query parts))
             (set_attribute ''url.full'' (JStr u) (set_attribute ''http.url'' (JStr u) s)))))))"

section \<open>Setting up\<close>

datatype span_processor = Given_Processor string | Batch_OTLP "string option" | Simple_Console | Sentry_Processor

datatype propagator = Trace_Context | W3C_Baggage | Sentry_Propagator

record tracing =
  tr_resource :: "json dict"
  tr_processors :: "span_processor list"
  tr_propagators :: "propagator list"

definition init_tracing ::
    "runtime \<Rightarrow> bool \<Rightarrow> telemetry_settings \<Rightarrow> string option \<Rightarrow> tracing option" where
  "init_tracing R sentry_installed S given =
     (if TRACING \<notin> set (telemetry_components S) then None
      else Some \<lparr> tr_resource = resource_attributes R S,
        tr_processors = (case given of None \<Rightarrow> [] | Some p \<Rightarrow> [Given_Processor p])
          @ map (\<lambda>e. case e of OTLP_HTTP \<Rightarrow> Batch_OTLP (telemetry_endpoint S) | CONSOLE \<Rightarrow> Simple_Console)
              (telemetry_exporters S)
          @ (if sentry_installed then [Sentry_Processor] else []),
        tr_propagators = [Trace_Context, W3C_Baggage] @ (if sentry_installed then [Sentry_Propagator] else []) \<rparr>)"

datatype metric_reader = Given_Reader string | Periodic telemetry_exporter "string option" int

text \<open>A view: instrument name, the bounds of its buckets, and the attributes it keeps (all, if \<open>None\<close>).\<close>

record metrics_setup =
  ms_resource :: "json dict"
  ms_readers :: "metric_reader list"
  ms_views :: "(string \<times> rat option list option \<times> string list option) list"

definition metric_views :: "(string \<times> rat option list option \<times> string list option) list" where
  "metric_views =
     [(''http.*.duration'', Some TIME, None), (''http.*.size'', Some BYTES, None),
      (''oauth.db.cursor.duration'', Some TIME, Some [''db.operation'', ''error.type'']),
      (''oauth.client.duration'', Some TIME, Some [''operation'', ''final.result'', ''error.type'']),
      (''oauth.client.retries'', None, Some [''operation'', ''final.result'', ''error.type''])]"

definition init_metrics :: "runtime \<Rightarrow> telemetry_settings \<Rightarrow> string option \<Rightarrow> metrics_setup option" where
  "init_metrics R S given =
     (if METRICS \<notin> set (telemetry_components S) then None
      else
        let millis = (let x = telemetry_metric_export_interval_seconds S * 1000
                      in if x < 0 then - \<lfloor>- x\<rfloor> else \<lfloor>x\<rfloor>)
        in Some \<lparr> ms_resource = resource_attributes R S,
          ms_readers = (case given of None \<Rightarrow> [] | Some r \<Rightarrow> [Given_Reader r])
            @ map (\<lambda>e. case e of OTLP_HTTP \<Rightarrow> Periodic OTLP_HTTP (telemetry_endpoint S) millis
                 | CONSOLE \<Rightarrow> Periodic CONSOLE None millis) (telemetry_exporters S),
          ms_views = metric_views \<rparr>)"

section \<open>Spans and the query of a request\<close>

text \<open>Characters that end a host or a path, or that \<open>urlsplit\<close> drops.\<close>

definition plain_in_url :: "char \<Rightarrow> bool" where
  "plain_in_url c \<longleftrightarrow> (of_char c :: nat) \<notin> {9, 10, 13} \<and> c \<noteq> CHR 0x23"

definition no_query :: "char \<Rightarrow> bool" where
  "no_query c \<longleftrightarrow> plain_in_url c \<and> c \<noteq> CHR 0x3F"

definition in_host :: "char \<Rightarrow> bool" where
  "in_host c \<longleftrightarrow> no_query c \<and> c \<noteq> CHR ''/''"

lemma filter_plain: "list_all plain_in_url s \<Longrightarrow> filter (\<lambda>c. (of_char c :: nat) \<notin> {9, 10, 13}) s = s"
  by (induction s) (auto simp: plain_in_url_def)

lemma urlsplit_http:
  assumes scheme: "scheme = ''http'' \<or> scheme = ''https''"
    and host: "list_all in_host host" and path: "list_all no_query path" and q: "list_all plain_in_url q"
    and "q \<noteq> []"
  shows "urlsplit ok (scheme @ ''://'' @ host @ ''/'' @ path @ [CHR 0x3F] @ q)
    = (if (CHR ''['' \<in> set host) \<noteq> (CHR '']'' \<in> set host) \<or> \<not> ok host then Inl ValueError
       else Inr \<lparr> up_scheme = scheme, up_netloc = host, up_path = ''/'' @ path, up_query = q, up_fragment = [] \<rparr>)"
proof -
  let ?tail = "host @ ''/'' @ path @ [CHR 0x3F] @ q"
  have "list_all plain_in_url ?tail"
    using host path q by (auto simp: list_all_iff in_host_def no_query_def plain_in_url_def)
  then have "list_all plain_in_url (scheme @ ''://'' @ ?tail)"
    using scheme by (auto simp: plain_in_url_def)
  then have clean: "filter (\<lambda>c. (of_char c :: nat) \<notin> {9, 10, 13}) (scheme @ ''://'' @ ?tail) = scheme @ ''://'' @ ?tail"
    by (rule filter_plain)
  have strip: "dropWhile (\<lambda>c. (of_char c :: nat) \<le> 32) (scheme @ ''://'' @ ?tail) = scheme @ ''://'' @ ?tail"
    using scheme by auto
  have split1: "split_scheme (scheme @ ''://'' @ ?tail) = (scheme, ''//'' @ ?tail)"
    using scheme by (auto simp: split_scheme_def Let_def is_alpha_def scheme_char_def is_alnum_def lower_ascii_def)
  let ?stop = "\<lambda>c. c \<in> {CHR ''/'', CHR 0x3F, CHR 0x23}"
  have in_host: "\<not> ?stop c" if "c \<in> set host" for c
    using host that by (auto simp: list_all_iff in_host_def no_query_def plain_in_url_def)
  have split2: "split_netloc (''//'' @ ?tail) = (host, ''/'' @ path @ [CHR 0x3F] @ q)"
    using in_host by (simp add: split_netloc_def Let_def takeWhile_append2 dropWhile_append2)
  have no_hash: "CHR 0x23 \<notin> set (''/'' @ path @ [CHR 0x3F] @ q)"
    using path q by (auto simp: list_all_iff no_query_def plain_in_url_def)
  have in_path: "c \<noteq> CHR 0x3F" if "c \<in> set (''/'' @ path)" for c
    using path that by (auto simp: list_all_iff no_query_def)
  have "partition_at (CHR 0x3F) ((''/'' @ path) @ [CHR 0x3F] @ q) = (''/'' @ path, q)"
    using in_path unfolding partition_at_def by (subst takeWhile_append2) (auto simp: dropWhile_append2)
  then have cut: "cut_at (CHR 0x3F) (''/'' @ path @ [CHR 0x3F] @ q) = (''/'' @ path, q)"
    by (simp add: cut_at_def)
  show ?thesis
    unfolding urlsplit_def Let_def strip clean split1 split_conv split2
    using no_hash cut by (simp add: cut_at_def)
qed

lemma no_query_code: "no_query c \<longleftrightarrow> (of_char c :: nat) \<notin> {9, 10, 13, 35, 63}"
proof -
  have "c = CHR 0x23 \<longleftrightarrow> (of_char c :: nat) = of_char (CHR 0x23)" "c = CHR 0x3F \<longleftrightarrow> (of_char c :: nat) = of_char (CHR 0x3F)"
    by (simp_all only: of_char_eq_iff)
  moreover have "(of_char (CHR 0x23) :: nat) = 35" "(of_char (CHR 0x3F) :: nat) = 63" by simp_all
  ultimately have "c = CHR 0x23 \<longleftrightarrow> (of_char c :: nat) = 35" "c = CHR 0x3F \<longleftrightarrow> (of_char c :: nat) = 63" by argo+
  then show ?thesis unfolding no_query_def plain_in_url_def by simp
qed

lemma kept_no_query:
  assumes "unreserved b \<or> b \<in> set ''/;=,''"
  shows "no_query b"
proof (cases "is_alnum b")
  case True
  then show ?thesis by (auto simp: no_query_code is_alnum_def Let_def)
next
  case False
  have "list_all no_query ''_.-~/;=,''" by code_simp
  moreover have "b \<in> set ''_.-~/;=,''" using assms False by (auto simp: unreserved_def)
  ultimately show ?thesis unfolding list_all_iff by blast
qed

lemma hex_upper_no_query: "n < 16 \<Longrightarrow> no_query (hex_upper n)"
  by (auto simp: no_query_code hex_upper_def)

lemma quoted_chars: "list_all no_query (quote_latin1 safe s)" if "safe = ''/'' \<or> safe = ''/;=,''" for safe
proof -
  have hex: "no_query (hex_upper n)" if "n < 16" for n
    using that by (rule hex_upper_no_query)
  have "list_all no_query (quote_byte safe b)" for b
  proof (cases "unreserved b \<or> b \<in> set safe")
    case True
    then have "no_query b"
      using kept_no_query [of b] that by auto
    with True show ?thesis by (simp add: quote_byte_def Let_def)
  next
    case False
    have "(of_char b :: nat) < 256" by simp
    then have "(of_char b :: nat) div 16 < 16" "(of_char b :: nat) mod 16 < 16" by linarith+
    moreover have "no_query CHR 0x25" by (simp add: no_query_def plain_in_url_def)
    ultimately show ?thesis using False hex by (simp add: quote_byte_def Let_def)
  qed
  then show ?thesis by (induction s) (auto simp: quote_latin1_def)
qed

definition plain_environ :: "environ \<Rightarrow> bool" where
  "plain_environ e \<longleftrightarrow> (en_url_scheme e = ''http'' \<or> en_url_scheme e = ''https'')
     \<and> list_all in_host (case nonempty (en_http_host e) of Some h \<Rightarrow> h
         | None \<Rightarrow> en_server_name e @ '':'' @ en_server_port e)
     \<and> (en_script_name e = [] \<or> hd (en_script_name e) = CHR ''/'')"

lemma quote_latin1_slash: "quote_latin1 (CHR ''/'' # safe) (CHR ''/'' # s) = CHR ''/'' # quote_latin1 (CHR ''/'' # safe) s"
  by (simp add: quote_latin1_def quote_byte_def Let_def)

text \<open>The URL of a request: scheme, host, path and, unless it is empty, the query.\<close>

lemma request_uri_parts:
  assumes "plain_environ e"
  obtains host path where "list_all in_host host" and "list_all no_query path"
    and "\<And>q. q \<noteq> [] \<Longrightarrow> request_uri (e\<lparr>en_query_string := q\<rparr>)
      = en_url_scheme e @ ''://'' @ host @ ''/'' @ path @ [CHR 0x3F] @ q"
proof -
  define host where "host = (case nonempty (en_http_host e) of Some h \<Rightarrow> h
      | None \<Rightarrow> en_server_name e
          @ (if en_server_port e \<noteq> (if en_url_scheme e = ''https'' then ''443'' else ''80'')
             then '':'' @ en_server_port e else []))"
  have host: "list_all in_host host"
    using assms by (auto simp: plain_environ_def host_def split: option.splits)
  let ?info = "quote_latin1 ''/;=,'' (en_path_info e)"
  define path where "path = (if en_script_name e = [] then tl ?info
      else quote_latin1 ''/'' (tl (en_script_name e)) @ ?info)"
  have tl: "list_all P (tl xs)" if "list_all P xs" for P and xs :: string
    using that by (cases xs) simp_all
  have path: "list_all no_query path"
    using quoted_chars [of "''/;=,''"] quoted_chars [of "''/''"] tl by (auto simp: path_def)
  have slash: "quote_latin1 ''/'' (if en_script_name e = [] then ''/'' else en_script_name e)
      = ''/'' @ (if en_script_name e = [] then [] else quote_latin1 ''/'' (tl (en_script_name e)))"
    using assms quote_latin1_slash [of "[]"]
    by (cases "en_script_name e") (auto simp: plain_environ_def quote_latin1_def)
  have "request_uri (e\<lparr>en_query_string := q\<rparr>) = en_url_scheme e @ ''://'' @ host @ ''/'' @ path @ [CHR 0x3F] @ q"
    if "q \<noteq> []" for q
    using that slash by (auto simp: request_uri_def application_uri_def Let_def host_def path_def split: option.split)
  with host path show thesis by (rule that)
qed

lemma sanitized_uri_same:
  assumes "plain_environ e" and "q \<noteq> []" and "q' \<noteq> []" and "list_all plain_in_url q" and "list_all plain_in_url q'"
    and "map fst (parse_qsl q) = map fst (parse_qsl q')"
  shows "sanitize_url ok (Some (request_uri (e\<lparr>en_query_string := q\<rparr>)))
    = sanitize_url ok (Some (request_uri (e\<lparr>en_query_string := q'\<rparr>)))"
proof -
  obtain host path where h: "list_all in_host host" "list_all no_query path"
    and uri: "\<And>q. q \<noteq> [] \<Longrightarrow> request_uri (e\<lparr>en_query_string := q\<rparr>)
      = en_url_scheme e @ ''://'' @ host @ ''/'' @ path @ [CHR 0x3F] @ q"
    using request_uri_parts [OF assms(1)] by metis
  have scheme: "en_url_scheme e = ''http'' \<or> en_url_scheme e = ''https''"
    using assms(1) by (simp add: plain_environ_def)
  note split = urlsplit_http [OF scheme h assms(4,2), of ok] urlsplit_http [OF scheme h assms(5,3), of ok]
  define parts where "parts = (\<lambda>q. \<lparr> up_scheme = en_url_scheme e, up_netloc = host, up_path = ''/'' @ path,
    up_query = q, up_fragment = [] \<rparr>)"
  show ?thesis
  proof (cases "(CHR ''['' \<in> set host) \<noteq> (CHR '']'' \<in> set host) \<or> \<not> ok host")
    case True
    then show ?thesis unfolding uri [OF assms(2)] uri [OF assms(3)] sanitize_url_def option.case split
      by (simp only: if_True bindR_Inl)
  next
    case False
    then show ?thesis
      unfolding uri [OF assms(2)] uri [OF assms(3)]
      by (intro sanitize_same [where p = "parts q" and p' = "parts q'"]) (use split assms(2,3,6) in \<open>simp_all add: parts_def\<close>)
  qed
qed

section \<open>What a process says about itself\<close>

lemma join_with_snoc: "xs \<noteq> [] \<Longrightarrow> join_with sep (xs @ [a]) = join_with sep xs @ sep @ a"
  by (induction sep xs rule: join_with.induct) simp_all

lemma instance_id_worker:
  assumes "telemetry_service_instance_id S = None" and "rt_uwsgi R = Uwsgi (Some (JInt i))"
  shows "service_instance_id R S = join_with ''-'' ([rt_gethostname R]
    @ (case nonempty (telemetry_oauth_provider S) of None \<Rightarrow> [] | Some p \<Rightarrow> [p])
    @ [telemetry_deployment_environment S]) @ ''-'' @ int_str i"
  using assms join_with_snoc [of "[rt_gethostname R]
    @ (case nonempty (telemetry_oauth_provider S) of None \<Rightarrow> [] | Some p \<Rightarrow> [p])
    @ [telemetry_deployment_environment S]" "''-''" "int_str i"]
  by (simp add: service_instance_id_def Let_def split: option.split)

lemma int_str_minus: "(\<exists>cs. int_str k = CHR ''-'' # cs) \<longleftrightarrow> k < 0"
proof
  assume "\<exists>cs. int_str k = CHR ''-'' # cs"
  then obtain cs where cs: "int_str k = CHR ''-'' # cs" ..
  show "k < 0"
  proof (rule ccontr)
    assume "\<not> k < 0"
    then have "CHR ''-'' \<in> set (nat_str (nat k))" using cs by (simp add: int_str_def)
    then have "is_digit (CHR ''-'')" using nat_str_digits by blast
    then show False by (simp add: is_digit_def)
  qed
qed (simp add: int_str_def)

lemma int_str_inj: "int_str i = int_str j \<longleftrightarrow> i = j"
proof
  assume eq: "int_str i = int_str j"
  then have sign: "i < 0 \<longleftrightarrow> j < 0" by (simp flip: int_str_minus)
  with eq have "nat_str (nat \<bar>i\<bar>) = nat_str (nat \<bar>j\<bar>)" by (cases "i < 0") (simp_all add: int_str_def)
  then have "\<bar>i\<bar> = \<bar>j\<bar>" using digits_val_nat_str by (metis abs_ge_zero nat_0_le)
  with sign show "i = j" by linarith
qed simp

lemma labels_in_order:
  assumes "map fst kw = label_names m" and "distinct (label_names m)"
  shows "labels m kw = Inr (map snd kw)"
proof -
  have "the (map_of kw n) = v" if "(n, v) \<in> set kw" for n v
    using that assms by (metis map_of_is_SomeI option.sel)
  then have "map (\<lambda>n. the (map_of kw n)) (map fst kw) = map snd kw" by (auto simp: case_prod_beta)
  moreover have "length kw = length (label_names m)" using assms(1) by (metis length_map)
  ultimately show ?thesis by (simp add: labels_def dict_keys_def assms(1) [symmetric])
qed

definition label_values :: "runtime \<Rightarrow> telemetry_settings \<Rightarrow> string list" where
  "label_values R S = map snd (build_info_labels R S)"

lemma build_info_recorded:
  "set_build_info (build_info_labels R S) t =
     Inr (t\<lparr>samples := (samples t)((BuildInfoGauge, label_values R S) := [1])\<rparr>)"
proof -
  have "map fst (build_info_labels R S) = label_names BuildInfoGauge"
    by (simp add: build_info_labels_def BuildInfoLabels_def)
  moreover have "distinct BuildInfoLabels" by code_simp
  ultimately show ?thesis
    by (simp add: set_build_info_def set_gauge_def record_sample_def labels_in_order label_values_def)
qed

text \<open>
  Metrics and traces of different workers stay apart: unless the instance id is configured, two
  uWSGI workers of one host and deployment have different instance ids, so their build information
  is recorded in different series, and recording it never fails.
\<close>
theorem workers_are_told_apart:
  assumes "telemetry_service_instance_id S = None" and "rt_gethostname R = rt_gethostname R'"
    and "rt_uwsgi R = Uwsgi (Some (JInt i))" and "rt_uwsgi R' = Uwsgi (Some (JInt j))" and "i \<noteq> j"
  shows "service_instance_id R S \<noteq> service_instance_id R' S
    \<and> (\<exists>t1 t2 l1 l2. set_build_info (build_info_labels R S) t = Inr t1
        \<and> set_build_info (build_info_labels R' S) t1 = Inr t2
        \<and> l1 \<noteq> l2 \<and> samples t2 (BuildInfoGauge, l1) = [1] \<and> samples t2 (BuildInfoGauge, l2) = [1])"
proof -
  let ?front = "join_with ''-'' ([rt_gethostname R]
    @ (case nonempty (telemetry_oauth_provider S) of None \<Rightarrow> [] | Some p \<Rightarrow> [p])
    @ [telemetry_deployment_environment S])"
  have ids: "service_instance_id R S = ?front @ ''-'' @ int_str i" "service_instance_id R' S = ?front @ ''-'' @ int_str j"
    using instance_id_worker [OF assms(1,3)] instance_id_worker [OF assms(1,4)] assms(2) by simp_all
  then have apart: "service_instance_id R S \<noteq> service_instance_id R' S"
    and "service_instance_id R S \<noteq> []" "service_instance_id R' S \<noteq> []"
    using assms(5) int_str_inj by auto
  then have "label_values R S \<noteq> label_values R' S"
    by (simp add: label_values_def build_info_labels_def or_unknown_def nonempty_def split: list.split)
  then have "samples t2 (BuildInfoGauge, label_values R S) = [1] \<and> samples t2 (BuildInfoGauge, label_values R' S) = [1]"
    if "t2 = t1\<lparr>samples := (samples t1)((BuildInfoGauge, label_values R' S) := [1])\<rparr>"
      "t1 = t\<lparr>samples := (samples t)((BuildInfoGauge, label_values R S) := [1])\<rparr>" for t1 t2
    using that by simp
  with apart \<open>label_values R S \<noteq> label_values R' S\<close> show ?thesis unfolding build_info_recorded by blast
qed

text \<open>
  A log record under a recording span carries the ids of that span; the resource adds its description.
  Its process id is the one of the resource, taken when tracing was set up, and not the one of the
  process that writes the record.
\<close>

lemma dict_update_other: "k \<notin> fst ` set e \<Longrightarrow> map_of (dict_update d e) k = map_of d k"
  unfolding dict_update_def by (induction e arbitrary: d) (auto simp: update_conv)

lemma dict_update_simps:
  "dict_update d [] = d" "dict_update d ((k, v) # e) = dict_update (AList.update k v d) e"
  by (simp_all add: dict_update_def)

lemma log_ids:
  assumes "sp_recording s" and "sp_valid s"
  shows "map_of (otel_log_attributes R (Some s) cur res) ''trace_id'' = Some (JStr (hex_pad 32 (unat (sp_trace_id s))))"
    and "map_of (otel_log_attributes R (Some s) cur res) ''span_id'' = Some (JStr (hex_pad 16 (unat (sp_span_id s))))"
proof -
  have other: "map_of (dict_update d (log_attributes r)) k = map_of d k" if "k \<notin> set canonical_keys" for d r k
    by (rule dict_update_other) (use that in \<open>auto simp: log_attributes_def\<close>)
  show "map_of (otel_log_attributes R (Some s) cur res) ''trace_id'' = Some (JStr (hex_pad 32 (unat (sp_trace_id s))))"
    "map_of (otel_log_attributes R (Some s) cur res) ''span_id'' = Some (JStr (hex_pad 16 (unat (sp_span_id s))))"
    using assms by (simp_all add: otel_log_attributes_def Let_def other canonical_keys_def dict_update_simps
        update_conv split: option.split)
qed

lemma logged_pid_of_resource:
  assumes "sp_recording s" and "sp_valid s"
  shows "map_of (otel_log_attributes R (Some s) cur (Some (resource_attributes R' S))) ''process.pid''
    = Some (JInt (int (rt_getpid R')))"
proof -
  have "log_attributes (resource_attributes R' S) = resource_attributes R' S"
    by (auto simp: log_attributes_def resource_attributes_def canonical_keys_def split: option.split)
  moreover have "map_of (dict_update d (resource_attributes R' S)) ''process.pid'' = Some (JInt (int (rt_getpid R')))" for d
    unfolding resource_attributes_def append.simps dict_update_simps
    by (subst dict_update_other) (auto simp: update_conv split: option.splits if_splits)
  ultimately show ?thesis using assms by (simp add: otel_log_attributes_def Let_def)
qed

text \<open>
  Checked settings are enough for the exporters: with settings that passed their validators,
  every OTLP exporter is given an endpoint, and Sentry is started with a DSN or not at all.
\<close>
theorem exporters_have_endpoints:
  assumes "check_endpoint_if_otlp_http S = Inr S'" and "check_dsn_if_enabled Y = Inr Y'"
    and "init_tracing R installed S' given = Some t" and "init_metrics R S' reader = Some m"
    and "init_sentry installed Y' = (Some o', logs)"
  shows "(\<forall>e. Batch_OTLP e \<in> set (tr_processors t) \<longrightarrow> e \<noteq> None)
    \<and> (\<forall>e n. Periodic OTLP_HTTP e n \<in> set (ms_readers m) \<longrightarrow> e \<noteq> None) \<and> so_dsn o' \<noteq> None"
proof -
  have ep: "OTLP_HTTP \<in> set (telemetry_exporters S') \<Longrightarrow> telemetry_endpoint S' \<noteq> None"
    using check_endpoint_Inr [OF assms(1)] by blast
  have "e \<noteq> None" if "Batch_OTLP e \<in> set (tr_processors t)" for e
    using that ep assms(3) by (auto simp: init_tracing_def split: if_splits option.splits telemetry_exporter.splits)
  moreover have "e \<noteq> None" if "Periodic OTLP_HTTP e n \<in> set (ms_readers m)" for e n
    using that ep assms(4) by (auto simp: init_metrics_def Let_def split: if_splits option.splits telemetry_exporter.splits)
  moreover have "so_dsn o' \<noteq> None"
    using check_dsn_Inr [OF assms(2)] assms(5) by (auto simp: init_sentry_def split: if_splits)
  ultimately show ?thesis by blast
qed

section \<open>Instances\<close>

definition sample_worker :: "int \<Rightarrow> runtime" where
  "sample_worker i = \<lparr> rt_gethostname = ''host'', rt_getpid = 1, rt_get_ident = 1, rt_thread_name = ''MainThread'',
     rt_uwsgi = Uwsgi (Some (JInt i)) \<rparr>"

theorem workers_are_told_apart_witness:
  "service_instance_id (sample_worker 1) (telemetry_defaults ''1'') \<noteq> service_instance_id (sample_worker 2) (telemetry_defaults ''1'')"
proof -
  have "telemetry_service_instance_id (telemetry_defaults ''1'') = None" by (simp add: telemetry_defaults_def)
  from workers_are_told_apart [OF this, of "sample_worker 1" "sample_worker 2" 1 2 no_telemetry] show ?thesis
    by (simp add: sample_worker_def)
qed

theorem exporters_have_endpoints_witness:
  "let S = (telemetry_defaults ''1'')\<lparr>telemetry_components := [TRACING, METRICS], telemetry_exporters := [OTLP_HTTP]\<rparr>;
       Y = (sentry_defaults ''1'')\<lparr>sentry_enabled := True, sentry_dsn := Some ''dsn''\<rparr>
   in \<exists>t m o' e n. init_tracing (sample_worker 1) True S None = Some t \<and> init_metrics (sample_worker 1) S None = Some m
     \<and> fst (init_sentry True Y) = Some o' \<and> Batch_OTLP e \<in> set (tr_processors t) \<and> e \<noteq> None
     \<and> Periodic OTLP_HTTP e n \<in> set (ms_readers m) \<and> so_dsn o' \<noteq> None"
proof -
  define S where "S = (telemetry_defaults ''1'')\<lparr>telemetry_components := [TRACING, METRICS], telemetry_exporters := [OTLP_HTTP]\<rparr>"
  define Y where "Y = (sentry_defaults ''1'')\<lparr>sentry_enabled := True, sentry_dsn := Some ''dsn''\<rparr>"
  have ok: "check_endpoint_if_otlp_http S = Inr S" "check_dsn_if_enabled Y = Inr Y"
    by (simp_all add: S_def Y_def check_endpoint_if_otlp_http_def check_dsn_if_enabled_def telemetry_defaults_def)
  obtain t where t: "init_tracing (sample_worker 1) True S None = Some t" "Batch_OTLP (telemetry_endpoint S) \<in> set (tr_processors t)"
    by (simp add: init_tracing_def S_def)
  obtain m n where m: "init_metrics (sample_worker 1) S None = Some m" "Periodic OTLP_HTTP (telemetry_endpoint S) n \<in> set (ms_readers m)"
    by (simp add: init_metrics_def S_def Let_def)
  obtain o' logs where o': "init_sentry True Y = (Some o', logs)"
    by (simp add: init_sentry_def Y_def)
  from exporters_have_endpoints [OF ok t(1) m(1) o'] t m o' show ?thesis
    unfolding Let_def S_def [symmetric] Y_def [symmetric] by auto
qed

end
