(* ===== verification/Access_Logs.thy ===== *)
theory Access_Logs
  imports Observability
begin

text \<open>
  \<open>logs.py\<close>: the template of the access log line (\<open>string.Formatter\<close> of Python 3.12 with the
  \<open>get_field\<close> of the bridge), the data of an access log record, and the set-up of logging.
\<close>

section \<open>Format strings\<close>

text \<open>A piece of a format string: text, or a field with its conversion and format specification.\<close>

datatype piece = Literal string | Field string "char option" string

definition brace :: "char \<Rightarrow> bool" where
  "brace c \<longleftrightarrow> c = CHR ''{'' \<or> c = CHR ''}''"

text \<open>The name of a field and the character that ends it; the flag says whether a bracket is open.\<close>

fun parse_name :: "bool \<Rightarrow> string \<Rightarrow> (string \<times> char \<times> string) res" where
  "parse_name b [] = Inl ValueError"
| "parse_name True (c # cs) = bindR (parse_name (c \<noteq> CHR '']'') cs) (\<lambda>(n, t, r). Inr (c # n, t, r))"
| "parse_name False (c # cs) =
     (if c = CHR ''{'' then Inl ValueError
      else if c = CHR ''}'' \<or> c = CHR '':'' \<or> c = CHR ''!'' then Inr ([], c, cs)
      else bindR (parse_name (c = CHR ''['') cs) (\<lambda>(n, t, r). Inr (c # n, t, r)))"

text \<open>The format specification, with nested braces.\<close>

fun parse_spec :: "nat \<Rightarrow> string \<Rightarrow> (string \<times> string) res" where
  "parse_spec n [] = Inl ValueError"
| "parse_spec n (c # cs) =
     (if c = CHR ''}'' \<and> n = 0 then Inr ([], cs)
      else bindR (parse_spec (if c = CHR ''{'' then Suc n else if c = CHR ''}'' then n - 1 else n) cs)
        (\<lambda>(sp, r). Inr (c # sp, r)))"

definition parse_field :: "string \<Rightarrow> (piece \<times> string) res" where
  "parse_field s = bindR (parse_name False s) (\<lambda>(n, t, r).
     if t = CHR ''}'' then Inr (Field n None [], r)
     else if t = CHR '':'' then bindR (parse_spec 0 r) (\<lambda>(sp, r). Inr (Field n None sp, r))
     else (case r of
         conv # d # r' \<Rightarrow>
           if d = CHR ''}'' then Inr (Field n (Some conv) [], r')
           else if d \<noteq> CHR '':'' then Inl ValueError
           else bindR (parse_spec 0 r') (\<lambda>(sp, r). Inr (Field n (Some conv) sp, r))
       | _ \<Rightarrow> Inl ValueError))"

lemma parse_name_shorter: "parse_name b s = Inr (n, t, r) \<Longrightarrow> length r < length s"
  by (induction b s arbitrary: n t r rule: parse_name.induct)
    (fastforce simp: bindR_eq_Inr split: if_splits)+

lemma parse_spec_shorter: "parse_spec k s = Inr (sp, r) \<Longrightarrow> length r < length s"
  by (induction k s arbitrary: sp r rule: parse_spec.induct)
    (fastforce simp: bindR_eq_Inr split: if_splits)+

lemma parse_field_shorter: "parse_field s = Inr (f, r) \<Longrightarrow> length r < length s"
  by (auto simp: parse_field_def bindR_eq_Inr split: if_splits list.splits
      dest!: parse_name_shorter parse_spec_shorter)

function parse_format :: "string \<Rightarrow> piece list res" where
  "parse_format s =
     (let literal = takeWhile (\<lambda>c. \<not> brace c) s in
      case dropWhile (\<lambda>c. \<not> brace c) s of
        [] \<Rightarrow> Inr [Literal literal]
      | [c] \<Rightarrow> Inl ValueError
      | c # d # r \<Rightarrow>
          if c = d then bindR (parse_format r) (\<lambda>ps. Inr (Literal (literal @ [c]) # ps))
          else if c = CHR ''}'' then Inl ValueError
          else (case parse_field (d # r) of
              Inl e \<Rightarrow> Inl e
            | Inr (f, rest) \<Rightarrow> bindR (parse_format rest) (\<lambda>ps. Inr (Literal literal # f # ps))))"
  by pat_completeness auto
termination
proof (relation "measure length", goal_cases)
  case (2 s x c cs d r)
  have "length (dropWhile (\<lambda>c. \<not> brace c) s) \<le> length s" by (rule length_dropWhile_le)
  with 2 show ?case by (metis dual_order.strict_trans1 in_measure length_Cons lessI less_Suc_eq)
next
  case (3 s x c cs d r y f rest)
  have "length (dropWhile (\<lambda>c. \<not> brace c) s) \<le> length s" by (rule length_dropWhile_le)
  moreover have "length rest < length (d # r)" using 3 parse_field_shorter by metis
  ultimately show ?case using 3 by simp
qed simp

declare parse_format.simps [simp del]

section \<open>Formatting\<close>

text \<open>
  What the library does with a value: \<open>str\<close> of a list or dictionary, \<open>repr\<close>, \<open>ascii\<close>, \<open>repr\<close> of a
  float, and \<open>format\<close> with a format specification.
\<close>

record text_lib =
  tl_str :: "json \<Rightarrow> string"
  tl_repr :: "json \<Rightarrow> string"
  tl_ascii :: "json \<Rightarrow> string"
  tl_float :: "rat \<Rightarrow> string"
  tl_format :: "json \<Rightarrow> string \<Rightarrow> string res"

fun str_of_value :: "text_lib \<Rightarrow> json \<Rightarrow> string" where
  "str_of_value T (JStr s) = s"
| "str_of_value T (JInt i) = int_str i"
| "str_of_value T (JBool b) = (if b then ''True'' else ''False'')"
| "str_of_value T JNull = ''None''"
| "str_of_value T (JFloat t) = t"
| "str_of_value T v = tl_str T v"

definition convert_field :: "text_lib \<Rightarrow> json \<Rightarrow> char option \<Rightarrow> json res" where
  "convert_field T v conv = (case conv of
     None \<Rightarrow> Inr v
   | Some c \<Rightarrow> if c = CHR ''s'' then Inr (JStr (str_of_value T v))
       else if c = CHR ''r'' then Inr (JStr (tl_repr T v))
       else if c = CHR ''a'' then Inr (JStr (tl_ascii T v)) else Inl ValueError)"

definition format_field :: "text_lib \<Rightarrow> json \<Rightarrow> string \<Rightarrow> string res" where
  "format_field T v sp = (if sp = [] then Inr (str_of_value T v) else tl_format T v sp)"

text \<open>\<open>AccessLogFormatter.get_field\<close>\<close>

definition get_field :: "json dict \<Rightarrow> string \<Rightarrow> json" where
  "get_field kwargs field_name = (case map_of kwargs field_name of
     Some value \<Rightarrow> (if value \<noteq> JNull then value else JStr ''-'')
   | None \<Rightarrow> JStr (''{'' @ field_name @ ''}''))"

text \<open>Numbering of fields without a name; \<open>None\<close> is Python's \<open>False\<close>, set by a name of digits.\<close>

definition isdigit :: "string \<Rightarrow> bool" where
  "isdigit s \<longleftrightarrow> s \<noteq> [] \<and> list_all (\<lambda>c. is_digit c \<or> (of_char c :: nat) \<in> {178, 179, 185}) s"

definition field_index :: "string \<Rightarrow> nat option \<Rightarrow> (string \<times> nat option) res" where
  "field_index name i =
     (if name = [] then (case i of None \<Rightarrow> Inl ValueError | Some n \<Rightarrow> Inr (nat_str n, Some (Suc n)))
      else if isdigit name then
        (case i of Some (Suc n) \<Rightarrow> Inl ValueError | _ \<Rightarrow> Inr (name, None))
      else Inr (name, i))"

primrec render_pieces ::
    "(string \<Rightarrow> nat option \<Rightarrow> (string \<times> nat option) res) \<Rightarrow> text_lib \<Rightarrow> json dict \<Rightarrow> piece list
     \<Rightarrow> nat option \<Rightarrow> (string \<times> nat option) res" where
  "render_pieces expand T kwargs [] i = Inr ([], i)"
| "render_pieces expand T kwargs (p # ps) i = (case p of
     Literal t \<Rightarrow> bindR (render_pieces expand T kwargs ps i) (\<lambda>(r, i). Inr (t @ r, i))
   | Field name conv sp \<Rightarrow>
       bindR (field_index name i) (\<lambda>(name, i).
       bindR (convert_field T (get_field kwargs name) conv) (\<lambda>v.
       bindR (expand sp i) (\<lambda>(sp, i).
       bindR (format_field T v sp) (\<lambda>t.
       bindR (render_pieces expand T kwargs ps i) (\<lambda>(r, i). Inr (t @ r, i)))))))"

text \<open>The first argument counts the levels of nesting left: a format specification is itself a format.\<close>

primrec vformat ::
    "nat \<Rightarrow> text_lib \<Rightarrow> json dict \<Rightarrow> string \<Rightarrow> nat option \<Rightarrow> (string \<times> nat option) res" where
  "vformat 0 T kwargs s i = Inl ValueError"
| "vformat (Suc n) T kwargs s i =
     bindR (parse_format s) (\<lambda>ps. render_pieces (vformat n T kwargs) T kwargs ps i)"

definition format_line :: "text_lib \<Rightarrow> string \<Rightarrow> json dict \<Rightarrow> string res" where
  "format_line T template kwargs = bindR (vformat 3 T kwargs template (Some 0)) (\<lambda>(line, _). Inr line)"

section \<open>The data of an access log record\<close>

record access_request =
  ar_remote_addr :: "string option"
  ar_method :: string
  ar_data_length :: nat
  ar_route :: "string option"
  ar_protocol :: "string option"
  ar_host :: string
  ar_url :: string
  ar_path :: string
  ar_scheme :: string
  ar_user_agent :: "string option"
  ar_content_type :: "string option"
  ar_content_length :: "nat option"

record access_response =
  as_data_length :: nat
  as_status_code :: int
  as_content_length :: "nat option"
  as_content_type :: "string option"
  as_cache_control :: "string option"

definition opt_str :: "string option \<Rightarrow> json" where
  "opt_str v = (case v of None \<Rightarrow> JNull | Some s \<Rightarrow> JStr s)"

definition opt_nat :: "nat option \<Rightarrow> json" where
  "opt_nat v = (case v of None \<Rightarrow> JNull | Some n \<Rightarrow> JInt (int n))"

definition get_request_info :: "text_lib \<Rightarrow> (string \<Rightarrow> bool) \<Rightarrow> access_request \<Rightarrow> int \<Rightarrow> json dict res" where
  "get_request_info T netloc_ok req duration_ns =
     bindR (sanitize_url netloc_ok (Some (ar_url req))) (\<lambda>sanitized_url.
     bindR (case sanitized_url of None \<Rightarrow> Inr None
            | Some u \<Rightarrow> bindR (urlsplit netloc_ok u) (\<lambda>p. Inr (Some (up_query p)))) (\<lambda>query.
     Inr [(''client.address'', opt_str (ar_remote_addr req)),
          (''http.server.duration'', JFloat (tl_float T (of_int duration_ns / 1000000000))),
          (''http.request.method'', JStr (ar_method req)),
          (''http.request.body.size'', JInt (int (ar_data_length req))),
          (''http.route'', opt_str (ar_route req)),
          (''network.protocol.version'', opt_str (ar_protocol req)),
          (''server.address'', JStr (ar_host req)),
          (''url.full'', opt_str sanitized_url),
          (''url.path'', JStr (ar_path req)),
          (''url.query'', opt_str query),
          (''url.scheme'', JStr (ar_scheme req)),
          (''user_agent.original'', opt_str (ar_user_agent req)),
          (''http.request.header.content_type'', opt_str (ar_content_type req)),
          (''http.request.header.content_length'', opt_nat (ar_content_length req))]))"

definition get_response_info :: "access_response \<Rightarrow> json dict" where
  "get_response_info resp =
     [(''http.response.body.size'', JInt (int (as_data_length resp))),
      (''http.response.status_code'', JInt (as_status_code resp)),
      (''http.response.header.content_length'', opt_nat (as_content_length resp)),
      (''http.response.header.content_type'', opt_str (as_content_type resp)),
      (''http.response.header.cache_control'', opt_str (as_cache_control resp))]"

text \<open>\<open>_after_request_log_context\<close>: the message and the data of the record.\<close>

definition access_log ::
    "text_lib \<Rightarrow> (string \<Rightarrow> bool) \<Rightarrow> log_settings \<Rightarrow> access_request \<Rightarrow> access_response \<Rightarrow> int
     \<Rightarrow> (string \<times> json dict) res" where
  "access_log T netloc_ok S req resp duration_ns =
     bindR (get_request_info T netloc_ok req duration_ns) (\<lambda>info.
     let data = info @ get_response_info resp in
     bindR (format_line T (log_access_log_format S) data) (\<lambda>message. Inr (message, data)))"

text \<open>The hooks of an application; the access log is attached once.\<close>

record app_hooks =
  access_logs_initialized :: bool
  before_request :: "string list"
  after_request :: "string list"

definition init_access_logs :: "app_hooks \<Rightarrow> app_hooks \<times> event list" where
  "init_access_logs a =
     (if access_logs_initialized a then (a, [Logged LL_WARNING ''Access logs already initialized for app''])
      else (a\<lparr>access_logs_initialized := True,
              before_request := before_request a @ [''_before_request_log_context''],
              after_request := after_request a @ [''_after_request_log_context'']\<rparr>, []))"

section \<open>Processors\<close>

datatype processor =
    Merge_Contextvars | Add_Logger_Name | Add_Log_Level | Time_Stamper | Positional_Arguments
  | Stack_Info | Set_Exc_Info | Format_Exc_Info | Callsite_Parameters "string list" | Extra_Adder
  | Sentry_Log_Processor log_level log_level | Wrap_For_Formatter | Add_Otel_Context
  | Remove_Processors_Meta | Console_Renderer bool | Dict_Tracebacks | Json_Renderer

definition shared_processors :: "bool \<Rightarrow> processor list" where
  "shared_processors sentry_installed =
     [Merge_Contextvars, Add_Logger_Name, Add_Log_Level, Time_Stamper, Positional_Arguments, Stack_Info,
      Set_Exc_Info, Format_Exc_Info, Callsite_Parameters [''filename'', ''lineno'', ''func_name''], Extra_Adder]
     @ (if sentry_installed then [Sentry_Log_Processor LL_INFO LL_ERROR] else [])"

record logging_setup =
  lg_structlog :: "processor list"
  lg_foreign_pre_chain :: "processor list"
  lg_processors :: "processor list"
  lg_root_level :: log_level
  lg_werkzeug_disabled :: bool

definition init_logging :: "bool \<Rightarrow> log_settings \<Rightarrow> logging_setup" where
  "init_logging sentry_installed S =
     \<lparr> lg_structlog = shared_processors sentry_installed @ [Wrap_For_Formatter],
       lg_foreign_pre_chain = shared_processors sentry_installed,
       lg_processors = [Add_Otel_Context, Remove_Processors_Meta]
         @ (if \<not> log_json_output S then [Console_Renderer (log_colors S)] else [Dict_Tracebacks, Json_Renderer]),
       lg_root_level = log_level_setting S, lg_werkzeug_disabled = True \<rparr>"

text \<open>
  The log hook marks a record of \<open>logging\<close> with the attributes of the span it was written in;
  \<open>add_otel_context_processor\<close> uses that mark, if the entry has a record with one.
\<close>

definition logging_log_hook :: "runtime \<Rightarrow> otel_span option \<Rightarrow> json dict option \<Rightarrow> json dict option \<Rightarrow> json dict option" where
  "logging_log_hook R sp res mark = (case sp of
     None \<Rightarrow> mark
   | Some s \<Rightarrow> if \<not> sp_recording s then mark else Some (otel_log_attributes R (Some s) s res))"

definition add_otel_context_processor ::
    "runtime \<Rightarrow> otel_span \<Rightarrow> json dict option \<Rightarrow> json dict option option \<Rightarrow> json dict \<Rightarrow> json dict" where
  "add_otel_context_processor R current_span res record_mark event_dict = (case record_mark of
     Some (Some attributes) \<Rightarrow> dict_update event_dict attributes
   | _ \<Rightarrow> dict_update event_dict (otel_log_attributes R None current_span res))"

text \<open>
  What reaches the handler of the root logger: the records at its level or above.  A higher level
  records no more than a lower one, and never less than the errors unless it is \<open>CRITICAL\<close>.
\<close>

fun event_level :: "event \<Rightarrow> log_level option" where
  "event_level (Logged l _) = Some l"
| "event_level (LoggedWith l _ _) = Some l"
| "event_level _ = None"

definition recorded :: "logging_setup \<Rightarrow> event list \<Rightarrow> event list" where
  "recorded L es = filter (\<lambda>e. case event_level e of None \<Rightarrow> False | Some l \<Rightarrow> lg_root_level L \<le> l) es"

lemma recorded_mono:
  assumes "log_level_setting S \<le> log_level_setting S'"
  shows "set (recorded (init_logging b S') es) \<subseteq> set (recorded (init_logging b S) es)"
  using assms by (auto simp: recorded_def init_logging_def split: option.splits)

lemma errors_recorded:
  "log_level_setting S \<noteq> LL_CRITICAL \<Longrightarrow> e \<in> set es \<Longrightarrow> event_level e = Some LL_ERROR
   \<Longrightarrow> e \<in> set (recorded (init_logging b S) es)"
  by (cases "log_level_setting S") (auto simp: recorded_def init_logging_def less_eq_log_level_def)

section \<open>Lines from templates\<close>

lemma parse_format_Nil: "parse_format [] = Inr [Literal []]"
  by (simp add: parse_format.simps)

definition parse_rest :: "string \<Rightarrow> string \<Rightarrow> piece list res" where
  "parse_rest literal rest = (case rest of
        [] \<Rightarrow> Inr [Literal literal]
      | [c] \<Rightarrow> Inl ValueError
      | c # d # r \<Rightarrow>
          if c = d then bindR (parse_format r) (\<lambda>ps. Inr (Literal (literal @ [c]) # ps))
          else if c = CHR ''}'' then Inl ValueError
          else (case parse_field (d # r) of
              Inl e \<Rightarrow> Inl e
            | Inr (f, rest) \<Rightarrow> bindR (parse_format rest) (\<lambda>ps. Inr (Literal literal # f # ps))))"

lemma parse_format_split:
  "parse_format s = parse_rest (takeWhile (\<lambda>c. \<not> brace c) s) (dropWhile (\<lambda>c. \<not> brace c) s)"
  by (subst parse_format.simps) (simp add: parse_rest_def Let_def)

lemma parse_rest_more:
  "parse_rest (c # l) rest = (case parse_rest l rest of
     Inr (Literal l # ps) \<Rightarrow> Inr (Literal (c # l) # ps) | r \<Rightarrow> r)"
proof (cases rest)
  case (Cons a as)
  then show ?thesis
  proof (cases as)
    case (Cons d r)
    then show ?thesis
      using \<open>rest = a # as\<close> by (cases "parse_format r"; cases "parse_field (d # r)")
        (auto simp: parse_rest_def bindR_def split: sum.split)
  qed (simp add: parse_rest_def)
qed (simp add: parse_rest_def)

lemma parse_format_char:
  assumes "\<not> brace c"
  shows "parse_format (c # s) = (case parse_format s of
     Inr (Literal l # ps) \<Rightarrow> Inr (Literal (c # l) # ps) | r \<Rightarrow> r)"
  using assms parse_rest_more [of c] by (simp add: parse_format_split [of "c # s"] parse_format_split [of s])

lemma parse_format_escape:
  "brace c \<Longrightarrow> parse_format (c # c # s) = bindR (parse_format s) (\<lambda>ps. Inr (Literal [c] # ps))"
  by (subst parse_format.simps) simp

definition plain_name :: "string \<Rightarrow> bool" where
  "plain_name n \<longleftrightarrow> n \<noteq> [] \<and> \<not> isdigit n \<and> list_all (\<lambda>c. \<not> brace c \<and> c \<notin> {CHR '':'', CHR ''!'', CHR ''[''}) n"

lemma parse_plain_name:
  "list_all (\<lambda>c. \<not> brace c \<and> c \<notin> {CHR '':'', CHR ''!'', CHR ''[''}) n
   \<Longrightarrow> parse_name False (n @ CHR ''}'' # s) = Inr (n, CHR ''}'', s)"
  by (induction n) (auto simp: brace_def)

lemma parse_format_field:
  assumes "plain_name n"
  shows "parse_format (CHR ''{'' # n @ CHR ''}'' # s)
    = bindR (parse_format s) (\<lambda>ps. Inr (Literal [] # Field n None [] # ps))"
proof -
  obtain d m where n: "n = d # m" and d: "CHR ''{'' \<noteq> d" using assms by (cases n) (auto simp: plain_name_def brace_def)
  have "parse_field (n @ CHR ''}'' # s) = Inr (Field n None [], s)"
    using assms parse_plain_name [of n s] by (simp add: parse_field_def plain_name_def)
  then show ?thesis
    by (subst parse_format.simps) (simp add: n d brace_def)
qed

lemma parse_format_literal: "parse_format s = Inr ps \<Longrightarrow> \<exists>l qs. ps = Literal l # qs"
  by (subst (asm) parse_format.simps) (auto simp: Let_def bindR_eq_Inr split: list.splits if_splits sum.splits)

lemma vformat_char:
  assumes "\<not> brace c"
  shows "vformat (Suc n) T kw (c # s) i = bindR (vformat (Suc n) T kw s i) (\<lambda>(r, j). Inr (c # r, j))"
proof (cases "parse_format s")
  case (Inr ps)
  then obtain l qs where "ps = Literal l # qs" using parse_format_literal by blast
  with Inr assms show ?thesis by (auto simp: parse_format_char bindR_def split: sum.split)
qed (use assms in \<open>simp add: parse_format_char\<close>)

lemma vformat_escape:
  "brace c \<Longrightarrow> vformat (Suc n) T kw (c # c # s) i = bindR (vformat (Suc n) T kw s i) (\<lambda>(r, j). Inr (c # r, j))"
  by (auto simp: parse_format_escape bindR_def split: sum.split)

lemma vformat_field:
  assumes "plain_name f"
  shows "vformat (Suc (Suc n)) T kw (CHR ''{'' # f @ CHR ''}'' # s) i
    = bindR (vformat (Suc (Suc n)) T kw s i) (\<lambda>(r, j). Inr (str_of_value T (get_field kw f) @ r, j))"
  using assms
  by (auto simp: parse_format_field parse_format_Nil field_index_def plain_name_def convert_field_def
      format_field_def bindR_def split: sum.split)

lemma format_line_Suc: "format_line T s kw = bindR (vformat (Suc (Suc (Suc 0))) T kw s (Some 0)) (\<lambda>(line, _). Inr line)"
  by (simp only: format_line_def numeral_3_eq_3)

lemma format_line_step:
  assumes "\<And>i. vformat (Suc (Suc (Suc 0))) T kw s' i = bindR (vformat (Suc (Suc (Suc 0))) T kw s i) (\<lambda>(r, j). Inr (t @ r, j))"
  shows "format_line T s' kw = bindR (format_line T s kw) (\<lambda>r. Inr (t @ r))"
  unfolding format_line_Suc assms
  by (cases "vformat (Suc (Suc (Suc 0))) T kw s (Some 0)") (auto simp del: vformat.simps)

lemma format_line_rules:
  "format_line T [] kw = Inr []"
  "\<not> brace c \<Longrightarrow> format_line T (c # s) kw = bindR (format_line T s kw) (\<lambda>r. Inr (c # r))"
  "brace c \<Longrightarrow> format_line T (c # c # s) kw = bindR (format_line T s kw) (\<lambda>r. Inr (c # r))"
  "plain_name f \<Longrightarrow> format_line T (CHR ''{'' # f @ CHR ''}'' # s) kw
     = bindR (format_line T s kw) (\<lambda>r. Inr (str_of_value T (get_field kw f) @ r))"
  using format_line_step [of T kw "c # s" s "[c]"] vformat_char [of c _ T kw s]
    format_line_step [of T kw "c # c # s" s "[c]"] vformat_escape [of c _ T kw s]
    format_line_step [OF vformat_field [of f "Suc 0" T kw s]]
  by (simp_all add: format_line_Suc parse_format_Nil)

text \<open>Templates by their pieces, and how they are written.\<close>

fun unparse :: "piece list \<Rightarrow> string" where
  "unparse [] = []"
| "unparse (Literal t # ps) = concat (map (\<lambda>c. if brace c then [c, c] else [c]) t) @ unparse ps"
| "unparse (Field n conv sp # ps) = CHR ''{'' # n @ CHR ''}'' # unparse ps"

fun plain_piece :: "piece \<Rightarrow> bool" where
  "plain_piece (Literal t) = True"
| "plain_piece (Field n conv sp) = (plain_name n \<and> conv = None \<and> sp = [])"

fun rendered :: "text_lib \<Rightarrow> json dict \<Rightarrow> piece \<Rightarrow> string" where
  "rendered T kw (Literal t) = t"
| "rendered T kw (Field n conv sp) = str_of_value T (get_field kw n)"

lemma literal_line: "format_line T (concat (map (\<lambda>c. if brace c then [c, c] else [c]) t) @ s) kw
    = bindR (format_line T s kw) (\<lambda>r. Inr (t @ r))"
  by (induction t) (auto simp: format_line_rules bindR_def split: sum.split)

lemma template_line:
  "list_all plain_piece ps \<Longrightarrow> format_line T (unparse ps) kw = Inr (concat (map (rendered T kw) ps))"
  by (induction ps rule: unparse.induct) (simp_all add: literal_line format_line_rules)

section \<open>Properties\<close>

definition or_dash :: "string option \<Rightarrow> string" where
  "or_dash v = (case v of None \<Rightarrow> ''-'' | Some s \<Rightarrow> s)"

definition default_template :: "piece list" where
  "default_template = [Field ''client.address'' None [], Literal ('' '' @ [CHR 0x22]),
     Field ''http.request.method'' None [], Literal '' '', Field ''url.path'' None [], Literal '' '',
     Field ''network.protocol.version'' None [], Literal ([CHR 0x22] @ '' ''),
     Field ''http.response.status_code'' None [], Literal '' '', Field ''http.response.body.size'' None [],
     Literal ('' '' @ [CHR 0x22]), Field ''user_agent.original'' None [], Literal [CHR 0x22]]"

lemma default_template_text: "log_access_log_format (log_defaults tty) = unparse default_template"
  by (simp add: log_defaults_def default_template_def brace_def)

lemma default_template_plain: "list_all plain_piece default_template"
  by code_simp

lemma get_field_opt: "map_of kw n = Some (opt_str v) \<Longrightarrow> str_of_value T (get_field kw n) = or_dash v"
  by (simp add: get_field_def opt_str_def or_dash_def split: option.split)

text \<open>
  Templates of access log lines are rendered field by field: the line of a template is its text,
  braces written double, with the value of each field in place, a dash for a value that is missing,
  and a field that is not known left as it is written.  So a line is made whatever the data is.
\<close>
theorem template_is_rendered:
  assumes "list_all plain_piece ps"
  shows "format_line T (unparse ps) kw = Inr (concat (map (\<lambda>p. case p of
       Literal t \<Rightarrow> t
     | Field n _ _ \<Rightarrow> (case map_of kw n of None \<Rightarrow> ''{'' @ n @ ''}''
         | Some v \<Rightarrow> if v = JNull then ''-'' else str_of_value T v)) ps))"
proof -
  have "map (rendered T kw) ps = map (\<lambda>p. case p of
       Literal t \<Rightarrow> t
     | Field n _ _ \<Rightarrow> (case map_of kw n of None \<Rightarrow> ''{'' @ n @ ''}''
         | Some v \<Rightarrow> if v = JNull then ''-'' else str_of_value T v)) ps"
    by (auto simp: get_field_def split: piece.split option.split)
  then show ?thesis unfolding template_line [OF assms] by (simp only:)
qed


section \<open>Instances\<close>

definition sample_text_lib :: text_lib where
  "sample_text_lib = \<lparr> tl_str = (\<lambda>_. []), tl_repr = (\<lambda>_. []), tl_ascii = (\<lambda>_. []), tl_float = (\<lambda>_. ''0.0''),
     tl_format = (\<lambda>_ _. Inl ValueError) \<rparr>"

theorem template_is_rendered_witness:
  "format_line sample_text_lib (log_access_log_format (log_defaults True))
     [(''client.address'', JNull), (''http.request.method'', JStr ''GET''), (''url.path'', JStr ''/callback''),
      (''network.protocol.version'', JStr ''HTTP/1.1''), (''http.response.status_code'', JInt 302)]
   = Inr (''- '' @ [CHR 0x22] @ ''GET /callback HTTP/1.1'' @ [CHR 0x22] @ '' 302 {http.response.body.size} ''
       @ [CHR 0x22] @ ''{user_agent.original}'' @ [CHR 0x22])"
proof -
  have "int_str 302 = ''302''" by code_simp
  then show ?thesis
    unfolding default_template_text template_is_rendered [OF default_template_plain]
    by (simp add: default_template_def)
qed

definition sample_environ :: environ where
  "sample_environ = \<lparr> en_url_scheme = ''https'', en_http_host = Some ''b'', en_server_name = ''b'', en_server_port = ''443'',
     en_script_name = [], en_path_info = ''/callback'', en_query_string = [] \<rparr>"

definition sample_span :: otel_span where
  "sample_span = \<lparr> sp_recording = True, sp_valid = True, sp_trace_id = 1, sp_span_id = 1, sp_sampled = True, sp_attributes = [] \<rparr>"


end
