(* ===== verification/Client_Identity.thy ===== *)
theory Client_Identity
  imports Metrics_Flow Access_Logs
begin

text \<open>
  \<open>set_client_id\<close> and \<open>record_invalid_client_id\<close> of \<open>telemetry/_otel.py\<close> with the setters of
  \<open>_sentry.py\<close>: under which client the telemetry of a request is filed; \<open>instrument\<close> and
  \<open>uninstrument\<close>.  The routes call the first two where their traces have the events \<open>ClientIdSet\<close>
  and \<open>InvalidClientIdSeen\<close>.
\<close>

section \<open>The context of a request\<close>

text \<open>
  The variables structlog adds to every record, the current span with its events, and Sentry's scope
  (\<open>sentry_installed\<close> is whether its package could be imported).
\<close>

record log_context =
  contextvars :: "json dict"
  current_span :: otel_span
  span_events :: "(string \<times> json dict) list"
  sentry_installed :: bool
  sentry_tags :: "json dict"
  sentry_user :: "json dict option"

definition set_tag :: "string \<Rightarrow> string \<Rightarrow> log_context \<Rightarrow> log_context" where
  "set_tag k v c = (if sentry_installed c then c\<lparr>sentry_tags := AList.update k (JStr v) (sentry_tags c)\<rparr> else c)"

definition set_tags :: "json dict \<Rightarrow> log_context \<Rightarrow> log_context" where
  "set_tags ts c = (if sentry_installed c then c\<lparr>sentry_tags := dict_update (sentry_tags c) ts\<rparr> else c)"

definition set_user :: "json dict option \<Rightarrow> log_context \<Rightarrow> log_context" where
  "set_user user_data c = (if sentry_installed c then c\<lparr>sentry_user := user_data\<rparr> else c)"

definition bind_contextvar :: "string \<Rightarrow> string \<Rightarrow> log_context \<Rightarrow> log_context" where
  "bind_contextvar k v c = c\<lparr>contextvars := AList.update k (JStr v) (contextvars c)\<rparr>"

definition set_client_id :: "string \<Rightarrow> log_context \<Rightarrow> log_context" where
  "set_client_id client_id_string c =
     (let c = bind_contextvar ''client_id'' client_id_string c;
          c = c\<lparr>current_span := set_attribute ''client_id'' (JStr client_id_string) (current_span c)\<rparr>
      in set_user (Some [(''client_id'', JStr client_id_string)]) c)"

definition record_invalid_client_id :: "string \<Rightarrow> log_context \<Rightarrow> log_context" where
  "record_invalid_client_id client_id c =
     (let c = bind_contextvar ''invalid_client_id'' client_id c
      in c\<lparr>span_events := span_events c @ [(''invalid_client_id'', [(''client_id'', JStr client_id)])]\<rparr>)"

text \<open>\<open>_before_request_log_context\<close> starts every request without variables.\<close>

definition before_request_log_context :: "log_context \<Rightarrow> log_context" where
  "before_request_log_context c = c\<lparr>contextvars := []\<rparr>"

fun identify :: "event \<Rightarrow> log_context \<Rightarrow> log_context" where
  "identify (ClientIdSet i) c = set_client_id i c"
| "identify (InvalidClientIdSeen i) c = record_invalid_client_id i c"
| "identify _ c = c"

definition request_context :: "event list \<Rightarrow> log_context \<Rightarrow> log_context" where
  "request_context es c = fold identify es (before_request_log_context c)"

section \<open>Instrumentation of the process\<close>

text \<open>Which libraries are instrumented, with the hook each was given.\<close>

record instrumentation =
  in_system_metrics :: bool
  in_logging :: "string option"
  in_sqlite :: bool
  in_requests :: "string option"

definition no_instrumentation :: instrumentation where
  "no_instrumentation = \<lparr> in_system_metrics = False, in_logging = None, in_sqlite = False, in_requests = None \<rparr>"

definition instrument :: "instrumentation \<Rightarrow> instrumentation" where
  "instrument i = i\<lparr>in_system_metrics := True, in_logging := Some ''_logging_log_hook'', in_sqlite := True,
     in_requests := Some ''_requests_response_hook''\<rparr>"

definition uninstrument :: "instrumentation \<Rightarrow> instrumentation" where
  "uninstrument i = i\<lparr>in_system_metrics := False, in_logging := None, in_sqlite := False, in_requests := None\<rparr>"

section \<open>Who a token request is filed under\<close>

text \<open>An event names no other client than the one the request presented credentials of.\<close>

fun names_presented :: "env \<Rightarrow> web_request \<Rightarrow> event \<Rightarrow> bool" where
  "names_presented E rq (ClientIdSet i) = (\<exists>c. authenticated_as E rq c \<and> i = uuid_str (cc_client_id c))"
| "names_presented E rq _ = True"

interpretation names: answer_filter "names_presented E rq" for E rq
proof
  show "service_event e \<Longrightarrow> names_presented E rq e" for e by (cases e) simp_all
qed simp_all

lemma presented_credentials:
  assumes "(if wr_authorization rq = Inl ValueError then Inr None else wr_authorization rq) = Inr a"
    and "validate_credentials E
      (fst (case a of None \<Rightarrow> (map_of (wr_form rq) ''client_id'', map_of (wr_form rq) ''client_secret'')
            | Some a \<Rightarrow> (wa_username a, wa_password a)))
      (snd (case a of None \<Rightarrow> (map_of (wr_form rq) ''client_id'', map_of (wr_form rq) ''client_secret'')
            | Some a \<Rightarrow> (wa_username a, wa_password a))) = Inr c"
  shows "authenticated_as E rq c"
  using assms unfolding authenticated_as_def presents_def
  by (cases a; simp split: if_splits)

lemma names_credentials [keeps_intros]:
  "effect_within (on_world (writes (names_presented E rq))) (request_credentials E rq)"
  unfolding request_credentials_def Let_def case_prod_beta
  by (intro effect_try_res_bind [OF writes_refl] keeps_intros; simp) (blast intro: presented_credentials)

lemma names_handle: "effect_within (on_world (writes (names_presented E rq))) (handle E S R_Token rq)"
  by (rule names.writes_handle, unfold view.simps) (rule names.writes_token [OF names_credentials])

text \<open>The identity in a context: the log variable and Sentry's user, if it has one.\<close>

definition identity_is :: "string \<Rightarrow> log_context \<Rightarrow> bool" where
  "identity_is i c \<longleftrightarrow> map_of (contextvars c) ''client_id'' = Some (JStr i)
     \<and> map_of (sp_attributes (current_span c)) ''client_id'' = Some (JStr i)
     \<and> (sentry_installed c \<longrightarrow> sentry_user c = Some [(''client_id'', JStr i)])"

definition unidentified :: "log_context \<Rightarrow> log_context \<Rightarrow> bool" where
  "unidentified c c' \<longleftrightarrow> map_of (contextvars c') ''client_id'' = map_of (contextvars c) ''client_id''
     \<and> current_span c' = current_span c \<and> sentry_user c' = sentry_user c"

lemma set_client_id_identity: "identity_is i (set_client_id i c)"
  by (simp add: identity_is_def set_client_id_def Let_def bind_contextvar_def set_attribute_def set_user_def update_conv)

lemma record_invalid_unidentified: "unidentified c (record_invalid_client_id i c)"
  by (simp add: unidentified_def record_invalid_client_id_def Let_def bind_contextvar_def update_conv)

lemma record_invalid_identity: "identity_is i c \<Longrightarrow> identity_is i (record_invalid_client_id j c)"
  by (simp add: identity_is_def record_invalid_client_id_def Let_def bind_contextvar_def update_conv)

text \<open>Events that name only one client leave its identity or none.\<close>

lemma identity_of_events:
  assumes "\<forall>e \<in> set es. \<forall>j. e = ClientIdSet j \<longrightarrow> j = i" and "identity_is i c \<or> unidentified c0 c"
  shows "identity_is i (fold identify es c) \<or> unidentified c0 (fold identify es c)"
  using assms
proof (induction es arbitrary: c)
  case (Cons e es)
  have "identity_is i (identify e c) \<or> unidentified c0 (identify e c)"
  proof (cases e)
    case (ClientIdSet j)
    with Cons.prems(1) show ?thesis by (simp add: set_client_id_identity)
  next
    case (InvalidClientIdSeen j)
    with Cons.prems(2) record_invalid_identity [of i c j] record_invalid_unidentified [of c j]
    show ?thesis by (auto simp: unidentified_def)
  qed (use Cons.prems(2) in auto)
  with Cons show ?case by simp
qed simp

text \<open>A request with acceptable credentials is named.\<close>

definition named_since :: "world \<Rightarrow> string \<Rightarrow> world \<Rightarrow> bool" where
  "named_since w i w' \<longleftrightarrow> (\<exists>es. trace w' = trace w @ es \<and> ClientIdSet i \<in> set es)"

lemma named_stays:
  assumes "effect_within (on_world (writes P)) m" and "named_since w i (fst ws)"
  shows "wp m (\<lambda>_ ws'. named_since w i (fst ws')) (\<lambda>_ ws'. named_since w i (fst ws')) ws"
proof -
  have "wp m (\<lambda>_. on_world (writes P) ws) (\<lambda>_. on_world (writes P) ws) ws"
    using assms(1) unfolding wp_effect by blast
  then show ?thesis
    by (rule wp_mono) (use assms(2) in \<open>auto simp: on_world_def writes_def named_since_def\<close>)
qed

lemma token_named:
  assumes "token_request_ok E rq k" and "trace u = trace w"
  shows "wp (token E S rq) (\<lambda>_ ws'. named_since w (uuid_str (cc_client_id k)) (fst ws'))
    (\<lambda>_ ws'. named_since w (uuid_str (cc_client_id k)) (fst ws')) (u, s)"
proof -
  have "named_since w (uuid_str (cc_client_id k))
      (fst (u\<lparr>trace := trace u @ [ClientIdSet (uuid_str (cc_client_id k))]\<rparr>, s))"
    using assms(2) by (simp add: named_since_def)
  from named_stays [OF names.writes_served [of E rq] this] show ?thesis
    unfolding token_def wp_seqA [of "request_credentials E rq"]
    by (simp add: wp_def [of "request_credentials E rq"] credentials_run [OF assms(1)])
qed

lemma handle_named:
  assumes "token_request_ok E rq k"
  shows "wp (handle E S R_Token rq) (\<lambda>_ ws'. named_since w (uuid_str (cc_client_id k)) (fst ws'))
    (\<lambda>_ ws'. named_since w (uuid_str (cc_client_id k)) (fst ws')) (w, s)"
proof -
  let ?i = "uuid_str (cc_client_id k)"
  have exn: "wp (handle_exception S e) (\<lambda>_ ws'. named_since w ?i (fst ws')) (\<lambda>_ ws'. named_since w ?i (fst ws')) ws"
    if "named_since w ?i (fst ws)" for e ws
    using that by (rule named_stays [OF names.writes_exception [of E rq]])
  have tail: "named_since w ?i (u\<lparr>ticks := n, trace := trace u @ [e], db_open := b\<rparr>)" if "named_since w ?i u" for u n e b
    using that by (auto simp: named_since_def)
  show ?thesis
    unfolding handle_def view.simps wp_seqA
    by (simp add: wp_simps close_def, rule wp_mono [OF token_named [OF assms]])
      (auto intro!: tail wp_mono [OF exn])
qed

lemma named_is_identified:
  assumes "\<forall>e \<in> set es. \<forall>j. e = ClientIdSet j \<longrightarrow> j = i" and "ClientIdSet i \<in> set es"
  shows "identity_is i (request_context es c)"
proof -
  obtain fs gs where es: "es = fs @ ClientIdSet i # gs" using assms(2) by (meson split_list)
  have "identity_is i (fold identify gs d)" if "identity_is i d" "\<forall>e \<in> set gs. \<forall>j. e = ClientIdSet j \<longrightarrow> j = i" for d
    using that
  proof (induction gs arbitrary: d)
    case (Cons e gs)
    then have "identity_is i (identify e d)" by (cases e) (auto simp: set_client_id_identity record_invalid_identity)
    with Cons show ?case by simp
  qed simp
  moreover have "\<forall>e \<in> set gs. \<forall>j. e = ClientIdSet j \<longrightarrow> j = i" using assms(1) es by (metis Un_iff list.set_intros(2) set_append)
  ultimately have "identity_is i (fold identify gs (set_client_id i d))" for d
    using set_client_id_identity by blast
  then show ?thesis by (simp add: request_context_def es)
qed


definition sample_context :: log_context where
  "sample_context = \<lparr> contextvars = [(''client_id'', JStr ''stale'')], current_span = sample_span, span_events = [],
     sentry_installed = True, sentry_tags = [], sentry_user = None \<rparr>"


end
