(* ===== verification/Startup.thy ===== *)
theory Startup
  imports Client_Identity
begin

text \<open>
  \<open>create_app\<close> of \<open>__init__.py\<close> and \<open>wsgi.py\<close>: how an application is put together, its commands, and
  what happens when a process starts and ends.  What is registered with Flask is represented by the
  names of the functions, in the order of registration.
\<close>

section \<open>The application\<close>

datatype app_command = InitDb | UpgradeDb | CleanDb

record flask_app =
  fa_settings :: settings
  fa_instrumented :: bool
  fa_hooks :: app_hooks
  fa_teardown :: "string list"
  fa_error_handlers :: "(string \<times> string) list"
  fa_services :: app
  fa_blueprints :: "string list"
  fa_commands :: "(string \<times> app_command) list"

definition create_app :: "env \<Rightarrow> runtime \<Rightarrow> settings \<Rightarrow> telemetry \<Rightarrow> (flask_app \<times> telemetry) res" where
  "create_app E R S t =
     (let hooks = fst (init_access_logs \<lparr> access_logs_initialized = False, before_request = [], after_request = [] \<rparr>);
          hooks = hooks\<lparr>after_request := after_request hooks @ [''nocache'']\<rparr>;
          hooks = hooks\<lparr>before_request := before_request hooks @ [''record_request_metrics''],
                        after_request := after_request hooks @ [''finalize_request_metrics'']\<rparr>
      in bindR (set_build_info (build_info_labels R (otel S)) t) (\<lambda>t. Inr
        (\<lparr> fa_settings = S, fa_instrumented = True, fa_hooks = hooks, fa_teardown = [''db.close''],
           fa_error_handlers = [(''oauth.Error'', ''error_handler''), (''500'', ''fallback_error_handler'')],
           fa_services = app_with_refresher E S, fa_blueprints = [''views.routes''],
           fa_commands = [(''initdb'', InitDb), (''upgradedb'', UpgradeDb), (''cleandb'', CleanDb)] \<rparr>, t)))"

text \<open>A command prints its line, then works on the database; its context closes the connection.\<close>

definition command_line :: "settings \<Rightarrow> app_command \<Rightarrow> string" where
  "command_line S c = (case c of InitDb \<Rightarrow> ''Initializing '' | UpgradeDb \<Rightarrow> ''Upgrading '' | CleanDb \<Rightarrow> ''Vacuumed '')
     @ db_database (database S)"

definition command_body :: "env \<Rightarrow> settings \<Rightarrow> app_command \<Rightarrow> unit prog" where
  "command_body E S c = (case c of InitDb \<Rightarrow> initialize E (database S)
     | UpgradeDb \<Rightarrow> upgrade E (database S) | CleanDb \<Rightarrow> vacuum E (database S))"

definition run_command :: "env \<Rightarrow> settings \<Rightarrow> app_command \<Rightarrow> unit prog" where
  "run_command E S c = catchA (seqA (command_body E S c) (\<lambda>_. close)) (\<lambda>e. seqA close (\<lambda>_. raiseA e))"

section \<open>The process\<close>

text \<open>Which of the optional packages are installed.\<close>

record packages =
  has_sentry_sdk :: bool
  has_structlog_sentry :: bool

record process =
  ps_logging :: logging_setup
  ps_sentry :: "sentry_options option"
  ps_instrumentation :: instrumentation
  ps_tracing :: "tracing option"
  ps_metrics :: "metrics_setup option"
  ps_app :: flask_app
  ps_telemetry :: telemetry

definition emit_all :: "event list \<Rightarrow> (world, 'e, unit) act" where
  "emit_all es = modifyA (\<lambda>w. w\<lparr>trace := trace w @ es\<rparr>)"

definition start_process :: "env \<Rightarrow> runtime \<Rightarrow> packages \<Rightarrow> settings \<Rightarrow> telemetry \<Rightarrow> process prog" where
  "start_process E R K S t =
     (let logging = init_logging (has_structlog_sentry K) (log_cfg S) in
     case init_sentry (has_sentry_sdk K) (sentry S) of (sentry_opts, logged) \<Rightarrow>
     seqA (emit_all logged) (\<lambda>_.
     let instrumented = instrument no_instrumentation;
         tracing = init_tracing R (has_sentry_sdk K) (otel S) None;
         metrics = init_metrics R (otel S) None in
     seqA (liftA (create_app E R S t)) (\<lambda>(fa, t).
     seqA (start_runtime_services E (database S) (fa_services fa)) (\<lambda>services.
       returnA \<lparr> ps_logging = logging, ps_sentry = sentry_opts, ps_instrumentation = instrumented,
         ps_tracing = tracing, ps_metrics = metrics,
         ps_app = fa\<lparr>fa_services := services\<rparr>, ps_telemetry = t \<rparr>))))"

text \<open>What \<open>atexit\<close> runs.\<close>

definition at_exit :: "process \<Rightarrow> process \<times> worker option" where
  "at_exit p = (case stop_runtime_services (fa_services (ps_app p)) of
     (services, w) \<Rightarrow> (p\<lparr>ps_app := (ps_app p)\<lparr>fa_services := services\<rparr>\<rparr>, w))"

section \<open>What a started process is\<close>

lemma create_app_result:
  "create_app E R S t = Inr (fst (projr (create_app E R S t)),
      t\<lparr>samples := (samples t)((BuildInfoGauge, label_values R (otel S)) := [1])\<rparr>)"
  by (simp add: create_app_def build_info_recorded Let_def)

lemma create_app_parts:
  assumes "create_app E R S t = Inr (fa, t')"
  shows "t' = t\<lparr>samples := (samples t)((BuildInfoGauge, label_values R (otel S)) := [1])\<rparr>"
    and "fa_services fa = app_with_refresher E S"
    and "rev (after_request (fa_hooks fa)) = [''finalize_request_metrics'', ''nocache'', ''_after_request_log_context'']"
  using assms by (auto simp: create_app_def build_info_recorded Let_def init_access_logs_def)

lemma started_services:
  assumes "\<not> services_started a" and "refresh_worker a = None" and "refreshers a \<noteq> []"
  shows "wp (start_runtime_services E s a) (\<lambda>a' w'. columns (db w) \<noteq> None \<and> db w' = db w \<and> services_started a'
      \<and> (\<exists>k. refresh_worker a' = Some k \<and> started k \<and> \<not> stopped k \<and> handled_generation k < generation k
           \<and> snd (stop_runtime_services a') = Some (stop k)))
    (\<lambda>_ w'. db w' = db w) w"
  using assms unfolding start_runtime_services_def close_def
  by (auto simp: wp_simps start_background_refresh_def request_refresh_def stop_runtime_services_def
      stop_background_refresh_def start_def request_def new_worker_def intro!: wp_mono [OF is_initialized_rule])

lemma fresh_services:
  "\<not> services_started (app_with_refresher E S)" "refresh_worker (app_with_refresher E S) = None"
  "refreshers (app_with_refresher E S) \<noteq> []"
  by (simp_all add: app_with_refresher_def add_refresher_def)

lemma start_process_post:
  "wp (start_process E R K S t) (\<lambda>p w'. columns (db w) \<noteq> None \<and> db w' = db w
      \<and> ps_telemetry p = t\<lparr>samples := (samples t)((BuildInfoGauge, label_values R (otel S)) := [1])\<rparr>
      \<and> (\<exists>k. refresh_worker (fa_services (ps_app p)) = Some k \<and> started k \<and> \<not> stopped k
          \<and> handled_generation k < generation k \<and> snd (at_exit p) = Some (stop k)))
    (\<lambda>_ w'. db w' = db w) w"
proof -
  obtain fa t' where app: "create_app E R S t = Inr (fa, t')"
    using create_app_result by blast
  note parts = create_app_parts [OF app]
  show ?thesis
    unfolding start_process_def Let_def emit_all_def app
    by (auto simp: wp_simps parts at_exit_def split: prod.splits
        intro!: wp_mono [OF started_services [OF fresh_services]])
qed

text \<open>
  C37. A process starts only on an initialised database and leaves it as it is.  Once started it has
  said which build it is, with exactly the labels of its settings, and its refresh worker runs with
  a request pending, so the token gauge will be set; at its end that worker is told to stop.
\<close>
theorem started_process_is_ready:
  assumes "start_process E R K S t w = (Inr p, w')"
  shows "columns (db w) \<noteq> None \<and> db w' = db w
    \<and> samples (ps_telemetry p) (BuildInfoGauge, map snd (build_info_labels R (otel S))) = [1]
    \<and> (\<exists>k. refresh_worker (fa_services (ps_app p)) = Some k \<and> started k \<and> \<not> stopped k
          \<and> handled_generation k < generation k \<and> snd (at_exit p) = Some (stop k))"
  using wp_Inr [OF start_process_post assms] by (simp add: label_values_def)

section \<open>From an empty file to a running process\<close>

lemma is_initialized_faults:
  assumes "faults_are E Y"
  shows "wp (is_initialized E s) (\<lambda>b w'. b = (columns (db w) \<noteq> None) \<and> db w' = db w) (\<lambda>e w'. Y e \<and> db w' = db w) w"
proof -
  let ?P = "\<lambda>b d. b = (columns (db w) \<noteq> None) \<and> d = db w"
  have "wp (execute E sql_has_table) (\<lambda>a v'. ?P a (db v')) (\<lambda>e v'. Y e \<and> (False \<or> db v' = db w)) v"
    if "db v = db w" for v
    using execute_rule [of sql_has_table v ?P Y False E] that assms by (simp add: sql_has_table_def)
  then show ?thesis
    unfolding is_initialized_def by (rule cursor_rule [where P = ?P, OF _ assms])
qed

text \<open>The table after \<open>schema.sql\<close>: created if it was missing.\<close>

definition with_table :: "database \<Rightarrow> database" where
  "with_table d = (if columns d = None then \<lparr> columns = Some token_columns, rows = [] \<rparr> else d)"

lemma create_table_result: "sql_create_table d = (Inr (), with_table d)"
  by (simp add: sql_create_table_def with_table_def split: option.split)

lemma with_table_facts: "columns (with_table d) \<noteq> None" "columns d \<noteq> None \<Longrightarrow> with_table d = d"
  by (simp add: with_table_def) (simp only: with_table_def if_False)

lemma initdb_post:
  assumes "faults_are E Y"
  shows "wp (run_command E S InitDb) (\<lambda>_ w'. db w' = with_table (db w) \<and> \<not> db_open w') (\<lambda>e w'. Y e \<and> \<not> db_open w') w"
proof -
  have exec: "wp (execute E sql_create_table) (\<lambda>_ v'. db v' = with_table (db w)) (\<lambda>e _. Y e) v" if "db v = db w" for v
    unfolding execute_wp
    by (rule wp_mono [OF sqlite_call_rule [OF assms]]) (use that in \<open>auto simp: create_table_result\<close>)
  have call: "wp (sqlite_call E) (\<lambda>_. wp (execute E sql_create_table) (\<lambda>_ v'. db v' = with_table (db w)) (\<lambda>e _. Y e))
      (\<lambda>e _. Y e) v" if "db v = db w" for v
    by (rule wp_mono [OF sqlite_call_rule [OF assms]]) (use that exec in auto)
  have "wp (initialize E (database S)) (\<lambda>_ w'. db w' = with_table (db w)) (\<lambda>e _. Y e) w"
    unfolding initialize_def wp_seqA
    by (rule wp_mono [OF get_rule [OF assms]]) (use call in auto)
  then show ?thesis
    unfolding run_command_def command_body_def close_def by (auto simp: wp_simps elim!: wp_mono)
qed

lemma start_process_runs:
  assumes "faults_are E (\<lambda>_. False)" and "columns (db w) \<noteq> None"
  shows "wp (start_process E R K S t) (\<lambda>_ _. True) (\<lambda>_ _. False) w"
proof -
  obtain fa t' where app: "create_app E R S t = Inr (fa, t')"
    using create_app_result by blast
  have "wp (start_runtime_services E (database S) (app_with_refresher E S)) (\<lambda>_ _. True) (\<lambda>_ _. False) v"
    if "db v = db w" for v
    unfolding start_runtime_services_def close_def
    using assms(2) that fresh_services
    by (auto simp: wp_simps intro!: wp_mono [OF is_initialized_faults [OF assms(1)]])
  then show ?thesis
    unfolding start_process_def Let_def emit_all_def app
    by (simp add: wp_simps create_app_parts [OF app] split: prod.split)
qed

text \<open>
  With a database that answers, \<open>initdb\<close> creates the table where it is missing, keeps a table that
  exists with all its grants, and a process can be started afterwards; before it, on an empty file,
  none can.
\<close>
theorem initdb_enables_start:
  assumes "faults_are E (\<lambda>_. False)" and "run_command E S InitDb w = (r, w1)"
  shows "r = Inr () \<and> (columns (db w) \<noteq> None \<longrightarrow> db w1 = db w) \<and> (\<exists>p w2. start_process E R K S t w1 = (Inr p, w2))
    \<and> (columns (db w) = None \<longrightarrow> (\<exists>e w2. start_process E R K S t w = (Inl e, w2)))"
proof -
  have r: "r = Inr ()" and w1: "db w1 = with_table (db w)"
    using initdb_post [OF assms(1), of S w] assms(2) by (auto simp: wp_def split: sum.splits)
  have "columns (db w1) \<noteq> None" using w1 with_table_facts(1) by simp
  from start_process_runs [OF assms(1) this, of R K S t]
  have run: "\<exists>p w2. start_process E R K S t w1 = (Inr p, w2)"
    by (auto simp: wp_def split: prod.splits sum.splits)
  obtain q w2 where q: "start_process E R K S t w = (q, w2)" by (cases "start_process E R K S t w")
  have "columns (db w) \<noteq> None" if "q = Inr p" for p
    using wp_Inr [OF start_process_post] q that by blast
  then have "columns (db w) = None \<longrightarrow> (\<exists>e w2. start_process E R K S t w = (Inl e, w2))"
    using q by (cases q) auto
  with r w1 run show ?thesis using with_table_facts(2) by simp
qed

definition sample_runtime :: runtime where
  "sample_runtime = \<lparr> rt_gethostname = ''h'', rt_getpid = 7, rt_get_ident = 1, rt_thread_name = ''MainThread'',
     rt_uwsgi = No_Uwsgi \<rparr>"

lemma sample_faultless: "faults_are sample_env (\<lambda>_. False)"
  by (simp add: faults_are_def sample_env_def)

theorem initdb_enables_start_witness:
  "\<exists>w1 p w2. run_command sample_env sample_settings InitDb initial_world = (Inr (), w1)
     \<and> start_process sample_env sample_runtime \<lparr> has_sentry_sdk = True, has_structlog_sentry = False \<rparr>
         sample_settings no_telemetry w1 = (Inr p, w2)"
proof -
  obtain r w1 where run: "run_command sample_env sample_settings InitDb initial_world = (r, w1)"
    by (cases "run_command sample_env sample_settings InitDb initial_world")
  from initdb_enables_start [OF sample_faultless run, of sample_runtime
      "\<lparr> has_sentry_sdk = True, has_structlog_sentry = False \<rparr>" no_telemetry] run
  show ?thesis by blast
qed

theorem started_process_is_ready_witness:
  "\<exists>p w'. start_process sample_env sample_runtime \<lparr> has_sentry_sdk = False, has_structlog_sentry = False \<rparr>
       sample_settings no_telemetry fresh_world = (Inr p, w')
     \<and> samples (ps_telemetry p) (BuildInfoGauge, map snd (build_info_labels sample_runtime (otel sample_settings))) = [1]
     \<and> refresh_worker (fa_services (ps_app p)) \<noteq> None"
proof -
  have "columns (db fresh_world) \<noteq> None" by (simp add: fresh_world_def initial_world_def)
  from start_process_runs [OF sample_faultless this, of sample_runtime
      "\<lparr> has_sentry_sdk = False, has_structlog_sentry = False \<rparr>" sample_settings no_telemetry]
  obtain p w' where "start_process sample_env sample_runtime \<lparr> has_sentry_sdk = False, has_structlog_sentry = False \<rparr>
       sample_settings no_telemetry fresh_world = (Inr p, w')"
    by (auto simp: wp_def split: prod.splits sum.splits)
  with started_process_is_ready [OF this] show ?thesis by blast
qed

end
