(* ===== verification/Gauge_Freshness.thy ===== *)
theory Gauge_Freshness
  imports Grant_Lifecycle Metrics_Flow Startup
begin

text \<open>
  A running process: requests that change the token table, the refresh they ask for, the worker that
  coalesces the requests for a refresh, the refresh itself and the gauge it sets, interleaved.

  A request is one step.  Its calls of \<open>telemetry.request_refresh\<close> reach the worker afterwards, at any
  time, one by one: the worker may run between the commit of a request and the call.  The refresh is
  two steps, the reading of the counts and the setting of the gauge, and requests may come between
  them.  Each step may meet another environment of the set \<open>Es\<close>.
\<close>

section \<open>Changes of the table are announced\<close>

text \<open>Whoever changes the table asks for a refresh, and nobody but the refresh sets the gauge.\<close>

definition announced :: "world \<Rightarrow> world \<Rightarrow> bool" where
  "announced w w' \<longleftrightarrow> writes no_gauge w w'
     \<and> (db w' = db w \<or> RefreshRequested \<in> set (drop (length (trace w)) (trace w')))"

lemma announced_refl [keeps_intros]: "reflp announced"
  by (auto simp: reflp_def announced_def writes_def)

lemma announced_trans [keeps_intros]: "transp announced"
  by (rule transpI) (auto simp: announced_def writes_def)

lemma announced_same:
  "effect_within same_db m \<Longrightarrow> effect_within (writes no_gauge) m \<Longrightarrow> effect_within announced m"
  by (auto simp: effect_within_def announced_def same_db_def)

lemma announced_steps [keeps_intros]:
  "no_gauge e \<Longrightarrow> effect_within announced (emit e)"
  "effect_within announced tick" "effect_within announced (monotonic E)"
  "effect_within announced (wall_time E)" "effect_within announced close"
  by (rule announced_same; intro keeps_intros writes_steps, assumption?)+

lemma wp_and_effect:
  "effect_within R m \<Longrightarrow> wp m Q X w \<Longrightarrow> wp m (\<lambda>a w'. Q a w' \<and> R w w') (\<lambda>e w'. X e w' \<and> R w w') w"
  by (auto simp: wp_def effect_within_def split: prod.split sum.split) (metis snd_conv)+

lemma wp_effect_withinI: "(\<And>w. wp m (\<lambda>_. R w) (\<lambda>_. R w) w) \<Longrightarrow> effect_within R m"
  by (rule effect_withinI) (auto simp: wp_def case_prod_beta split: sum.splits)

text \<open>A cursor changes the table only where it returns.\<close>

lemma announced_cursor:
  assumes "effect_within (writes no_gauge) body"
    and "\<And>v. db v = db w \<Longrightarrow> wp body (\<lambda>a v'. P a (db v')) (\<lambda>_ _. True) v"
  shows "wp (cursor E s name True own body) (\<lambda>a w'. P a (db w') \<and> writes no_gauge w w')
    (\<lambda>_ w'. db w' = db w \<and> writes no_gauge w w') w"
  by (rule wp_and_effect [OF no_gauge.writes_cursor [OF assms(1)] cursor_any]) (auto intro: wp_mono [OF assms(2)])

lemma update_row_count: "sql_update c t now d = (Inr 0, d') \<Longrightarrow> d' = d"
  by (auto simp: sql_update_def filter_empty_conv split: if_splits)
    (rule database.equality; auto intro!: map_idI)

lemma announced_insert [keeps_intros]: "effect_within announced (insert_token E s cid t)"
proof (rule wp_effect_withinI)
  fix w :: world
  let ?body = "\<lambda>now. seqA (liftA (prepare_token (Some t))) (\<lambda>t. execute E (sql_insert (uuid_str cid)
      \<lparr> row_token = t, row_created_at = prepare_timestamp (Some now),
        row_last_updated_at = prepare_timestamp (Some now) \<rparr>))"
  have "wp (cursor E s ''insert_token'' True True (?body now)) (\<lambda>a w'. True \<and> writes no_gauge v w')
      (\<lambda>_ w'. db w' = db v \<and> writes no_gauge v w') v" for now v
    by (rule announced_cursor) (auto intro!: keeps_intros simp: wp_def split: prod.split sum.split)
  note cur = wp_mono [OF this]
  show "wp (insert_token E s cid t) (\<lambda>_. announced w) (\<lambda>_. announced w) w"
    unfolding insert_token_def wp_seqA wp_world by (rule cur) (auto simp: announced_def writes_def)
qed

lemma announced_update [keeps_intros]: "effect_within announced (update_token E s cid u)"
proof (rule wp_effect_withinI)
  fix w :: world
  let ?body = "\<lambda>now. seqA (liftA (prepare_token u)) (\<lambda>t. execute E
      (sql_update (uuid_str cid) t (prepare_timestamp (Some now))))"
  have body: "wp (?body now) (\<lambda>n v'. n = 0 \<longrightarrow> db v' = db v) (\<lambda>_ _. True) v" for now v
    unfolding wp_seqA
    by (auto simp: wp_simps intro!: wp_mono [OF execute_post] dest: update_row_count split: sum.split)
  have "wp (cursor E s ''update_token'' True True (?body now)) (\<lambda>n w'. (n = 0 \<longrightarrow> db w' = db v) \<and> writes no_gauge v w')
      (\<lambda>_ w'. db w' = db v \<and> writes no_gauge v w') v" for now v
    by (rule announced_cursor) (auto intro!: keeps_intros wp_mono [OF body])
  note cur = wp_mono [OF this]
  show "wp (update_token E s cid u) (\<lambda>_. announced w) (\<lambda>_. announced w) w"
    unfolding update_token_def wp_seqA wp_basic wp_world wp_if by (rule cur) (auto simp: announced_def writes_def)
qed

text \<open>The parts of a request that leave the table alone.\<close>

lemma no_gauge_quiet [keeps_intros]:
  "effect_within (writes no_gauge) (error_page S e d st ra)" "effect_within (writes no_gauge) (error_handler S x)"
  "effect_within (writes no_gauge) fallback_error_handler" "effect_within (writes no_gauge) (generate_key E)"
  "effect_within (writes no_gauge) (generate_id E)"
  unfolding error_page_def error_handler_def fallback_error_handler_def generate_key_def generate_id_def Let_def
  by (intro keeps_intros; simp)+

lemma announced_quiet [keeps_intros]:
  "effect_within announced (error_page S e d st ra)" "effect_within announced (error_handler S x)"
  "effect_within announced fallback_error_handler" "effect_within announced (generate_key E)"
  "effect_within announced (generate_id E)" "effect_within announced (crypto_dumps E k v)"
  "effect_within announced (observe_token_grant_age E t)" "effect_within announced (fetch E F uri ep auth data)"
  by (intro announced_same keeps_intros)+

text \<open>A cursor around a query leaves the table as it is.\<close>

lemma same_db_query [keeps_intros]:
  fixes stmt :: "'a stmt"
  assumes "\<And>d. snd (stmt d) = d"
  shows "effect_within same_db (cursor E s name False own (execute E stmt))"
proof (rule wp_effect_withinI)
  fix w :: world
  have "wp (execute E stmt) (\<lambda>a v'. db v' = db w) (\<lambda>_ v'. db v' = db w) v" if "db v = db w" for v
    using same_db_wp [OF same_db_execute [OF assms], of E v] that by simp
  then show "wp (cursor E s name False own (execute E stmt)) (\<lambda>_. same_db w) (\<lambda>_. same_db w) w"
    using cursor_any [of w "execute E stmt" "\<lambda>_ d. d = db w" False] by (simp add: same_db_def [abs_def])
qed

lemma same_db_counts: "effect_within same_db (token_state_counts E s)"
  unfolding token_state_counts_def token_state_counts_on_def case_prod_beta by (intro keeps_intros; simp)

lemma announced_lookup [keeps_intros]: "effect_within announced (lookup_token E s cid)"
proof (rule announced_same)
  show "effect_within same_db (lookup_token E s cid)"
    unfolding lookup_token_def by (intro keeps_intros) simp
qed (intro keeps_intros)

lemma announced_views [keeps_intros]:
  "effect_within (on_world announced) (authorize E S rq)" "effect_within (on_world announced) (callback E S rq)"
  "effect_within (on_world announced) (token E S rq)" "effect_within (on_world announced) (metrics S rq)"
  unfolding authorize_def callback_def exchange_code_def store_token_def token_def request_credentials_def
    lookup_grant_def decrypt_grant_def revoked_grant_def refresh_grant_def refresh_failed_def
    refresh_succeeded_def metrics_def Let_def case_prod_beta
  by (intro keeps_intros; simp)+

lemma announced_exception [keeps_intros]: "effect_within (on_world announced) (handle_exception S e)"
  unfolding handle_exception_def by (cases e) (auto intro!: keeps_intros)

lemma announced_handle: "effect_within (on_world announced) (handle E S route rq)"
  unfolding handle_def by (cases route) (simp only: view.simps; intro keeps_intros; simp)+

section \<open>The running process\<close>

text \<open>
  \<open>rn_owed\<close> counts the calls of \<open>request_refresh\<close> that requests have yet to make, \<open>rn_counts\<close> holds what
  a refresh under way has read, and \<open>rn_failed\<close> says whether the last refresh failed.
\<close>

record running =
  rn_world :: world
  rn_services :: app
  rn_telemetry :: telemetry
  rn_owed :: nat
  rn_counts :: "(nat \<times> nat) option"
  rn_failed :: bool

text \<open>The metrics that what was done between two worlds records; recording never raises.\<close>

definition metered :: "string \<Rightarrow> (nat \<Rightarrow> rat) \<Rightarrow> world \<Rightarrow> world \<Rightarrow> telemetry \<Rightarrow> telemetry" where
  "metered endpoint latency w w' t =
     projr (meter_all endpoint latency (drop (length (trace w)) (trace w')) t)"

definition refreshes_asked :: "world \<Rightarrow> world \<Rightarrow> nat" where
  "refreshes_asked w w' = count_list (drop (length (trace w)) (trace w')) RefreshRequested"

definition working :: "worker \<Rightarrow> bool" where
  "working k = (case pc k of Working g h \<Rightarrow> True | _ \<Rightarrow> False)"

text \<open>The thread of the worker moves on.\<close>

definition moved_on :: "worker \<Rightarrow> running \<Rightarrow> running" where
  "moved_on k p = p\<lparr>rn_services := (rn_services p)\<lparr>refresh_worker := Some k\<rparr>\<rparr>"

text \<open>
  The work: \<open>_refresh_metrics_in_app\<close> on the callback \<open>set_token_state_counts(token_state_counts())\<close>.
  First the counts are read, which may raise and end the refresh; then the gauge is set.
\<close>

definition read_counts :: "env \<Rightarrow> settings \<Rightarrow> running \<Rightarrow> running" where
  "read_counts E S p = (case token_state_counts E (database S) (rn_world p) of
     (Inr c, w) \<Rightarrow> p\<lparr>rn_world := w, rn_telemetry := metered [] (\<lambda>_. 0) (rn_world p) w (rn_telemetry p),
         rn_counts := Some c\<rparr>
   | (Inl e, w) \<Rightarrow>
       let w' = w\<lparr>db_open := False, trace := trace w @ [Logged LL_ERROR ''Metrics refresh failed'']\<rparr>
       in p\<lparr>rn_world := w', rn_telemetry := metered [] (\<lambda>_. 0) (rn_world p) w' (rn_telemetry p), rn_failed := True\<rparr>)"

definition set_counts :: "nat \<times> nat \<Rightarrow> running \<Rightarrow> running" where
  "set_counts c p =
     (let w' = (rn_world p)\<lparr>trace := trace (rn_world p) @ [TokenStates (fst c) (snd c)], db_open := False\<rparr>
      in p\<lparr>rn_world := w', rn_telemetry := metered [] (\<lambda>_. 0) (rn_world p) w' (rn_telemetry p),
           rn_counts := None, rn_failed := False\<rparr>)"

text \<open>The next step of the worker's thread, with its work taken apart; the thread goes on when it is done.\<close>

definition refresh_step :: "env \<Rightarrow> settings \<Rightarrow> running \<Rightarrow> running option" where
  "refresh_step E S p = (case refresh_worker (rn_services p) of
     None \<Rightarrow> None
   | Some k \<Rightarrow> (case thread_step k of
       None \<Rightarrow> None
     | Some k' \<Rightarrow> Some
         (if \<not> working k then moved_on k' p
          else case rn_counts p of
            Some c \<Rightarrow> moved_on k' (set_counts c p)
          | None \<Rightarrow> (let q = read_counts E S p in if rn_counts q = None then moved_on k' q else q))))"

inductive running_step :: "env set \<Rightarrow> settings \<Rightarrow> running \<Rightarrow> running \<Rightarrow> bool" for Es S where
  serve: "E \<in> Es \<Longrightarrow> handle E S route rq (rn_world p, s) = (Inr r, (w', s')) \<Longrightarrow>
    running_step Es S p (p\<lparr>rn_world := w',
      rn_telemetry := metered endpoint latency (rn_world p) w' (rn_telemetry p),
      rn_owed := rn_owed p + refreshes_asked (rn_world p) w'\<rparr>)"
| deliver: "rn_owed p = Suc n \<Longrightarrow>
    running_step Es S p (p\<lparr>rn_services := request_refresh (rn_services p), rn_owed := n\<rparr>)"
| refresh: "E \<in> Es \<Longrightarrow> refresh_step E S p = Some p' \<Longrightarrow> running_step Es S p p'"

inductive_cases running_stepE: "running_step Es S p p'"

text \<open>A process as \<open>start_process\<close> leaves it.\<close>

definition running_process :: "process \<Rightarrow> world \<Rightarrow> running" where
  "running_process P w = \<lparr> rn_world = w, rn_services = fa_services (ps_app P), rn_telemetry = ps_telemetry P,
     rn_owed = 0, rn_counts = None, rn_failed = False \<rparr>"

section \<open>The gauge and the table\<close>

definition table_counts :: "database \<Rightarrow> nat \<times> nat" where
  "table_counts d = (card {c. \<exists>t. grants d c = Some (Some t)}, card {c. grants d c = Some None})"

definition gauge_at :: "nat \<times> nat \<Rightarrow> telemetry \<Rightarrow> bool" where
  "gauge_at c t \<longleftrightarrow> samples t (TokenStateGauge, [''present'']) = [of_nat (fst c)]
     \<and> samples t (TokenStateGauge, [''revoked'']) = [of_nat (snd c)]"

text \<open>
  The invariant: either a refresh is asked for and not yet begun, or one is under way that has not
  read the table since it changed, or one that has read it as it is, or the last refresh failed or
  left the gauge as the table is.
\<close>

definition current :: "running \<Rightarrow> worker \<Rightarrow> bool" where
  "current p k \<longleftrightarrow> (if working k then rn_counts p = None \<or> rn_counts p = Some (table_counts (db (rn_world p)))
     else rn_failed p \<or> gauge_at (table_counts (db (rn_world p))) (rn_telemetry p))"

definition healthy :: "running \<Rightarrow> worker \<Rightarrow> bool" where
  "healthy p k \<longleftrightarrow> refresh_worker (rn_services p) = Some k \<and> worker_ok k \<and> started k \<and> \<not> stopped k
     \<and> pc k \<noteq> Exited \<and> (working k \<or> rn_counts p = None)"

definition on_course :: "running \<Rightarrow> bool" where
  "on_course p \<longleftrightarrow> ready (db (rn_world p)) \<and> (\<exists>k. healthy p k
     \<and> (0 < rn_owed p \<or> generation k \<noteq> handled_generation k \<or> current p k))"

lemma on_courseI:
  "ready (db (rn_world p)) \<Longrightarrow> healthy p k \<Longrightarrow> 0 < rn_owed p \<or> generation k \<noteq> handled_generation k \<or> current p k
   \<Longrightarrow> on_course p"
  unfolding on_course_def by blast

lemma on_courseE:
  assumes "on_course p"
  obtains k where "ready (db (rn_world p))" "healthy p k"
    "0 < rn_owed p \<or> generation k \<noteq> handled_generation k \<or> current p k"
  using assms unfolding on_course_def by blast

lemma metered_exact: "meter_all endpoint latency (drop (length (trace w)) (trace w')) t = Inr (metered endpoint latency w w' t)"
  using meter_all_grows unfolding metered_def by (metis sum.sel(2))

lemma metered_twice:
  assumes "trace w1 = trace w @ es" and "trace w2 = trace w1 @ fs"
  shows "metered e (\<lambda>_. c) w1 w2 (metered e (\<lambda>_. c) w w1 t) = metered e (\<lambda>_. c) w w2 t"
proof -
  have "meter_all e (\<lambda>_. c) es t = Inr (metered e (\<lambda>_. c) w w1 t)"
    using metered_exact [of e "\<lambda>_. c" w w1 t] assms(1) by simp
  then show ?thesis using assms by (simp add: metered_def [of e _ w1 w2] metered_def [of e _ w w2] meter_all_append bindR_def)
qed

lemma metered_no_gauge:
  assumes "writes no_gauge w w'"
  shows "gauge_at c (metered endpoint latency w w' t) = gauge_at c t"
proof -
  have "list_all (\<lambda>e. TokenStateGauge \<notin> set (touches e)) (drop (length (trace w)) (trace w'))"
    using assms no_gauge_inert by (auto simp: writes_def list_all_iff)
  from meter_all_inert [OF metered_exact this] show ?thesis by (simp add: gauge_at_def)
qed

lemma metered_gauge:
  assumes "trace w' = trace w @ [TokenStates a b]"
  shows "gauge_at (a, b) (metered endpoint latency w w' t)"
  using assms by (simp add: metered_def gauge_at_def set_gauge_def record_sample_def labels_def dict_keys_def)

section \<open>Every step keeps the process on course\<close>

text \<open>What the environment has to be like for the table to stay usable and the refresh to be exact.\<close>

definition runs_in :: "env set \<Rightarrow> bool" where
  "runs_in Es \<longleftrightarrow> (\<forall>E \<in> Es. fernet_shapes E \<and> faults_are E (\<lambda>e. e \<noteq> OperationalError NO_SUCH_TABLE))"

lemma counts_read:
  assumes "ready (db w)" and "faults_are E (\<lambda>e. e \<noteq> OperationalError NO_SUCH_TABLE)"
  shows "wp (token_state_counts E s) (\<lambda>c w'. c = table_counts (db w) \<and> db w' = db w \<and> writes no_gauge w w')
    (\<lambda>_ w'. db w' = db w \<and> writes no_gauge w w') w"
proof -
  have ok: "database_ok (db w)" using assms(1) by (simp add: ready_def)
  have "wp (token_state_counts E s) (\<lambda>c _. c = table_counts (db w)) (\<lambda>_ _. True) w"
    by (rule wp_mono [OF token_state_counts_post [OF ok assms(2)]]) (auto simp: table_counts_def state_cards [OF ok])
  from wp_and_effect [OF same_db_counts wp_and_effect [OF no_gauge_counts this]] show ?thesis
    by (rule wp_mono) (auto simp: same_db_def)
qed

lemma read_counts_result:
  assumes "ready (db (rn_world p))" and "faults_are E (\<lambda>e. e \<noteq> OperationalError NO_SUCH_TABLE)"
    and "rn_counts p = None"
  shows "db (rn_world (read_counts E S p)) = db (rn_world p)" "rn_services (read_counts E S p) = rn_services p"
    "rn_owed (read_counts E S p) = rn_owed p"
    "rn_counts (read_counts E S p) = Some (table_counts (db (rn_world p)))
      \<or> rn_counts (read_counts E S p) = None \<and> rn_failed (read_counts E S p)"
  using counts_read [OF assms(1,2), of "database S"] assms(3)
  by (auto simp: wp_def read_counts_def Let_def split: prod.splits sum.splits)

lemma set_counts_result:
  "db (rn_world (set_counts c p)) = db (rn_world p)" "rn_services (set_counts c p) = rn_services p"
  "rn_owed (set_counts c p) = rn_owed p" "rn_counts (set_counts c p) = None" "\<not> rn_failed (set_counts c p)"
  "gauge_at c (rn_telemetry (set_counts c p))"
  by (cases c; simp add: set_counts_def Let_def metered_gauge)+

text \<open>A worker that was started and not stopped, step by step.\<close>

lemma thread_phases:
  assumes "thread_step k = Some k'" and "worker_ok k" and "started k" "\<not> stopped k"
  shows "started k' \<and> \<not> stopped k' \<and> pc k' \<noteq> Exited \<and> worker_ok k' \<and> generation k' = generation k
    \<and> (if working k then \<not> working k' \<and> handled_generation k' = handled_generation k
       else if working k' then handled_generation k' = generation k' else handled_generation k' = handled_generation k)"
  using assms worker_ok_thread [OF assms(2,1)]
  by (cases "pc k"; simp add: thread_step.simps working_def worker_defs worker_ok_def split: if_splits)
    (auto simp: worker_ok_def)

lemma refresh_cases:
  assumes "refresh_step E S p = Some p'" and "healthy p k"
  obtains k' where "thread_step k = Some k'" and "\<not> working k" "p' = moved_on k' p" "rn_counts p = None"
  | k' c where "thread_step k = Some k'" and "working k" "rn_counts p = Some c" "p' = moved_on k' (set_counts c p)"
  | "working k" "rn_counts p = None" "rn_counts (read_counts E S p) \<noteq> None" "p' = read_counts E S p"
  | k' where "thread_step k = Some k'" and "working k" "rn_counts p = None" "rn_counts (read_counts E S p) = None"
      "p' = moved_on k' (read_counts E S p)"
proof -
  have k: "refresh_worker (rn_services p) = Some k" "\<not> working k \<Longrightarrow> rn_counts p = None"
    using assms(2) by (auto simp: healthy_def)
  obtain k' where k': "thread_step k = Some k'"
    using assms(1) k(1) by (auto simp: refresh_step_def split: option.splits)
  have p': "p' = (if \<not> working k then moved_on k' p else case rn_counts p of
      Some c \<Rightarrow> moved_on k' (set_counts c p)
    | None \<Rightarrow> if rn_counts (read_counts E S p) = None then moved_on k' (read_counts E S p) else read_counts E S p)"
    using assms(1) [symmetric] by (simp only: refresh_step_def k(1) k' Let_def option.case option.inject)
  show thesis
    using that k(2) k' p' by (cases "working k"; cases "rn_counts p"; cases "rn_counts (read_counts E S p)") simp_all
qed

lemma moved_on_fields [simp]:
  "rn_world (moved_on k p) = rn_world p" "rn_telemetry (moved_on k p) = rn_telemetry p"
  "rn_owed (moved_on k p) = rn_owed p" "rn_counts (moved_on k p) = rn_counts p" "rn_failed (moved_on k p) = rn_failed p"
  "refresh_worker (rn_services (moved_on k p)) = Some k"
  by (simp_all add: moved_on_def)

lemma refresh_on_course:
  assumes nf: "faults_are E (\<lambda>e. e \<noteq> OperationalError NO_SUCH_TABLE)"
    and "on_course p" and step: "refresh_step E S p = Some p'"
  shows "on_course p' \<and> rn_owed p' = rn_owed p \<and> db (rn_world p') = db (rn_world p)"
proof -
  obtain k where r: "ready (db (rn_world p))" and k: "healthy p k"
    and c: "0 < rn_owed p \<or> generation k \<noteq> handled_generation k \<or> current p k"
    using assms(2) by (rule on_courseE)
  note phases = thread_phases [of k]
  from step k show ?thesis
  proof (cases rule: refresh_cases)
    case (1 k')
    show ?thesis
      by (rule conjI [OF on_courseI [of _ k']])
        (use r k c 1 phases [OF 1(1)] in \<open>auto simp: healthy_def current_def split: if_splits\<close>)
  next
    case (2 k' c')
    show ?thesis
      by (rule conjI [OF on_courseI [of _ k']])
        (use r k c 2 phases [OF 2(1)] set_counts_result [of c' p] in \<open>auto simp: healthy_def current_def split: if_splits\<close>)
  next
    case 3
    show ?thesis
      by (rule conjI [OF on_courseI [of _ k]])
        (use r k c 3 read_counts_result [OF r nf 3(2), of S] in \<open>auto simp: healthy_def current_def\<close>)
  next
    case (4 k')
    show ?thesis
      by (rule conjI [OF on_courseI [of _ k']])
        (use r k c 4 phases [OF 4(1)] read_counts_result [OF r nf 4(3), of S] in \<open>auto simp: healthy_def current_def split: if_splits\<close>)
  qed
qed

lemma served_on_course:
  assumes "fernet_shapes E" and "on_course p" and "handle E S route rq (rn_world p, s) = (Inr r, (w', s'))"
  shows "on_course (p\<lparr>rn_world := w', rn_telemetry := metered endpoint latency (rn_world p) w' (rn_telemetry p),
    rn_owed := rn_owed p + refreshes_asked (rn_world p) w'\<rparr>)"
proof -
  obtain k where r: "ready (db (rn_world p))" and k: "healthy p k"
    and c: "0 < rn_owed p \<or> generation k \<noteq> handled_generation k \<or> current p k"
    using assms(2) by (rule on_courseE)
  have "announced (rn_world p) w'"
    using effect_withinD [OF announced_handle assms(3)] by (simp add: on_world_def)
  then have w: "writes no_gauge (rn_world p) w'"
    and asked: "db w' = db (rn_world p) \<or> refreshes_asked (rn_world p) w' \<noteq> 0"
    by (auto simp: announced_def refreshes_asked_def count_list_0_iff)
  have "ready (db w')" using request_moves [OF assms(1) r assms(3)] by simp
  then show ?thesis
    by (intro on_courseI [of _ k]) (use k c asked in \<open>auto simp: healthy_def current_def metered_no_gauge [OF w]\<close>)
qed

lemma delivered_on_course:
  assumes "on_course p"
  shows "on_course (p\<lparr>rn_services := request_refresh (rn_services p), rn_owed := n\<rparr>)"
proof -
  obtain k where "ready (db (rn_world p))" "healthy p k" using assms by (rule on_courseE)
  then show ?thesis
    by (intro on_courseI [of _ "request k"])
      (auto simp: healthy_def request_refresh_def request_def working_def worker_ok_def split: worker_pc.splits)
qed

lemma step_on_course:
  assumes "running_step Es S p p'" and "runs_in Es" and "on_course p"
  shows "on_course p'"
  using assms(1)
proof cases
  case (serve E route rq s r w' s' endpoint latency)
  then show ?thesis using assms(2,3) served_on_course by (auto simp: runs_in_def)
next
  case (deliver n)
  then show ?thesis using assms(3) delivered_on_course by simp
next
  case (refresh E)
  then show ?thesis using assms(2,3) refresh_on_course by (auto simp: runs_in_def)
qed

lemma start_process_worker:
  "wp (start_process E R K S t) (\<lambda>P w'. db w' = db w
      \<and> refresh_worker (fa_services (ps_app P)) = Some (request (request (start new_worker)))) (\<lambda>_ _. True) w"
proof -
  obtain fa t' where app: "create_app E R S t = Inr (fa, t')"
    using create_app_result by blast
  have "wp (start_runtime_services E (database S) (app_with_refresher E S))
      (\<lambda>a w'. db w' = db v \<and> refresh_worker a = Some (request (request (start new_worker)))) (\<lambda>_ _. True) v" for v
    unfolding start_runtime_services_def close_def
    using fresh_services by (auto simp: wp_simps start_background_refresh_def request_refresh_def
        intro!: wp_mono [OF is_initialized_rule])
  note services = wp_mono [OF this]
  show ?thesis
    unfolding start_process_def Let_def emit_all_def app
    by (simp add: wp_simps create_app_parts [OF app] split: prod.split) (auto intro: services)
qed

lemma started_on_course:
  assumes "start_process E R K S t w = (Inr P, w0)" and "ready (db w)"
  shows "on_course (running_process P w0)"
  using wp_Inr [OF start_process_worker assms(1)] assms(2)
  by (intro on_courseI [of _ "request (request (start new_worker))"])
    (simp_all add: healthy_def running_process_def worker_ok_def worker_defs new_worker_def)

lemma reachable_on_course:
  assumes "(running_step Es S)\<^sup>*\<^sup>* p0 p" and "runs_in Es" and "on_course p0"
  shows "on_course p"
  using assms(1,3) by (induction rule: rtranclp_induct) (auto intro: step_on_course [OF _ assms(2)])

text \<open>
  C11. When the refresh worker rests, the token gauge shows the table: in every state that a process can
  reach from its start, by any requests and any faults of the database, in any interleaving with the
  worker, if no call for a refresh is outstanding and the worker waits with nothing to do, then the
  gauge is at the numbers of clients with and without a stored token, unless the last refresh failed.
\<close>
theorem resting_gauge_shows_table:
  assumes "start_process E R K S t w = (Inr P, w0)" and "ready (db w)" and "runs_in Es"
    and "(running_step Es S)\<^sup>*\<^sup>* (running_process P w0) p"
    and "rn_owed p = 0" and "refresh_worker (rn_services p) = Some k"
    and "pc k = Waiting" and "generation k = handled_generation k"
  shows "rn_failed p
    \<or> samples (rn_telemetry p) (TokenStateGauge, [''present''])
        = [of_nat (card {c. \<exists>t. grants (db (rn_world p)) c = Some (Some t)})]
      \<and> samples (rn_telemetry p) (TokenStateGauge, [''revoked''])
        = [of_nat (card {c. grants (db (rn_world p)) c = Some None})]"
  using reachable_on_course [OF assms(4,3) started_on_course [OF assms(1,2)]] assms(5-8)
  by (auto simp: on_course_def healthy_def current_def working_def gauge_at_def table_counts_def)

section \<open>The gauge catches up\<close>

text \<open>The worker's thread running on its own: at most \<open>n\<close> of its steps.\<close>

primrec refresh_run :: "env \<Rightarrow> settings \<Rightarrow> nat \<Rightarrow> running \<Rightarrow> running" where
  "refresh_run E S 0 p = p"
| "refresh_run E S (Suc n) p = (case refresh_step E S p of None \<Rightarrow> p | Some q \<Rightarrow> refresh_run E S n q)"

text \<open>How many steps are left: the work asked for while other work runs comes after it.\<close>

definition steps_left :: "running \<Rightarrow> worker \<Rightarrow> nat" where
  "steps_left p k = (let again = if generation k \<noteq> handled_generation k then 5 else 0 in
     case pc k of
       Startup_Wait \<Rightarrow> 1 + again
     | Debouncing g \<Rightarrow> 4
     | Claiming g \<Rightarrow> 3
     | Working g h \<Rightarrow> (if rn_counts p = None then 2 else 1) + again
     | _ \<Rightarrow> again)"

lemma steps_left_bound: "steps_left p k \<le> 7"
  by (simp add: steps_left_def Let_def split: worker_pc.split)

lemma thread_steps_left:
  assumes "thread_step k = Some k'" and "healthy p k" and "rn_counts p' = None" and "working k \<longrightarrow> rn_counts p = rn_counts p'
    \<or> rn_counts p \<noteq> None"
  shows "steps_left p' k' < steps_left p k"
  using assms
  by (cases "pc k"; simp add: thread_step.simps working_def healthy_def worker_defs worker_ok_def steps_left_def split: if_splits)
    auto

text \<open>A refresh is under way or asked for, so that the failure of the last one is not the end.\<close>

definition refreshing :: "running \<Rightarrow> bool" where
  "refreshing p = (case refresh_worker (rn_services p) of
     None \<Rightarrow> False | Some k \<Rightarrow> working k \<or> generation k \<noteq> handled_generation k)"

lemma refresh_progress:
  assumes "faults_are E (\<lambda>e. e \<noteq> OperationalError NO_SUCH_TABLE)" and "ready (db (rn_world p))"
    and "healthy p k" and "refresh_step E S p = Some p'" and "healthy p' k''"
  shows "steps_left p' k'' < steps_left p k"
proof -
  have k'': "refresh_worker (rn_services p') = Some k''" using assms(5) by (simp add: healthy_def)
  from assms(4,3) show ?thesis
  proof (cases rule: refresh_cases)
    case (1 k')
    then show ?thesis using k'' thread_steps_left [OF 1(1) assms(3), of p'] by simp
  next
    case (2 k' c)
    then show ?thesis using k'' thread_steps_left [OF 2(1) assms(3), of p'] set_counts_result(4) [of c p] by simp
  next
    case 3
    then have "k'' = k"
      using k'' assms(3) read_counts_result(2) [OF assms(2,1) 3(2), of S] by (simp add: healthy_def)
    with 3 show ?thesis by (auto simp: steps_left_def working_def Let_def split: worker_pc.splits)
  next
    case (4 k')
    then show ?thesis using k'' thread_steps_left [OF 4(1) assms(3), of p'] by simp
  qed
qed

lemma refresh_blocked:
  assumes "healthy p k" and "refresh_step E S p = None"
  shows "pc k = Waiting" "generation k = handled_generation k"
  using assms
  by (auto simp: healthy_def refresh_step_def thread_step.simps worker_ok_def worker_defs Let_def
      split: worker_pc.splits if_splits option.splits)

text \<open>With a database that answers, a refresh does not fail.\<close>

lemma reading_succeeds:
  assumes "ready (db w)" and "faults_are E (\<lambda>_. False)"
  shows "wp (token_state_counts E s) (\<lambda>_ _. True) (\<lambda>_ _. False) w"
proof -
  have cols: "has_columns [''token''] (db w)"
    using assms(1) by (auto simp: ready_def has_columns_def token_columns_def split: option.splits)
  have exec: "wp (execute E sql_count_states) (\<lambda>_ v'. True) (\<lambda>e v'. False \<and> (False \<or> db v' = db w)) v"
    if "db v = db w" for v
    unfolding execute_wp
    by (rule wp_mono [OF sqlite_call_rule [OF assms(2)]]) (use cols that in \<open>auto simp: sql_count_states_def\<close>)
  have cur: "wp (cursor E s name False own (execute E sql_count_states)) (\<lambda>_ _. True) (\<lambda>_ _. False) v"
    if "db v = db w" for v name own
    using cursor_rule [of v "execute E sql_count_states" "\<lambda>_ _. True" "\<lambda>_. False" False E s name own, OF _ assms(2)]
      exec that by simp
  show ?thesis
    unfolding token_state_counts_def token_state_counts_on_def wp_seqA wp_catchA
    by (rule wp_mono [OF connect_rule [OF assms(2)]], rule wp_mono [OF cur])
      (auto simp: wp_simps split: option.split)
qed

lemma refresh_recovers:
  assumes "faults_are E (\<lambda>_. False)" and "on_course p" and "refresh_step E S p = Some p'"
    and "rn_failed p \<longrightarrow> refreshing p"
  shows "rn_failed p' \<longrightarrow> refreshing p'"
proof -
  obtain k where r: "ready (db (rn_world p))" and k: "healthy p k"
    using assms(2) by (rule on_courseE)
  have nf: "faults_are E (\<lambda>e. e \<noteq> OperationalError NO_SUCH_TABLE)" using assms(1) by (auto simp: faults_are_def)
  have k1: "refresh_worker (rn_services p) = Some k" and k2: "worker_ok k" "started k" "\<not> stopped k"
    using k by (auto simp: healthy_def)
  have read: "rn_counts (read_counts E S p) \<noteq> None" "rn_failed (read_counts E S p) = rn_failed p"
    using reading_succeeds [OF r assms(1), of "database S"]
    by (auto simp: read_counts_def wp_def split: prod.splits sum.splits)
  from assms(3) k show ?thesis
  proof (cases rule: refresh_cases)
    case (1 k')
    then show ?thesis using assms(4) k1 thread_phases [OF 1(1) k2] by (auto simp: refreshing_def)
  next
    case (2 k' c)
    then show ?thesis using set_counts_result(5) [of c p] by simp
  next
    case 3
    then show ?thesis
      using k1 read_counts_result(2) [OF r nf 3(2), of S] by (simp add: refreshing_def)
  qed (use read in simp)
qed

lemma refresh_run_settles:
  assumes "faults_are E (\<lambda>e. e \<noteq> OperationalError NO_SUCH_TABLE)" and "on_course p" and "healthy p k"
    and "steps_left p k \<le> n"
  shows "on_course (refresh_run E S n p) \<and> refresh_step E S (refresh_run E S n p) = None
    \<and> rn_owed (refresh_run E S n p) = rn_owed p \<and> db (rn_world (refresh_run E S n p)) = db (rn_world p)
    \<and> (faults_are E (\<lambda>_. False) \<longrightarrow> (rn_failed p \<longrightarrow> refreshing p)
        \<longrightarrow> rn_failed (refresh_run E S n p) \<longrightarrow> refreshing (refresh_run E S n p))"
  using assms(2-4)
proof (induction n arbitrary: p k)
  case 0
  have "refresh_step E S p = None"
  proof (rule ccontr)
    assume "refresh_step E S p \<noteq> None"
    then obtain p' where p': "refresh_step E S p = Some p'" by blast
    obtain k' where "healthy p' k'" using refresh_on_course [OF assms(1) 0(1) p'] by (auto elim: on_courseE)
    with refresh_progress [OF assms(1) _ 0(2) p'] 0 show False by (auto elim: on_courseE)
  qed
  with 0 show ?case by simp
next
  case (Suc n)
  show ?case
  proof (cases "refresh_step E S p")
    case None
    with Suc.prems(1) show ?thesis by simp
  next
    case (Some p')
    note on = refresh_on_course [OF assms(1) Suc.prems(1) Some]
    then obtain k' where k': "healthy p' k'" by (auto elim: on_courseE)
    have "steps_left p' k' \<le> n"
      using refresh_progress [OF assms(1) _ Suc.prems(2) Some k'] Suc.prems by (auto elim: on_courseE)
    from Suc.IH [OF conjunct1 [OF on] k' this] show ?thesis
      using on refresh_recovers [OF _ Suc.prems(1) Some] by (simp add: Some)
  qed
qed

text \<open>
  C12. The token gauge catches up: from every state that a process can reach, once the calls for a
  refresh have been made, at most seven steps of the worker's thread bring it to rest; they leave the
  table alone, and then the gauge shows the table or the last refresh failed.  It did not fail if the
  database answered in these steps and the refresh before had not failed or was not the last.
\<close>
theorem gauge_catches_up:
  assumes "start_process E0 R K S t w = (Inr P, w0)" and "ready (db w)" and "runs_in Es"
    and "(running_step Es S)\<^sup>*\<^sup>* (running_process P w0) p" and "rn_owed p = 0"
    and "faults_are E (\<lambda>e. e \<noteq> OperationalError NO_SUCH_TABLE)" and "refresh_run E S 7 p = q"
  shows "refresh_step E S q = None \<and> db (rn_world q) = db (rn_world p)
    \<and> (rn_failed q \<and> \<not> (faults_are E (\<lambda>_. False) \<and> (rn_failed p \<longrightarrow> refreshing p))
      \<or> samples (rn_telemetry q) (TokenStateGauge, [''present''])
          = [of_nat (card {c. \<exists>t. grants (db (rn_world p)) c = Some (Some t)})]
        \<and> samples (rn_telemetry q) (TokenStateGauge, [''revoked''])
          = [of_nat (card {c. grants (db (rn_world p)) c = Some None})])"
proof -
  have "on_course p" using assms(4,3) started_on_course [OF assms(1,2)] by (rule reachable_on_course)
  then obtain k where k: "healthy p k" by (auto elim: on_courseE)
  note run = refresh_run_settles [OF assms(6) \<open>on_course p\<close> k steps_left_bound, of S, unfolded assms(7)]
  from run have "on_course q" by blast
  then obtain k' where k': "healthy q k'" and c: "rn_owed q > 0 \<or> generation k' \<noteq> handled_generation k' \<or> current q k'"
    by (auto elim: on_courseE)
  have rest: "pc k' = Waiting" "generation k' = handled_generation k'"
    using refresh_blocked [OF k'] run by blast+
  then have "\<not> refreshing q" "\<not> working k'" using k' by (auto simp: refreshing_def healthy_def working_def)
  moreover have "rn_failed q \<or> gauge_at (table_counts (db (rn_world p))) (rn_telemetry q)"
    using c rest run assms(5) \<open>\<not> working k'\<close> by (auto simp: current_def)
  ultimately show ?thesis using run by (auto simp: gauge_at_def table_counts_def)
qed


section \<open>Instances\<close>

lemma refresh_run_reaches:
  "E \<in> Es \<Longrightarrow> (running_step Es S)\<^sup>*\<^sup>* p (refresh_run E S n p)"
proof (induction n arbitrary: p)
  case (Suc n)
  then show ?case
    by (auto split: option.split intro: running_step.refresh converse_rtranclp_into_rtranclp)
qed simp

lemma all_delivered:
  "\<exists>p'. (running_step Es S)\<^sup>*\<^sup>* p p' \<and> rn_owed p' = 0 \<and> rn_world p' = rn_world p \<and> rn_failed p' = rn_failed p"
proof (induction "rn_owed p" arbitrary: p)
  case (Suc n)
  let ?p = "p\<lparr>rn_services := request_refresh (rn_services p), rn_owed := n\<rparr>"
  have "running_step Es S p ?p" using Suc(2) by (intro running_step.deliver) simp
  with Suc(1) [of ?p] show ?case by (auto intro: converse_rtranclp_into_rtranclp)
qed auto

abbreviation login_env :: env where
  "login_env \<equiv> steady_env 200 (JObj plain_token)"

lemma login_env_runs: "runs_in {login_env}"
  using steady_env_ok(1,3) by (auto simp: runs_in_def faults_are_def)

text \<open>A process is started on an empty table and one user logs in.\<close>

lemma login_course:
  obtains P w0 p i t where "start_process login_env sample_runtime \<lparr> has_sentry_sdk = False, has_structlog_sentry = False \<rparr>
      sample_settings no_telemetry fresh_world = (Inr P, w0)"
    and "(running_step {login_env} sample_settings)\<^sup>*\<^sup>* (running_process P w0) p"
    and "rn_owed p = 0" "\<not> rn_failed p" "grants (db (rn_world p)) = [i \<mapsto> Some t]"
proof -
  let ?K = "\<lparr> has_sentry_sdk = False, has_structlog_sentry = False \<rparr>"
  have "columns (db fresh_world) \<noteq> None" by (simp add: fresh_world_def initial_world_def)
  from start_process_runs [OF steady_env_ok(1) this, of 200 "JObj plain_token" sample_runtime ?K sample_settings no_telemetry]
  obtain P w0 where start: "start_process login_env sample_runtime ?K sample_settings no_telemetry fresh_world = (Inr P, w0)"
    by (auto simp: wp_def split: prod.splits sum.splits)
  have w0: "db w0 = db fresh_world" using wp_Inr [OF start_process_post start] by simp
  then have ready: "ready (db w0)" and none: "grants (db w0) i = None" for i
    using ready_fresh fresh_ids by simp_all
  obtain r w' s' i k where run: "handle login_env sample_settings R_Callback sample_callback
      (w0, sample_login) = (Inr r, (w', s'))" and shown: "shows_credentials r i k"
    using login_run [OF ready steady_env_ok none sample_callback_accepted steady_grants [OF plain_token_facts(1,2)]] .
  have "grants (db w0) = Map.empty" using none by auto
  then obtain t j where t: "grants (db w') = [j \<mapsto> Some t]"
    using handle_callback_post [OF ready run] shown by (auto simp: callback_effect_def grant_added_def)
  let ?p = "(running_process P w0)\<lparr>rn_world := w',
      rn_telemetry := metered ''callback'' (\<lambda>_. 0) w0 w' (rn_telemetry (running_process P w0)),
      rn_owed := rn_owed (running_process P w0) + refreshes_asked w0 w'\<rparr>"
  have "running_step {login_env} sample_settings (running_process P w0) ?p"
    using running_step.serve [of login_env "{login_env}" sample_settings R_Callback sample_callback "running_process P w0"] run
    by (simp add: running_process_def)
  moreover obtain p where "(running_step {login_env} sample_settings)\<^sup>*\<^sup>* ?p p" "rn_owed p = 0"
    "rn_world p = w'" "rn_failed p = rn_failed (running_process P w0)"
    using all_delivered [of "{login_env}" sample_settings ?p] by auto
  ultimately show thesis
    using that [OF start, of p j t] t by (auto simp: running_process_def intro: converse_rtranclp_into_rtranclp)
qed

lemma one_grant: "card {c. \<exists>u. [i \<mapsto> Some t] c = Some (Some u)} = 1" "card {c. [i \<mapsto> Some t] c = Some None} = 0"
proof -
  have "{c. \<exists>u. [i \<mapsto> Some t] c = Some (Some u)} = {i}" "{c. [i \<mapsto> Some t] c = Some None} = {}"
    by (auto split: if_splits)
  then show "card {c. \<exists>u. [i \<mapsto> Some t] c = Some (Some u)} = 1" "card {c. [i \<mapsto> Some t] c = Some None} = 0"
    by simp_all
qed

theorem gauge_catches_up_witness:
  "\<exists>P w0 p. (running_step {login_env} sample_settings)\<^sup>*\<^sup>* (running_process P w0) p
     \<and> samples (rn_telemetry (refresh_run login_env sample_settings 7 p)) (TokenStateGauge, [''present'']) = [1]
     \<and> samples (rn_telemetry (refresh_run login_env sample_settings 7 p)) (TokenStateGauge, [''revoked'']) = [0]"
proof -
  obtain P w0 p i t where start: "start_process login_env sample_runtime \<lparr> has_sentry_sdk = False, has_structlog_sentry = False \<rparr>
      sample_settings no_telemetry fresh_world = (Inr P, w0)"
    and reach: "(running_step {login_env} sample_settings)\<^sup>*\<^sup>* (running_process P w0) p"
    and p: "rn_owed p = 0" "\<not> rn_failed p" "grants (db (rn_world p)) = [i \<mapsto> Some t]"
    by (rule login_course)
  have nf: "faults_are login_env (\<lambda>e. e \<noteq> OperationalError NO_SUCH_TABLE)"
    using login_env_runs by (simp add: runs_in_def)
  from gauge_catches_up [OF start ready_fresh login_env_runs reach p(1) nf refl] p(2) steady_env_ok(1) reach
  show ?thesis unfolding p(3) one_grant by auto
qed

theorem resting_gauge_shows_table_witness:
  "\<exists>P w0 p. (running_step {login_env} sample_settings)\<^sup>*\<^sup>* (running_process P w0) p
     \<and> card {c. \<exists>t. grants (db (rn_world p)) c = Some (Some t)} = 1
     \<and> samples (rn_telemetry p) (TokenStateGauge, [''present'']) = [1]"
proof -
  obtain P w0 p i t where start: "start_process login_env sample_runtime \<lparr> has_sentry_sdk = False, has_structlog_sentry = False \<rparr>
      sample_settings no_telemetry fresh_world = (Inr P, w0)"
    and reach: "(running_step {login_env} sample_settings)\<^sup>*\<^sup>* (running_process P w0) p"
    and p: "rn_owed p = 0" "\<not> rn_failed p" "grants (db (rn_world p)) = [i \<mapsto> Some t]"
    by (rule login_course)
  let ?q = "refresh_run login_env sample_settings 7 p"
  have nf: "faults_are login_env (\<lambda>e. e \<noteq> OperationalError NO_SUCH_TABLE)"
    using login_env_runs by (simp add: runs_in_def)
  have course: "on_course p"
    using reach login_env_runs started_on_course [OF start ready_fresh] by (rule reachable_on_course)
  then obtain k where k: "healthy p k" by (auto elim: on_courseE)
  note run = refresh_run_settles [OF nf course k steps_left_bound, of sample_settings]
  then have "on_course ?q" by blast
  then obtain k' where k': "healthy ?q k'" by (auto elim: on_courseE)
  have rest: "pc k' = Waiting" "generation k' = handled_generation k'"
    using refresh_blocked [OF k'] run by blast+
  have "\<not> refreshing ?q" using k' rest by (auto simp: refreshing_def healthy_def working_def)
  then have "\<not> rn_failed ?q" using run p(2) steady_env_ok(1) by blast
  moreover have q: "(running_step {login_env} sample_settings)\<^sup>*\<^sup>* (running_process P w0) ?q"
    using reach refresh_run_reaches by (rule rtranclp_trans) simp
  moreover have "rn_owed ?q = 0" "grants (db (rn_world ?q)) = [i \<mapsto> Some t]" "refresh_worker (rn_services ?q) = Some k'"
    using run p k' by (auto simp: healthy_def)
  ultimately show ?thesis
    using resting_gauge_shows_table [OF start ready_fresh login_env_runs q _ _ rest] one_grant [of i t] by fastforce
qed

definition refreshing_sample :: running where
  "refreshing_sample = \<lparr> rn_world = mixed_world,
     rn_services = (app_with_refresher sample_env sample_settings)\<lparr>refresh_worker := Some busy_worker\<rparr>,
     rn_telemetry = no_telemetry, rn_owed = 0, rn_counts = None, rn_failed = False \<rparr>"


text \<open>
  A refresh that fails is not retried: the requests it was started for count as handled, so the gauge
  stays behind the table until the table changes again.
\<close>

definition failing_env :: env where
  "failing_env = sample_env\<lparr>db_faults := (\<lambda>_. Some (OperationalError ''disk I/O error''))\<rparr>"

lemma failed_refresh_is_not_retried:
  "let q = refresh_run failing_env sample_settings 1 refreshing_sample
   in rn_failed q \<and> \<not> gauge_at (table_counts (db (rn_world q))) (rn_telemetry q) \<and> (\<forall>E S n. refresh_run E S n q = q)"
proof -
  let ?q = "refresh_run failing_env sample_settings 1 refreshing_sample"
  have k: "refresh_worker (rn_services refreshing_sample) = Some busy_worker" "working busy_worker"
    "thread_step busy_worker = Some (busy_worker\<lparr>pc := Waiting\<rparr>)" "rn_counts refreshing_sample = None"
    by (simp_all add: refreshing_sample_def busy_state working_def thread_step.simps)
  have fails: "token_state_counts failing_env (database sample_settings) mixed_world
      = (Inl (OperationalError ''disk I/O error''), mixed_world\<lparr>ticks := Suc (ticks mixed_world)\<rparr>)"
    by (simp add: token_state_counts_def connect_def sqlite_call_def failing_env_def act_simps)
  have q: "?q = moved_on (busy_worker\<lparr>pc := Waiting\<rparr>) (read_counts failing_env sample_settings refreshing_sample)"
    using k fails by (simp add: refresh_step_def read_counts_def Let_def refreshing_sample_def)
  have "trace mixed_world = []" by (simp add: mixed_world_def fresh_world_def initial_world_def)
  then have "rn_failed ?q" "rn_telemetry ?q = no_telemetry"
    unfolding q using fails by (simp_all add: read_counts_def Let_def refreshing_sample_def metered_def)
  moreover have "refresh_step E S ?q = None" for E S
    unfolding q by (simp add: refresh_step_def busy_state thread_step.simps)
  then have "refresh_run E S n ?q = ?q" for E S n by (cases n) (simp_all del: One_nat_def)
  ultimately show ?thesis by (simp add: gauge_at_def no_telemetry_def Let_def)
qed

end
