(* ===== verification/Provider_Models.thy ===== *)
theory Provider_Models
  imports Uri "HOL-Library.List_Lexorder" "HOL-Library.Char_ord"
begin

text \<open>
  \<open>models.py\<close>: the models for the provider's responses, which the application does not use yet.

  A model is a set of validators around pydantic's own conversions.  The validators are translated;
  the conversions (text, integers, sets of texts, in pydantic's lax mode) and the order in which a set
  is written are the parameter \<open>pydantic\<close>, and what is relied on is \<open>pydantic_ok\<close>.  Pydantic turns a
  \<open>ValueError\<close> of a validator into a \<open>ValidationError\<close> after all fields were looked at; any other
  exception leaves \<open>model_validate\<close> at once.  A response without a wrapper object is no model.
\<close>

section \<open>Conversions\<close>

datatype model_error = Validation_Error | Overflow_Error

record pydantic =
  lax_str :: "json \<Rightarrow> string option"
  lax_int :: "json \<Rightarrow> int option"
  lax_str_set :: "json \<Rightarrow> string set option"
  set_order :: "string set \<Rightarrow> string list"

definition pydantic_ok :: "pydantic \<Rightarrow> bool" where
  "pydantic_ok P \<longleftrightarrow> (\<forall>v s. lax_str P v = Some s \<longleftrightarrow> v = JStr s) \<and> (\<forall>i. lax_int P (JInt i) = Some i)
     \<and> (\<forall>ss. lax_str_set P (JArr (map JStr ss)) = Some (set ss))
     \<and> (\<forall>v A. lax_str_set P v = Some A \<longrightarrow> finite A)
     \<and> (\<forall>A. finite A \<longrightarrow> set (set_order P A) = A)"

text \<open>\<open>str.lower\<close> on the code points below 256.\<close>

definition py_lower_char :: "char \<Rightarrow> char" where
  "py_lower_char c = (let n = (of_char c :: nat) in
     if 65 \<le> n \<and> n \<le> 90 \<or> 192 \<le> n \<and> n \<le> 222 \<and> n \<noteq> 215 then char_of (n + 32) else c)"

definition py_lower :: "string \<Rightarrow> string" where
  "py_lower s = map py_lower_char s"

text \<open>The validators that run before pydantic's own conversion of a field.\<close>

definition coerce_float_to_int :: "json \<Rightarrow> model_error + json" where
  "coerce_float_to_int v = (case v of
     JFloat f \<Rightarrow> if f = ''inf'' \<or> f = ''-inf'' then Inl Overflow_Error
       else if f = ''nan'' then Inl Validation_Error
       else Inr (JInt (trunc_rat (float_val f)))
   | _ \<Rightarrow> Inr v)"

definition normalize_token_type_to_lowercase :: "json \<Rightarrow> json" where
  "normalize_token_type_to_lowercase v = (case v of JStr s \<Rightarrow> JStr (py_lower s) | _ \<Rightarrow> v)"

definition coerce_scope_to_set :: "json \<Rightarrow> json + string set" where
  "coerce_scope_to_set v = (case v of JStr s \<Rightarrow> Inr (set (split_on (CHR '' '') s)) | _ \<Rightarrow> Inl v)"

text \<open>\<open>time.time() + n\<close>: an integer that is no finite float raises.\<close>

definition add_seconds :: "rat \<Rightarrow> int \<Rightarrow> model_error + rat" where
  "add_seconds now n = (if 2 ^ 1024 - 2 ^ 970 \<le> \<bar>n\<bar> then Inl Overflow_Error else Inr (now + of_int n))"

section \<open>The models\<close>

text \<open>A required field, and a field that may be missing or null.\<close>

definition required :: "(json \<Rightarrow> 'a option) \<Rightarrow> json option \<Rightarrow> model_error + 'a" where
  "required conv v = (case v of None \<Rightarrow> Inl Validation_Error | Some x \<Rightarrow>
     (case conv x of None \<Rightarrow> Inl Validation_Error | Some a \<Rightarrow> Inr a))"

definition optional :: "(json \<Rightarrow> 'a option) \<Rightarrow> json option \<Rightarrow> model_error + 'a option" where
  "optional conv v = (case v of None \<Rightarrow> Inr None | Some JNull \<Rightarrow> Inr None
   | Some x \<Rightarrow> (case conv x of None \<Rightarrow> Inl Validation_Error | Some a \<Rightarrow> Inr (Some a)))"

definition extra_fields :: "string list \<Rightarrow> json dict \<Rightarrow> json dict" where
  "extra_fields known d = filter (\<lambda>(k, _). k \<notin> set known) d"

record error_response =
  er_error :: string
  er_error_description :: "string option"
  er_error_uri :: "string option"
  er_extra :: "json dict"

definition validate_error_response :: "pydantic \<Rightarrow> json dict \<Rightarrow> model_error + error_response" where
  "validate_error_response P d =
     bindR (required (lax_str P) (map_of d ''error'')) (\<lambda>err.
     bindR (optional (lax_str P) (map_of d ''error_description'')) (\<lambda>description.
     bindR (optional (lax_str P) (map_of d ''error_uri'')) (\<lambda>uri.
       Inr \<lparr> er_error = err, er_error_description = description, er_error_uri = uri,
             er_extra = extra_fields [''error'', ''error_description'', ''error_uri''] d \<rparr>)))"

record token_response =
  tk_token_type :: string
  tk_access_token :: string
  tk_refresh_token :: "string option"
  tk_id_token :: "string option"
  tk_scope :: "string set option"
  tk_expires_at :: "int option"
  tk_expires_in :: "int option"
  tk_extra :: "json dict"

definition token_fields :: "string list" where
  "token_fields = [''token_type'', ''access_token'', ''refresh_token'', ''id_token'', ''scope'',
     ''expires_at'', ''expires_in'']"

text \<open>The validator that runs after the fields; \<open>expires_in\<close> is positive when it is set.\<close>

definition calculate_expires_at_from_expires_in ::
    "rat \<Rightarrow> token_response \<Rightarrow> model_error + token_response" where
  "calculate_expires_at_from_expires_in now r =
     (if tk_expires_in r \<notin> {None, Some 0} \<and> tk_expires_at r \<in> {None, Some 0} then
        bindR (add_seconds now (the (tk_expires_in r))) (\<lambda>t. Inr (r\<lparr>tk_expires_at := Some (trunc_rat t)\<rparr>))
      else Inr r)"

text \<open>A time field: the coercion, then pydantic's conversion, then \<open>gt\<close> where it is given.\<close>

definition seconds_field :: "pydantic \<Rightarrow> (int \<Rightarrow> bool) \<Rightarrow> json option \<Rightarrow> model_error + int option" where
  "seconds_field P ok v = (case v of None \<Rightarrow> Inr None | Some x \<Rightarrow>
     bindR (coerce_float_to_int x) (\<lambda>y.
       optional (\<lambda>z. case lax_int P z of None \<Rightarrow> None | Some i \<Rightarrow> if ok i then Some i else None) (Some y)))"

definition scope_field :: "pydantic \<Rightarrow> json option \<Rightarrow> model_error + string set option" where
  "scope_field P v = (case v of None \<Rightarrow> Inr None | Some x \<Rightarrow>
     (case coerce_scope_to_set x of Inr A \<Rightarrow> Inr (Some A) | Inl y \<Rightarrow> optional (lax_str_set P) (Some y)))"

definition validate_token_response :: "pydantic \<Rightarrow> rat \<Rightarrow> json dict \<Rightarrow> model_error + token_response" where
  "validate_token_response P now d =
     (let expiry = seconds_field P (\<lambda>_. True) (map_of d ''expires_at'');
          lifetime = seconds_field P (\<lambda>i. 0 < i) (map_of d ''expires_in'')
      in if expiry = Inl Overflow_Error \<or> lifetime = Inl Overflow_Error then Inl Overflow_Error else
     bindR (required (lax_str P) (map_option normalize_token_type_to_lowercase (map_of d ''token_type''))) (\<lambda>token_type.
     bindR (required (lax_str P) (map_of d ''access_token'')) (\<lambda>access.
     bindR (optional (lax_str P) (map_of d ''refresh_token'')) (\<lambda>refresh.
     bindR (optional (lax_str P) (map_of d ''id_token'')) (\<lambda>id_token.
     bindR (scope_field P (map_of d ''scope'')) (\<lambda>scope.
     bindR expiry (\<lambda>expires_at.
     bindR lifetime (\<lambda>expires_in.
       calculate_expires_at_from_expires_in now
         \<lparr> tk_token_type = token_type, tk_access_token = access, tk_refresh_token = refresh, tk_id_token = id_token,
           tk_scope = scope, tk_expires_at = expires_at, tk_expires_in = expires_in,
           tk_extra = extra_fields token_fields d \<rparr>))))))))"

definition is_expired :: "rat \<Rightarrow> int \<Rightarrow> token_response \<Rightarrow> bool" where
  "is_expired now leeway r = (case tk_expires_at r of None \<Rightarrow> False
   | Some t \<Rightarrow> of_int t < now + of_int leeway)"

text \<open>\<open>model_dump(mode='json')\<close>: the fields in their order without the excluded one, then the others.\<close>

definition dump_secret_in_json_mode :: "string option \<Rightarrow> json" where
  "dump_secret_in_json_mode v = (case v of None \<Rightarrow> JNull | Some s \<Rightarrow> JStr s)"

definition dump_token_response :: "pydantic \<Rightarrow> token_response \<Rightarrow> json dict" where
  "dump_token_response P r =
     [(''token_type'', JStr (tk_token_type r)),
      (''access_token'', dump_secret_in_json_mode (Some (tk_access_token r))),
      (''refresh_token'', dump_secret_in_json_mode (tk_refresh_token r)),
      (''id_token'', dump_secret_in_json_mode (tk_id_token r)),
      (''scope'', case tk_scope r of None \<Rightarrow> JNull | Some A \<Rightarrow> JArr (map JStr (set_order P A))),
      (''expires_at'', case tk_expires_at r of None \<Rightarrow> JNull | Some t \<Rightarrow> JInt t)]
     @ tk_extra r"

section \<open>What a validated token is\<close>

lemma py_lower_char_idem: "py_lower_char (py_lower_char c) = py_lower_char c"
proof -
  have "(of_char c :: nat) < 256" using range_nat_of_char by (metis atLeastLessThan_iff rangeI)
  then show ?thesis
    by (auto simp: py_lower_char_def Let_def take_bit_eq_mod)
qed

lemma py_lower_idem [simp]: "py_lower (py_lower s) = py_lower s"
  by (simp add: py_lower_def py_lower_char_idem)

text \<open>The type is in lower case, a scope is finite, a token with a life time has an expiry.\<close>

definition token_ok :: "token_response \<Rightarrow> bool" where
  "token_ok r \<longleftrightarrow> py_lower (tk_token_type r) = tk_token_type r
     \<and> (\<forall>A. tk_scope r = Some A \<longrightarrow> finite A)
     \<and> (\<forall>n. tk_expires_in r = Some n \<longrightarrow> 0 < n \<and> tk_expires_at r \<noteq> None)
     \<and> list_all (\<lambda>(k, _). k \<notin> set token_fields) (tk_extra r)"

lemma optional_simps [simp]:
  "optional conv None = Inr None" "optional conv (Some JNull) = Inr None"
  "conv x = Some a \<Longrightarrow> x \<noteq> JNull \<Longrightarrow> optional conv (Some x) = Inr (Some a)"
  by (cases x; simp add: optional_def)+

lemma optional_Some: "optional conv v = Inr (Some a) \<Longrightarrow> \<exists>x. v = Some x \<and> conv x = Some a"
  by (auto simp: optional_def split: option.splits json.splits)

lemma seconds_field_Some: "seconds_field P ok v = Inr (Some i) \<Longrightarrow> ok i"
  by (auto simp: seconds_field_def bindR_eq_Inr split: option.splits if_splits dest!: optional_Some)

lemma scope_field_finite: "pydantic_ok P \<Longrightarrow> scope_field P v = Inr (Some A) \<Longrightarrow> finite A"
  by (auto simp: scope_field_def coerce_scope_to_set_def pydantic_ok_def
      split: option.splits sum.splits json.splits dest!: optional_Some)

text \<open>The fields of a validated token and the dictionary they were read from.\<close>

lemma validated_fields:
  assumes "validate_token_response P now d = Inr r"
  obtains ttype access refresh ident scope expiry lifetime where
    "required (lax_str P) (map_option normalize_token_type_to_lowercase (map_of d ''token_type'')) = Inr ttype"
    "scope_field P (map_of d ''scope'') = Inr scope"
    "seconds_field P (\<lambda>_. True) (map_of d ''expires_at'') = Inr expiry"
    "seconds_field P (\<lambda>i. 0 < i) (map_of d ''expires_in'') = Inr lifetime"
    "calculate_expires_at_from_expires_in now
       \<lparr> tk_token_type = ttype, tk_access_token = access, tk_refresh_token = refresh, tk_id_token = ident,
         tk_scope = scope, tk_expires_at = expiry, tk_expires_in = lifetime,
         tk_extra = extra_fields token_fields d \<rparr> = Inr r"
  using assms unfolding validate_token_response_def Let_def
  by (auto simp: bindR_eq_Inr split: if_splits)

lemma required_Inr: "required conv v = Inr a \<Longrightarrow> \<exists>x. v = Some x \<and> conv x = Some a"
  by (auto simp: required_def split: option.splits)

lemma normalized_type_lower:
  "pydantic_ok P \<Longrightarrow> required (lax_str P) (map_option normalize_token_type_to_lowercase v) = Inr t
   \<Longrightarrow> py_lower t = t"
  by (auto simp: pydantic_ok_def normalize_token_type_to_lowercase_def split: json.splits dest!: required_Inr)

lemma validated_token_ok:
  assumes "pydantic_ok P" and "validate_token_response P now d = Inr r"
  shows "token_ok r"
proof -
  from assms(2) obtain ttype access refresh ident scope expiry lifetime where
    ttype: "required (lax_str P) (map_option normalize_token_type_to_lowercase (map_of d ''token_type'')) = Inr ttype"
    and scope: "scope_field P (map_of d ''scope'') = Inr scope"
    and lifetime: "seconds_field P (\<lambda>i. 0 < i) (map_of d ''expires_in'') = Inr lifetime"
    and r: "calculate_expires_at_from_expires_in now
       \<lparr> tk_token_type = ttype, tk_access_token = access, tk_refresh_token = refresh, tk_id_token = ident,
         tk_scope = scope, tk_expires_at = expiry, tk_expires_in = lifetime,
         tk_extra = extra_fields token_fields d \<rparr> = Inr r"
    by (rule validated_fields)
  have "py_lower ttype = ttype" using assms(1) ttype by (rule normalized_type_lower)
  moreover have "finite A" if "scope = Some A" for A
    using scope_field_finite [OF assms(1)] scope that by simp
  moreover have "0 < n" if "lifetime = Some n" for n
    using lifetime that by (blast dest: seconds_field_Some)
  moreover have "list_all (\<lambda>(k, _). k \<notin> set token_fields) (extra_fields token_fields d)"
    by (auto simp: list_all_iff extra_fields_def)
  ultimately show ?thesis
    using r by (auto simp: calculate_expires_at_from_expires_in_def token_ok_def bindR_eq_Inr split: if_splits)
qed

text \<open>\<open>int\<close> of an infinite float raises no \<open>ValueError\<close>, so the exception leaves \<open>model_validate\<close>.\<close>

lemma infinite_lifetime_overflows:
  "map_of d ''expires_in'' = Some (JFloat ''inf'') \<Longrightarrow> validate_token_response P now d = Inl Overflow_Error"
  by (simp add: validate_token_response_def seconds_field_def coerce_float_to_int_def)

section \<open>What is dumped\<close>

lemma extra_of_dump:
  assumes "token_ok r"
  shows "extra_fields token_fields (dump_token_response P r) = tk_extra r"
proof -
  have "filter (\<lambda>(k, _). k \<notin> set token_fields) (tk_extra r) = tk_extra r"
    using assms by (simp add: filter_id_conv token_ok_def list_all_iff)
  then show ?thesis by (simp add: extra_fields_def dump_token_response_def token_fields_def)
qed

lemma dump_lookup:
  assumes "token_ok r"
  shows "map_of (dump_token_response P r) ''token_type'' = Some (JStr (tk_token_type r))"
    and "map_of (dump_token_response P r) ''access_token'' = Some (JStr (tk_access_token r))"
    and "map_of (dump_token_response P r) ''refresh_token'' = Some (dump_secret_in_json_mode (tk_refresh_token r))"
    and "map_of (dump_token_response P r) ''id_token'' = Some (dump_secret_in_json_mode (tk_id_token r))"
    and "map_of (dump_token_response P r) ''scope''
      = Some (case tk_scope r of None \<Rightarrow> JNull | Some A \<Rightarrow> JArr (map JStr (set_order P A)))"
    and "map_of (dump_token_response P r) ''expires_at''
      = Some (case tk_expires_at r of None \<Rightarrow> JNull | Some t \<Rightarrow> JInt t)"
    and "map_of (dump_token_response P r) ''expires_in'' = None"
proof -
  have "map_of (tk_extra r) ''expires_in'' = None"
    using assms by (auto simp: token_ok_def list_all_iff token_fields_def map_of_eq_None_iff)
  then show "map_of (dump_token_response P r) ''expires_in'' = None"
    by (simp add: dump_token_response_def)
qed (simp_all add: dump_token_response_def dump_secret_in_json_mode_def)

lemma dumped_scope:
  assumes "pydantic_ok P" and "token_ok r"
  shows "scope_field P (map_of (dump_token_response P r) ''scope'') = Inr (tk_scope r)"
proof (cases "tk_scope r")
  case None
  then show ?thesis using assms(2) by (simp add: dump_lookup scope_field_def coerce_scope_to_set_def)
next
  case (Some A)
  then have "finite A" using assms(2) by (simp add: token_ok_def)
  with Some assms show ?thesis
    by (simp add: dump_lookup scope_field_def coerce_scope_to_set_def pydantic_ok_def)
qed

lemma dumped_secret: "pydantic_ok P \<Longrightarrow> optional (lax_str P) (Some (dump_secret_in_json_mode v)) = Inr v"
  by (cases v) (simp_all add: dump_secret_in_json_mode_def pydantic_ok_def)

lemma dumped_expiry:
  "pydantic_ok P \<Longrightarrow> seconds_field P (\<lambda>_. True) (Some (case v of None \<Rightarrow> JNull | Some t \<Rightarrow> JInt t)) = Inr v"
  by (cases v) (simp_all add: seconds_field_def coerce_float_to_int_def pydantic_ok_def)

text \<open>
  C39.  A token that was validated and written out is read back unchanged at any later time: in
  particular its expiry does not move, since the life time it was computed from is not written.
\<close>

theorem dumped_token_roundtrip:
  assumes "pydantic_ok P" and "validate_token_response P now d = Inr r"
  shows "validate_token_response P later (dump_token_response P r) = Inr (r\<lparr>tk_expires_in := None\<rparr>)"
proof -
  have ok: "token_ok r" using assms by (rule validated_token_ok)
  have conv: "lax_str P (JStr s) = Some s" for s using assms(1) by (simp add: pydantic_ok_def)
  have lower: "py_lower (tk_token_type r) = tk_token_type r" using ok by (simp add: token_ok_def)
  show ?thesis
    using dumped_scope [OF assms(1) ok]
    by (simp add: validate_token_response_def Let_def dump_lookup [OF ok] extra_of_dump [OF ok] required_def
        normalize_token_type_to_lowercase_def lower conv dumped_secret [OF assms(1)]
        dumped_expiry [OF assms(1)] seconds_field_def [of P "\<lambda>i. 0 < i"]
        calculate_expires_at_from_expires_in_def)
qed

definition sample_pydantic :: pydantic where
  "sample_pydantic = \<lparr> lax_str = (\<lambda>v. case v of JStr s \<Rightarrow> Some s | _ \<Rightarrow> None),
     lax_int = (\<lambda>v. case v of JInt i \<Rightarrow> Some i | _ \<Rightarrow> None),
     lax_str_set = (\<lambda>v. case v of JArr xs \<Rightarrow>
       if list_all (\<lambda>x. case x of JStr _ \<Rightarrow> True | _ \<Rightarrow> False) xs then Some (set (map py_str xs)) else None | _ \<Rightarrow> None),
     set_order = sorted_list_of_set \<rparr>"

lemma sample_pydantic_ok: "pydantic_ok sample_pydantic"
  by (auto simp: pydantic_ok_def sample_pydantic_def list_all_iff image_image comp_def
      split: json.splits if_splits)

definition sample_payload :: "json dict" where
  "sample_payload = [(''access_token'', JStr ''a''), (''token_type'', JStr ''Bearer''), (''expires_in'', JFloat ''3600.5''),
     (''scope'', JStr ''read write''), (''user'', JInt 7)]"

definition sample_token :: token_response where
  "sample_token = \<lparr> tk_token_type = ''bearer'', tk_access_token = ''a'', tk_refresh_token = None, tk_id_token = None,
     tk_scope = Some {''read'', ''write''}, tk_expires_at = Some 4600, tk_expires_in = Some 3600,
     tk_extra = [(''user'', JInt 7)] \<rparr>"

lemma sample_validated: "validate_token_response sample_pydantic (1000 + 1 / 2) sample_payload = Inr sample_token"
proof -
  have b: "char_of (98 :: nat) = CHR ''b''" by code_simp
  have f: "\<lfloor>7201 / 2 :: rat\<rfloor> = 3600" "\<lfloor>2001 / 2 :: rat\<rfloor> = 1000"
    "\<lfloor>9201 / 2 :: rat\<rfloor> = 4600" by (simp_all add: floor_eq_iff)
  show ?thesis
    by (simp add: b f validate_token_response_def sample_pydantic_def sample_payload_def sample_token_def
      seconds_field_def coerce_float_to_int_def float_val_def digits_val_def digit_val_def exp_val_def pow10_def
      trunc_rat_def optional_def required_def normalize_token_type_to_lowercase_def py_lower_def
      py_lower_char_def scope_field_def coerce_scope_to_set_def extra_fields_def token_fields_def
      calculate_expires_at_from_expires_in_def add_seconds_def)
qed

theorem dumped_token_roundtrip_witness:
  "validate_token_response sample_pydantic 2000 (dump_token_response sample_pydantic sample_token)
     = Inr (sample_token\<lparr>tk_expires_in := None\<rparr>)"
  by (rule dumped_token_roundtrip [OF sample_pydantic_ok sample_validated])

text \<open>
  A token that came with a life time and no expiry is refused from \<open>leeway\<close> seconds before the
  provider's expiry on, and at most one second earlier than that.
\<close>

theorem expiry_from_lifetime:
  assumes "validate_token_response P now d = Inr r" and "tk_expires_in r = Some n" and "0 \<le> now"
    and "map_of d ''expires_at'' = None"
  shows "(now + of_int n < later + of_int leeway \<longrightarrow> is_expired later leeway r)
    \<and> (is_expired later leeway r \<longrightarrow> now + of_int n - 1 < later + of_int leeway)"
proof -
  from assms(1) obtain ttype access refresh ident scope expiry lifetime where
    expiry: "seconds_field P (\<lambda>_. True) (map_of d ''expires_at'') = Inr expiry"
    and lifetime: "seconds_field P (\<lambda>i. 0 < i) (map_of d ''expires_in'') = Inr lifetime"
    and r: "calculate_expires_at_from_expires_in now
       \<lparr> tk_token_type = ttype, tk_access_token = access, tk_refresh_token = refresh, tk_id_token = ident,
         tk_scope = scope, tk_expires_at = expiry, tk_expires_in = lifetime,
         tk_extra = extra_fields token_fields d \<rparr> = Inr r"
    by (rule validated_fields)
  have none: "expiry = None" using expiry assms(4) by (simp add: seconds_field_def)
  have n: "lifetime = Some n"
    using r assms(2) by (auto simp: calculate_expires_at_from_expires_in_def bindR_eq_Inr split: if_splits)
  with lifetime have pos: "0 < n" by (blast dest: seconds_field_Some)
  from r none n pos have "tk_expires_at r = Some (trunc_rat (now + of_int n))"
    by (auto simp: calculate_expires_at_from_expires_in_def bindR_eq_Inr add_seconds_def split: if_splits)
  moreover have "trunc_rat (now + of_int n) = \<lfloor>now + of_int n\<rfloor>"
    using pos assms(3) by (simp add: trunc_rat_def)
  ultimately have at: "tk_expires_at r = Some \<lfloor>now + of_int n\<rfloor>" by simp
  have "of_int \<lfloor>now\<rfloor> \<le> now" and "now < of_int \<lfloor>now\<rfloor> + 1" by linarith+
  then show ?thesis by (simp add: is_expired_def at) linarith
qed

theorem expiry_from_lifetime_witness:
  "is_expired 4500 120 sample_token \<and> \<not> is_expired 4400 120 sample_token"
proof -
  have "map_of sample_payload ''expires_at'' = None" by (simp add: sample_payload_def)
  from expiry_from_lifetime [OF sample_validated _ _ this, of 3600]
  show ?thesis by (force simp: sample_token_def)
qed

end
