(* ===== verification/Captured.thy ===== *)
theory Captured
  imports Observability
begin

text \<open>
  \<open>pytest_otel_capture\<close> and \<open>pytest_sentry_capture\<close>: what the tests use to look at captured spans, log
  records, metrics and Sentry envelopes.

  The exporters and the transport of the libraries are lists that are read and cleared.  A Python
  generator is the list of what it yields, an exception as its last element; a loop over it that
  returns early does not reach an exception further on.  Scopes are represented by their names.
\<close>

section \<open>Collected telemetry\<close>

datatype test_error = Assertion_Error | Raises pyexn

record readable_span =
  rs_name :: string
  rs_attributes :: "json dict option"
  rs_resource :: "json dict"
  rs_scope :: "string option"
  rs_status :: string
  rs_events :: "(string \<times> json dict) list"
  rs_context :: "(int \<times> int) option"

text \<open>A collected span: the span and its context, trace id and span id.\<close>

type_synonym collected_span = "readable_span \<times> int \<times> int"

definition CollectedSpan :: "readable_span \<Rightarrow> test_error + collected_span" where
  "CollectedSpan s = (case rs_context s of None \<Rightarrow> Inl Assertion_Error | Some context \<Rightarrow> Inr (s, context))"

record collected_log =
  cl_scope :: "string option"
  cl_resource :: "json dict"
  cl_attributes :: "json dict option"
  cl_body :: json

datatype point_type = NumberDataPoint | HistogramDataPoint | ExponentialHistogramDataPoint

record data_point =
  dp_type :: point_type
  dp_attributes :: "json dict option"
  dp_value :: json

record collected_metric =
  cm_resource :: "json dict"
  cm_scope :: "string option"
  cm_name :: string
  cm_data_points :: "data_point list option"

definition matches_attributes :: "json dict option \<Rightarrow> json dict option \<Rightarrow> bool" where
  "matches_attributes item_attributes expected = (case expected of
     None \<Rightarrow> True
   | Some e \<Rightarrow> (case item_attributes of
       None \<Rightarrow> False
     | Some d \<Rightarrow> list_all (\<lambda>(key, v). py_eq (case map_of d key of None \<Rightarrow> JNull | Some x \<Rightarrow> x) v) e))"

definition matches_scope :: "string option \<Rightarrow> string option \<Rightarrow> bool" where
  "matches_scope item_scope expected_scope_name =
     (expected_scope_name = None \<or> item_scope = expected_scope_name)"

text \<open>None, one, or an error if there are more.\<close>

definition the_only :: "'a list \<Rightarrow> test_error + 'a option" where
  "the_only results =
     (if length results = 0 then Inr None
      else if length results > 1 then Inl (Raises ValueError) else Inr (Some (results ! 0)))"

definition find_spans ::
    "collected_span list \<Rightarrow> string \<Rightarrow> json dict option \<Rightarrow> string option \<Rightarrow> collected_span list" where
  "find_spans spans name attributes scope = filter (\<lambda>(s, _). rs_name s = name
     \<and> matches_attributes (rs_attributes s) attributes \<and> matches_scope (rs_scope s) scope) spans"

definition get_span ::
    "collected_span list \<Rightarrow> string \<Rightarrow> json dict option \<Rightarrow> string option \<Rightarrow> test_error + collected_span option" where
  "get_span spans name attributes scope = the_only (find_spans spans name attributes scope)"

definition find_logs :: "collected_log list \<Rightarrow> json dict option \<Rightarrow> string option \<Rightarrow> collected_log list" where
  "find_logs logs attributes scope = filter (\<lambda>l.
     matches_attributes (cl_attributes l) attributes \<and> matches_scope (cl_scope l) scope) logs"

definition get_log ::
    "collected_log list \<Rightarrow> json dict option \<Rightarrow> string option \<Rightarrow> test_error + collected_log option" where
  "get_log logs attributes scope = the_only (find_logs logs attributes scope)"

definition find_metrics ::
    "collected_metric list \<Rightarrow> string \<Rightarrow> json dict option \<Rightarrow> string option \<Rightarrow> collected_metric list" where
  "find_metrics metrics_data name attributes scope = filter (\<lambda>m.
     (cm_name m = name \<and> matches_scope (cm_scope m) scope)
     \<and> (attributes = None \<or> (case cm_data_points m of None \<Rightarrow> False | Some points \<Rightarrow>
          list_ex (\<lambda>p. matches_attributes (dp_attributes p) attributes) points))) metrics_data"

definition get_metric ::
    "collected_metric list \<Rightarrow> string \<Rightarrow> json dict option \<Rightarrow> string option \<Rightarrow> test_error + collected_metric option" where
  "get_metric metrics_data name attributes scope = the_only (find_metrics metrics_data name attributes scope)"

definition latest_metric_data ::
    "collected_metric list \<Rightarrow> string \<Rightarrow> point_type \<Rightarrow> json dict option \<Rightarrow> string option \<Rightarrow> test_error + data_point" where
  "latest_metric_data metrics_data name type_expected attributes scope =
     bindR (get_metric metrics_data name attributes scope) (\<lambda>found. case found of
       None \<Rightarrow> Inl Assertion_Error
     | Some m \<Rightarrow> (case cm_data_points m of
         None \<Rightarrow> Inl Assertion_Error
       | Some points \<Rightarrow>
           if points = [] then Inl Assertion_Error
           else if dp_type (last points) \<noteq> type_expected then Inl Assertion_Error else Inr (last points)))"

section \<open>Trace ids\<close>

datatype expected_trace = Trace_Id int | Of_Span otel_span

fun extract_trace_id :: "expected_trace \<Rightarrow> int" where
  "extract_trace_id (Trace_Id i) = i"
| "extract_trace_id (Of_Span s) = uint (sp_trace_id s)"

definition assert_trace_id :: "collected_span \<Rightarrow> expected_trace \<Rightarrow> test_error + unit" where
  "assert_trace_id collected expected =
     (if extract_trace_id expected = fst (snd collected) then Inr () else Inl Assertion_Error)"

fun hex_str :: "nat \<Rightarrow> string" where
  "hex_str n = (if n < 16 then [hex_digit n] else hex_str (n div 16) @ [hex_digit (n mod 16)])"

declare hex_str.simps [simp del]

text \<open>\<open>format(i, '032x')\<close>: the zeros stand between the sign and the digits.\<close>

definition format_032x :: "int \<Rightarrow> string" where
  "format_032x i = (let sign = (if i < 0 then ''-'' else []); digits = hex_str (nat \<bar>i\<bar>)
     in sign @ replicate (32 - length sign - length digits) (CHR ''0'') @ digits)"

definition assert_trace_header :: "string \<Rightarrow> expected_trace \<Rightarrow> test_error + unit" where
  "assert_trace_header hdr expected =
     (let expected_header = ''00-'' @ format_032x (extract_trace_id expected) @ ''-''
      in if take (length expected_header) hdr = expected_header then Inr () else Inl Assertion_Error)"

section \<open>The collector\<close>

text \<open>The in-memory exporters; metrics are grouped by resource and scope as the reader reports them.\<close>

record otel_mocker =
  log_exporter :: "collected_log list"
  span_exporter :: "readable_span list"
  metrics_data :: "(json dict \<times> (string option \<times> (string \<times> data_point list option) list) list) list option"

definition get_finished_logs :: "otel_mocker \<Rightarrow> collected_log list \<times> otel_mocker" where
  "get_finished_logs m = (log_exporter m, m\<lparr>log_exporter := []\<rparr>)"

fun collect_spans :: "readable_span list \<Rightarrow> test_error + collected_span list" where
  "collect_spans [] = Inr []"
| "collect_spans (s # ss) = bindR (CollectedSpan s) (\<lambda>c. bindR (collect_spans ss) (\<lambda>cs. Inr (c # cs)))"

text \<open>The exporter is cleared only when every span could be wrapped.\<close>

definition get_finished_spans :: "otel_mocker \<Rightarrow> (test_error + collected_span list) \<times> otel_mocker" where
  "get_finished_spans m = (case collect_spans (span_exporter m) of
     Inl e \<Rightarrow> (Inl e, m)
   | Inr spans \<Rightarrow> (Inr spans, m\<lparr>span_exporter := []\<rparr>))"

definition get_metrics_data :: "otel_mocker \<Rightarrow> collected_metric list" where
  "get_metrics_data m = (case metrics_data m of None \<Rightarrow> [] | Some d \<Rightarrow>
     concat (map (\<lambda>(resource, scopes). concat (map (\<lambda>(scope, ms). map (\<lambda>(name, points).
       \<lparr> cm_resource = resource, cm_scope = scope, cm_name = name, cm_data_points = points \<rparr>) ms) scopes)) d))"

section \<open>Sentry envelopes\<close>

record envelope =
  env_event :: "json dict option"
  env_transaction :: "json dict option"

definition capture_envelope :: "envelope \<Rightarrow> envelope list \<Rightarrow> envelope list" where
  "capture_envelope e captured = captured @ [e]"

definition get_events :: "envelope list \<Rightarrow> json dict list" where
  "get_events es = List.map_filter env_event es"

definition get_transactions :: "envelope list \<Rightarrow> json dict list" where
  "get_transactions es = List.map_filter env_transaction es"

text \<open>\<open>for x in v\<close>\<close>

fun each :: "json \<Rightarrow> json res list" where
  "each (JArr xs) = map Inr xs"
| "each (JStr s) = map (\<lambda>c. Inr (JStr [c])) s"
| "each (JObj d) = map (\<lambda>(k, _). Inr (JStr k)) d"
| "each _ = [Inl TypeError]"

definition get_spans :: "envelope list \<Rightarrow> json res list" where
  "get_spans es = concat (map (\<lambda>t. filter (\<lambda>r. case r of Inl _ \<Rightarrow> True | Inr x \<Rightarrow> is_obj x)
     (each (case map_of t ''spans'' of None \<Rightarrow> JArr [] | Some v \<Rightarrow> v))) (get_transactions es))"

text \<open>\<open>event.get(key, {}).get('values', [])\<close>\<close>

definition values_of :: "string \<Rightarrow> json dict \<Rightarrow> json res list" where
  "values_of key event = (case py_get (case map_of event key of None \<Rightarrow> JObj [] | Some v \<Rightarrow> v)
     ''values'' (JArr []) of Inl e \<Rightarrow> [Inl e] | Inr v \<Rightarrow> each v)"

definition get_breadcrumbs :: "envelope list \<Rightarrow> json res list" where
  "get_breadcrumbs es = concat (map (values_of ''breadcrumbs'') (get_events es))"

definition get_exceptions :: "envelope list \<Rightarrow> json res list" where
  "get_exceptions es = concat (map (values_of ''exception'') (get_events es))"

text \<open>The loop of the five finders: the first item whose member has the wanted text.\<close>

fun find_first :: "string \<Rightarrow> string \<Rightarrow> json res list \<Rightarrow> json res" where
  "find_first key wanted [] = Inl LookupError"
| "find_first key wanted (Inl e # rs) = Inl e"
| "find_first key wanted (Inr x # rs) =
     bindR (py_get x key JNull) (\<lambda>v. if v = JStr wanted then Inr x else find_first key wanted rs)"

definition find_transaction_by_name :: "envelope list \<Rightarrow> string \<Rightarrow> json res" where
  "find_transaction_by_name es name = find_first ''transaction'' name (map (\<lambda>t. Inr (JObj t)) (get_transactions es))"

definition find_span_by_op :: "envelope list \<Rightarrow> string \<Rightarrow> json res" where
  "find_span_by_op es op_name = find_first ''op'' op_name (get_spans es)"

definition find_breadcrumb_by_message :: "envelope list \<Rightarrow> string \<Rightarrow> json res" where
  "find_breadcrumb_by_message es message = find_first ''message'' message (get_breadcrumbs es)"

definition find_breadcrumb_by_level :: "envelope list \<Rightarrow> string \<Rightarrow> json res" where
  "find_breadcrumb_by_level es level_name = find_first ''level'' level_name (get_breadcrumbs es)"

definition find_exception_by_type :: "envelope list \<Rightarrow> string \<Rightarrow> json res" where
  "find_exception_by_type es exception_type = find_first ''type'' exception_type (get_exceptions es)"

section \<open>Isolation of tests\<close>

text \<open>
  The guards of OpenTelemetry's global providers, each a \<open>Once\<close> object: whether it has fired.
  \<open>with_mocker\<close> is a \<open>with OTelMocker(...)\<close> block: \<open>__enter__\<close> gives the mocker itself, and \<open>__exit__\<close>
  resets the guards and returns nothing, so that an exception of the block goes on.
\<close>

record otel_guards =
  tracer_provider_set :: bool
  meter_provider_set :: bool

definition reset_otel_once :: "otel_guards \<Rightarrow> otel_guards" where
  "reset_otel_once g = g\<lparr>tracer_provider_set := False, meter_provider_set := False\<rparr>"

definition with_mocker ::
    "(otel_mocker \<Rightarrow> otel_guards \<Rightarrow> (test_error + 'a) \<times> otel_guards) \<Rightarrow> otel_mocker \<Rightarrow> otel_guards
     \<Rightarrow> (test_error + 'a) \<times> otel_guards" where
  "with_mocker body m g = (case body m g of (r, g') \<Rightarrow> (r, reset_otel_once g'))"

text \<open>
  The fixtures of Sentry, as the calls of \<open>sentry_sdk\<close> they make around those of a test.  The client
  is initialised with the transport of the test, if any, and a sample rate.
\<close>

datatype sentry_call = Enter_Isolation_Scope | Leave_Isolation_Scope | Flush | Close_Client
  | Init_Client "envelope list option" "rat option"

definition sentry_isolation_scope :: "sentry_call list \<Rightarrow> sentry_call list" where
  "sentry_isolation_scope test =
     [Enter_Isolation_Scope, Init_Client None None] @ test @ [Leave_Isolation_Scope, Flush, Close_Client]"

definition sentry_transport :: "envelope list" where
  "sentry_transport = []"

definition sentry_capture :: "sentry_call list \<Rightarrow> sentry_call list" where
  "sentry_capture test = sentry_isolation_scope (Init_Client (Some sentry_transport) (Some 1) # test)"

text \<open>
  Tests do not meet each other's providers: after a \<open>with\<close> block of the mocker both guards are open,
  whatever the block did and also if it raised; and its result is that of the block.
\<close>
theorem mocker_resets_guards:
  "fst (with_mocker body m g) = fst (body m g)
   \<and> \<not> tracer_provider_set (snd (with_mocker body m g)) \<and> \<not> meter_provider_set (snd (with_mocker body m g))"
  by (simp add: with_mocker_def reset_otel_once_def split: prod.split)

section \<open>What a lookup finds\<close>

lemma the_only_iff:
  "the_only xs = Inr (Some x) \<longleftrightarrow> xs = [x]"
  "the_only xs = Inr None \<longleftrightarrow> xs = []"
  by (cases xs rule: list.exhaust; cases "tl xs"; auto simp: the_only_def)+

lemma find_first_Inr:
  "find_first key wanted rs = Inr x \<longleftrightarrow>
     (\<exists>earlier later. rs = map Inr earlier @ Inr x # later \<and> py_get x key JNull = Inr (JStr wanted)
        \<and> (\<forall>y \<in> set earlier. \<exists>v. py_get y key JNull = Inr v \<and> v \<noteq> JStr wanted))"
proof (induction key wanted rs rule: find_first.induct)
  case (3 key wanted z rs)
  show ?case
  proof (cases "py_get z key JNull")
    case (Inl e)
    then show ?thesis by (auto simp: Cons_eq_append_conv Cons_eq_map_conv)
  next
    case (Inr v)
    show ?thesis
    proof (cases "v = JStr wanted")
      case True
      with Inr show ?thesis by (force simp: Cons_eq_append_conv Cons_eq_map_conv)
    next
      case False
      with Inr have "find_first key wanted (Inr z # rs) = find_first key wanted rs" by simp
      with 3 [OF False] Inr False show ?thesis
        by (auto simp: Cons_eq_append_conv Cons_eq_map_conv) (metis list.set_intros(2) set_ConsD)+
    qed
  qed
qed (auto simp: Cons_eq_append_conv Cons_eq_map_conv)

lemma drained: "fst (get_finished_logs (snd (get_finished_logs m))) = []"
  "get_finished_spans m = (Inr ss, m') \<Longrightarrow> get_finished_spans m' = (Inr [], m')"
  by (auto simp: get_finished_logs_def get_finished_spans_def split: sum.splits)

text \<open>
  A span is returned exactly when it is the only one that matches, in the order captured; two
  matches are an error and never a guess.
\<close>

theorem get_span_exact:
  "get_span spans name attributes scope = Inr (Some c) \<longleftrightarrow> find_spans spans name attributes scope = [c]"
  by (simp add: get_span_def the_only_iff)

text \<open>
  \<open>latest_metric_data\<close> looks for a metric with a data point that has the attributes, and then
  returns the last data point of that metric, whatever its attributes are.
\<close>

definition split_metric :: collected_metric where
  "split_metric = \<lparr> cm_resource = [], cm_scope = None, cm_name = ''retries'', cm_data_points = Some
     [\<lparr> dp_type = NumberDataPoint, dp_attributes = Some [(''operation'', JStr ''refresh'')], dp_value = JInt 1 \<rparr>,
      \<lparr> dp_type = NumberDataPoint, dp_attributes = Some [(''operation'', JStr ''code'')], dp_value = JInt 2 \<rparr>] \<rparr>"

lemma latest_metric_data_ignores_attributes:
  "\<exists>p. latest_metric_data [split_metric] ''retries'' NumberDataPoint (Some [(''operation'', JStr ''refresh'')]) None = Inr p
     \<and> \<not> matches_attributes (dp_attributes p) (Some [(''operation'', JStr ''refresh'')])"
  by (simp add: latest_metric_data_def get_metric_def the_only_def find_metrics_def split_metric_def
      matches_scope_def matches_attributes_def)

end
