(* ===== verification/Spec2Isabelle.thy ===== *)
theory Spec2Isabelle
  imports Fetch_Liveness Grant_Race Gauge_Freshness Provider_Models Captured
begin

text \<open>
  A model of \<open>oauthclientbridge\<close>.

  The program.  The bridge is a small web service between a client that speaks the OAuth client
  credentials grant and a provider that speaks the authorization code grant.  A user is sent to the
  provider (\<open>authorize\<close>), comes back with a code (\<open>callback\<close>), the bridge trades the code for a token,
  encrypts the token with a fresh key and stores it under a fresh client id; client id and key are
  shown to the user.  A client that presents both (\<open>token\<close>) gets an access token, refreshed with the
  provider when the stored payload has a refresh token.  Requests to the provider are retried within
  a deadline and a process-wide retry budget.

  Theories and the code they model (paths below \<open>src/oauthclientbridge\<close>):

  \<^item> \<open>Bridge_Prelude\<close>: Python's dynamic values, dictionaries, exceptions, and stateful computations
    that may raise, with a weakest precondition calculus.
  \<^item> \<open>Oauth_Errors\<close>: \<open>errors.py\<close>.  \<open>Bridge_Settings\<close>: \<open>settings.py\<close>.
  \<^item> \<open>Retry_Budget\<close>: \<open>utils/bucket.py\<close> and \<open>oauth/_retry.py\<close>.
  \<^item> \<open>Token_Outcome\<close>: \<open>oauth/_outcome.py\<close>.
  \<^item> \<open>Token_Table\<close>: the SQL statements of \<open>db.py\<close> on the token table.
  \<^item> \<open>Bridge_World\<close>: the state of the process, the parameters that stand for the outside, and the
    clock of \<open>utils/time.py\<close>.
  \<^item> \<open>Provider_Fetch\<close>: \<open>fetch\<close> of \<open>oauth/_core.py\<close>; \<open>Fetch_Correct\<close>, \<open>Fetch_Guarantees\<close> and
    \<open>Fetch_Liveness\<close> hold its properties.
  \<^item> \<open>Json_Text\<close>: \<open>json.dumps\<close>, \<open>json.loads\<close> and UTF-8.  \<open>Secrets\<close>: \<open>crypto.py\<close>, \<open>client.py\<close>.
  \<^item> \<open>Db_Access\<close>: \<open>db.py\<close>.  \<open>Background_Refresh\<close>: \<open>utils/coalescing.py\<close>,
    \<open>telemetry/_refresh.py\<close> and the runtime services of \<open>__init__.py\<close>.
  \<^item> \<open>Uri\<close>: \<open>utils/uri.py\<close> with the parts of \<open>urllib.parse\<close> it uses.
  \<^item> \<open>Web_Base\<close>: error handlers, filters and response helpers; \<open>Views\<close>: the routes of \<open>views.py\<close> and
    the request cycle that \<open>create_app\<close> of \<open>__init__.py\<close> sets up.
  \<^item> \<open>View_Effects\<close>, \<open>Grant_Safety\<close>, \<open>Token_Flow\<close>, \<open>Token_Liveness\<close> and \<open>Grant_Lifecycle\<close>: the properties
    of the routes and of the whole service; \<open>Grant_Race\<close>: token requests that overlap;
    \<open>Service_Events\<close>: which events the parts of a token request write.
  \<^item> \<open>Metrics\<close>: \<open>telemetry/_prometheus.py\<close>, \<open>telemetry/_buckets.py\<close> and the recording functions of
    \<open>telemetry/__init__.py\<close>; \<open>Metrics_Flow\<close>: what the metrics say about fetches, requests and the table.
  \<^item> \<open>Observability\<close>: \<open>telemetry/_resources.py\<close>, \<open>telemetry/_sentry.py\<close>, and the hooks and the set-up of
    \<open>telemetry/_otel.py\<close>; \<open>Client_Identity\<close>: its client identity and instrumentation.
  \<^item> \<open>Access_Logs\<close>: \<open>logs.py\<close>, with the part of \<open>string.Formatter\<close> it uses.
  \<^item> \<open>Startup\<close>: \<open>create_app\<close>, its commands, and \<open>wsgi.py\<close>.  \<open>Gauge_Freshness\<close>: a running process,
    in which requests, the refresh worker and the refresh of the token gauge interleave.
  \<^item> \<open>Provider_Models\<close>: \<open>models.py\<close>.  \<open>Captured\<close>: the helpers and fixtures of the packages \<open>pytest_otel_capture\<close>
    and \<open>pytest_sentry_capture\<close> beside \<open>oauthclientbridge\<close>.

  State and interaction.  The state of the process is the record \<open>world\<close>: the clock, a counter of the
  calls to the outside, the retry limiters, the token table, whether a connection is open, and the
  trace of observable events (requests sent, waits, log records, metrics).  A request is handled in
  the world and a browser session.  The outside (clocks, random numbers, the provider, SQLite's
  failures, Fernet, \<open>re.search\<close>, the date parser, UUIDs) is the record \<open>env\<close> of functions that take
  the counter, so every call may answer differently.  What the code relies on is stated as named
  predicates on \<open>env\<close>: \<open>time_flows\<close>, \<open>random_ok\<close>, \<open>fernet_ok\<close>, \<open>fernet_shapes\<close>, \<open>faults_are\<close>,
  \<open>well_behaved\<close>; \<open>sample_env\<close>, \<open>flaky_env\<close> and \<open>steady_env\<close> are environments that satisfy them.

  Interfaces.  \<open>Token_Table\<close> states the contract of the table as a locale over its three statements and
  interprets it on the SQL model; the properties of \<open>Db_Access\<close> and above rest on those facts.  The
  retry budget has a locale of its own in \<open>Retry_Budget\<close>.  \<open>Service_Events\<close> has the interface of a
  predicate on events that the parts of a token request respect, with an extension for answers; it is
  interpreted for the predicates of \<open>Metrics_Flow\<close> and \<open>Client_Identity\<close>.

  What is shown.  For the classification: when a response may kill a refresh token and when it is
  retried.  For \<open>fetch\<close>: it sends at most \<open>total_retries + 1\<close> requests, pays for each retry, keeps its
  deadline, returns only what the provider or the bridge itself said, returns at all, and returns a
  conclusive first answer at once.  For secrets: round trips, and what accepted credentials are.
  For the table: transactions are atomic, each operation changes exactly the addressed grant, an
  upgrade keeps all grants, the gauge partitions them.  For the background refresh: no lost
  requests, no work after a stop.  For the routes: every request is answered, a callback is bound to
  the session that started it, metrics need their token, logs are redacted, and the guarantees
  about grants: only the owner changes one, only an \<open>invalid_grant\<close> of the provider revokes one and
  it always does, a rotation loses nothing, shown credentials open the stored token, a wrong secret
  looks like an unknown client.  \<open>Grant_Lifecycle\<close> abstracts the table to one small state machine per
  client, proves that every request refines it, and draws the consequences for any sequence of
  requests.  \<open>Grant_Race\<close> splits a token request into its reading and the rest and lets requests
  overlap: the table stays usable, and a revoked grant comes back only through a reading made before
  the revocation (which does happen).  For telemetry: recording never raises, counters count the
  events of their series, errors and attempts are counted as often as they happen, the gauge shows
  the table, a request is filed under its client, and query values are not recorded.  A process
  starts only on an initialised database, with a refresh pending; from then on, in any interleaving
  of requests and refreshes, the gauge shows the table whenever the worker rests and the last refresh
  did not fail, and at most seven steps of the worker bring it there.  (A failed refresh is not
  retried until the table changes again.)

  Bounds and fuel.  The retry loop recurses over its attempts (\<open>total_retries + 1\<close>), so it needs no
  fuel.  The JSON reader has fuel, the length of the text and one: \<open>json_roundtrip\<close> shows that this is
  enough for every text that \<open>json.dumps\<close> writes.  \<open>refresh_run\<close> has fuel, the number of steps; seven
  are enough to come to rest from any state.  Times are rationals, integers are unbounded as in
  Python, except that \<open>int\<close> of more than 4300 digits raises, as it does there.

  Not modelled.  Characters above 255; rounding of floats; the templates (a page is the record of the
  values passed to them); what the libraries do with what they are given: spans of the application
  beside the request and server spans, the OpenTelemetry instruments of \<open>fetch\<close> and of the cursor (their
  measurements are events of the trace), structlog's processors, the exporters, the sharing of metric
  values between processes; pydantic's conversions, reading settings from the environment, the command
  line's parsing.
  In the properties of single requests a request is one step, and SQLite serialises writers;
  \<open>Grant_Race\<close> shows that the only window is between reading a grant and writing it back.
\<close>

end
